(* ===== verification/Prelude.thy ===== *)
theory Prelude
  imports Main "HOL-Library.Word" "HOL-Library.List_Lexorder" "HOL-Library.Char_ord"
    "HOL-Library.Product_Lexorder" "HOL-Library.Sublist"
begin

text \<open>
  What every component of the development shares: the machine integer types, the result type of
  code that may abort the process, loops over that result type, and the ordered association lists
  that stand for \<^verbatim>\<open>std::map\<close> where the code iterates over one.
\<close>

unbundle bit_operations_syntax

section \<open>Machine integers\<close>

type_synonym u8 = "8 word"
type_synonym u16 = "16 word"
type_synonym u32 = "32 word"
type_synonym u64 = "64 word"

named_theorems wf_intros \<open>well-formedness invariants of the components and their preservation\<close>
named_theorems sizes \<open>sizes of the byte representations the builders emit\<close>

section \<open>Results of code that may abort\<close>

text \<open>
  The program reports every error by ending the process. \<open>CHECK_failed\<close> is a failed
  \<^verbatim>\<open>CHECK\<close> of glog, \<open>LOG_FATAL\<close> a \<^verbatim>\<open>LOG(FATAL)\<close>, \<open>Aborted\<close> a call of \<^verbatim>\<open>abort\<close>,
  \<open>Exited\<close> one of \<^verbatim>\<open>err(1, ...)\<close>. \<open>Bad_access\<close> is an access outside the mapped file,
  \<open>Out_of_range\<close> the exception of the same name, \<open>Undefined\<close> an operation C++ leaves undefined.
\<close>

datatype failure = CHECK_failed | LOG_FATAL | Aborted | Exited | Bad_access | Out_of_range | Undefined

type_synonym 'a res = "failure + 'a"

fun rbind :: "'a res \<Rightarrow> ('a \<Rightarrow> 'b res) \<Rightarrow> 'b res" where
  "rbind (Inl e) f = Inl e"
| "rbind (Inr x) f = f x"

definition CHECK :: "bool \<Rightarrow> unit res" where
  "CHECK b = (if b then Inr () else Inl CHECK_failed)"

lemma rbind_Inr_iff [simp]: "rbind m f = Inr y \<longleftrightarrow> (\<exists>x. m = Inr x \<and> f x = Inr y)"
  by (cases m) auto

lemma rbind_Inl_iff: "rbind m f = Inl e \<longleftrightarrow> m = Inl e \<or> (\<exists>x. m = Inr x \<and> f x = Inl e)"
  by (cases m) auto

lemma rbind_assoc: "rbind (rbind m f) g = rbind m (\<lambda>x. rbind (f x) g)"
  by (cases m) auto

lemma rbind_cong [fundef_cong]:
  "m = m' \<Longrightarrow> (\<And>x. m' = Inr x \<Longrightarrow> f x = f' x) \<Longrightarrow> rbind m f = rbind m' f'"
  by (cases m') auto

lemma CHECK_simps [simp]:
  "CHECK True = Inr ()" "CHECK False = Inl CHECK_failed"
  "CHECK b = Inr u \<longleftrightarrow> b" "CHECK b = Inl e \<longleftrightarrow> \<not> b \<and> e = CHECK_failed"
  by (auto simp: CHECK_def)

text \<open>A \<^verbatim>\<open>for\<close> loop over a sequence whose body may abort.\<close>

fun rfold :: "('a \<Rightarrow> 's \<Rightarrow> 's res) \<Rightarrow> 'a list \<Rightarrow> 's \<Rightarrow> 's res" where
  "rfold f [] s = Inr s"
| "rfold f (x # xs) s = rbind (f x s) (rfold f xs)"

lemma rfold_append: "rfold f (xs @ ys) s = rbind (rfold f xs s) (rfold f ys)"
  by (induction xs arbitrary: s) (auto simp: rbind_assoc cong: rbind_cong)

lemma rfold_cong [fundef_cong]:
  "xs = ys \<Longrightarrow> s = t \<Longrightarrow> (\<And>x u. x \<in> set ys \<Longrightarrow> f x u = g x u) \<Longrightarrow> rfold f xs s = rfold g ys t"
proof (induction xs arbitrary: s t ys)
  case Nil
  then show ?case by simp
next
  case (Cons x xs)
  then show ?case by (auto intro!: rbind_cong)
qed

text \<open>The invariant rule of the loop, and its total version.\<close>

lemma rfold_inv:
  assumes "rfold f xs s = Inr s'" and "P s"
    and "\<And>x t t'. x \<in> set xs \<Longrightarrow> P t \<Longrightarrow> f x t = Inr t' \<Longrightarrow> P t'"
  shows "P s'"
  using assms
proof (induction xs arbitrary: s)
  case Nil
  then show ?case by simp
next
  case (Cons x xs)
  from Cons.prems(1) obtain t where t: "f x s = Inr t" "rfold f xs t = Inr s'" by auto
  from Cons.prems(2) Cons.prems(3) [OF _ _ t(1)] have "P t" by simp
  with t(2) show ?case using Cons.IH [of t] Cons.prems(3) by auto
qed

lemma rfold_total:
  assumes "P s" and "\<And>x t. x \<in> set xs \<Longrightarrow> P t \<Longrightarrow> \<exists>t'. f x t = Inr t' \<and> P t'"
  shows "\<exists>s'. rfold f xs s = Inr s' \<and> P s'"
  using assms
proof (induction xs arbitrary: s)
  case Nil
  then show ?case by simp
next
  case (Cons x xs)
  from Cons.prems obtain t where t: "f x s = Inr t" "P t" by fastforce
  have "\<exists>s'. rfold f xs t = Inr s' \<and> P s'" using t(2) Cons.prems(2) by (intro Cons.IH) auto
  with t(1) show ?case by simp
qed

section \<open>Ordered maps\<close>

text \<open>
  A \<^verbatim>\<open>std::map\<close> the code iterates over is an association list in ascending key order, each key
  once; \<^const>\<open>map_of\<close> is \<^verbatim>\<open>find\<close>, \<open>omap_put\<close> is \<^verbatim>\<open>m[k] = v\<close>. Strings compare by bytes
  (\<^verbatim>\<open>std::string::operator<\<close>), which is the list order over the character codes.
\<close>

fun omap_put :: "'k::linorder \<Rightarrow> 'v \<Rightarrow> ('k \<times> 'v) list \<Rightarrow> ('k \<times> 'v) list" where
  "omap_put k v [] = [(k, v)]"
| "omap_put k v ((k', v') # m) =
     (if k < k' then (k, v) # (k', v') # m
      else if k = k' then (k, v) # m
      else (k', v') # omap_put k v m)"

definition omap_wf :: "('k::linorder \<times> 'v) list \<Rightarrow> bool" where
  "omap_wf m = sorted_wrt (<) (map fst m)"

lemma omap_wf_Nil [simp, wf_intros]: "omap_wf []"
  by (simp add: omap_wf_def)

lemma omap_wf_Cons: "omap_wf ((k, v) # m) \<longleftrightarrow> (\<forall>k' \<in> fst ` set m. k < k') \<and> omap_wf m"
  by (auto simp: omap_wf_def)

lemma omap_wf_distinct: "omap_wf m \<Longrightarrow> distinct (map fst m)"
  by (simp add: omap_wf_def strict_sorted_iff)

lemma set_omap_put: "fst ` set (omap_put k v m) = insert k (fst ` set m)"
  by (induction k v m rule: omap_put.induct) auto

lemma omap_put_wf [wf_intros]: "omap_wf m \<Longrightarrow> omap_wf (omap_put k v m)"
  by (induction k v m rule: omap_put.induct) (auto simp: omap_wf_Cons set_omap_put)

lemma omap_put_not_Nil [simp]: "omap_put k v m \<noteq> []"
  by (cases "(k, v, m)" rule: omap_put.cases) auto

lemma map_of_omap_put_apply:
  "omap_wf m \<Longrightarrow> map_of (omap_put k v m) x = (if x = k then Some v else map_of m x)"
  by (induction k v m rule: omap_put.induct) (auto simp: omap_wf_Cons)

lemma map_of_omap_put: "omap_wf m \<Longrightarrow> map_of (omap_put k v m) = (map_of m)(k \<mapsto> v)"
  by (rule ext) (simp add: map_of_omap_put_apply)

lemma length_omap_put_new: "map_of m k = None \<Longrightarrow> length (omap_put k v m) = Suc (length m)"
  by (induction k v m rule: omap_put.induct) (auto split: if_splits)

lemma length_omap_put_old: "omap_wf m \<Longrightarrow> map_of m k = Some w \<Longrightarrow> length (omap_put k v m) = length m"
proof (induction k v m rule: omap_put.induct)
  case (2 k v k' v' m)
  show ?case
  proof (cases "k < k'")
    case True
    with "2.prems" have "k \<in> fst ` set m" by (auto split: if_splits dest!: map_of_SomeD intro: rev_image_eqI)
    with True "2.prems"(1) show ?thesis by (force simp: omap_wf_Cons)
  next
    case False
    then show ?thesis using 2 by (auto simp: omap_wf_Cons split: if_splits)
  qed
qed simp

end
