(* ===== verification/Bytes.thy ===== *)
theory Bytes
  imports Prelude
begin

text \<open>
  Bytes in memory and on disk. Little-endian encodings of the machine integers
  (the host's, which \<^verbatim>\<open>ELFDATA2LSB\<close> makes the file's as well), and the mapped input file as a byte
  list that is read and written through offsets from its head. The locale \<open>codec\<close> is the contract
  of every fixed-size C struct the program writes with \<^verbatim>\<open>Write\<close> or reads through a pointer.
\<close>

section \<open>Little-endian words\<close>

fun le_bytes :: "nat \<Rightarrow> 'a::len word \<Rightarrow> u8 list" where
  "le_bytes 0 w = []"
| "le_bytes (Suc n) w = ucast w # le_bytes n (drop_bit 8 w)"

fun le_word :: "u8 list \<Rightarrow> 'a::len word" where
  "le_word [] = 0"
| "le_word (b # bs) = ucast b OR push_bit 8 (le_word bs)"

lemma length_le_bytes [simp]: "length (le_bytes n w) = n"
  by (induction n arbitrary: w) auto

lemma le_word_le_bytes_take: "le_word (le_bytes n w) = take_bit (8 * n) w"
proof (induction n arbitrary: w)
  case 0
  then show ?case by simp
next
  case (Suc n)
  show ?case
    by (rule bit_word_eqI)
      (auto simp: Suc bit_or_iff bit_push_bit_iff bit_take_bit_iff bit_drop_bit_eq bit_ucast_iff)
qed

lemma le_word_le_bytes [simp]: "LENGTH('a) \<le> 8 * n \<Longrightarrow> le_word (le_bytes n w) = (w :: 'a::len word)"
  by (simp add: le_word_le_bytes_take take_bit_word_eq_self)

lemma bit_le_word: "bit (le_word bs :: 'a::len word) n \<Longrightarrow> n < 8 * length bs"
proof (induction bs arbitrary: n)
  case Nil
  then show ?case by simp
next
  case (Cons b bs)
  show ?case
  proof (cases "n < 8")
    case False
    with Cons.prems have "bit (le_word bs :: 'a word) (n - 8)"
      by (auto simp: bit_or_iff bit_push_bit_iff bit_ucast_iff dest: bit_imp_le_length)
    then have "n - 8 < 8 * length bs" by (rule Cons.IH)
    then show ?thesis by simp
  qed simp
qed

lemma le_bytes_le_word [simp]:
  "n = length bs \<Longrightarrow> 8 * n \<le> LENGTH('a) \<Longrightarrow> le_bytes n (le_word bs :: 'a::len word) = bs"
proof (induction bs arbitrary: n)
  case Nil
  then show ?case by simp
next
  case (Cons b bs)
  let ?w = "ucast b OR push_bit 8 (le_word bs) :: 'a word"
  have "ucast ?w = b"
    using Cons.prems
    by (intro bit_word_eqI) (auto simp: bit_ucast_iff bit_or_iff bit_push_bit_iff)
  moreover have "drop_bit 8 ?w = le_word bs"
    using Cons.prems
    by (intro bit_word_eqI)
      (auto simp: bit_drop_bit_eq bit_or_iff bit_push_bit_iff bit_ucast_iff
        dest: bit_imp_le_length bit_le_word)
  ultimately show ?case using Cons by simp
qed

section \<open>The mapped input file\<close>

text \<open>
  \<^verbatim>\<open>ReadELF\<close> maps the input file; every pointer into it is modelled by its offset from
  \<^verbatim>\<open>head_\<close>. An access that leaves the mapping is \<^const>\<open>Bad_access\<close>.
\<close>

type_synonym image = "u8 list"

definition read_bytes :: "image \<Rightarrow> u64 \<Rightarrow> nat \<Rightarrow> u8 list res" where
  "read_bytes img off n =
     (if unat off + n \<le> length img then Inr (take n (drop (unat off) img)) else Inl Bad_access)"

definition write_bytes :: "image \<Rightarrow> u64 \<Rightarrow> u8 list \<Rightarrow> image res" where
  "write_bytes img off bs =
     (if unat off + length bs \<le> length img
      then Inr (take (unat off) img @ bs @ drop (unat off + length bs) img) else Inl Bad_access)"

definition read_struct :: "(u8 list \<Rightarrow> 'a) \<Rightarrow> nat \<Rightarrow> image \<Rightarrow> u64 \<Rightarrow> 'a res" where
  "read_struct dec n img off = rbind (read_bytes img off n) (\<lambda>bs. Inr (dec bs))"

text \<open>A NUL-terminated string of the image (\<^verbatim>\<open>std::string(p)\<close>, which runs \<^verbatim>\<open>strlen\<close>).\<close>

definition char_of_u8 :: "u8 \<Rightarrow> char" where
  "char_of_u8 b = char_of (unat b)"

definition u8_of_char :: "char \<Rightarrow> u8" where
  "u8_of_char c = of_nat (of_char c)"

definition read_cstr :: "image \<Rightarrow> u64 \<Rightarrow> string res" where
  "read_cstr img off =
     (if unat off < length img \<and> 0 \<in> set (drop (unat off) img)
      then Inr (map char_of_u8 (takeWhile (\<lambda>b. b \<noteq> 0) (drop (unat off) img)))
      else Inl Bad_access)"

lemma char_of_u8_of_char [simp]: "char_of_u8 (u8_of_char c) = c"
proof -
  have "(of_char c :: nat) < 256" using nat_of_char_less_256 [of c] by simp
  then show ?thesis by (simp add: char_of_u8_def u8_of_char_def unat_of_nat)
qed

lemma u8_of_char_of_u8 [simp]: "u8_of_char (char_of_u8 b) = b"
proof -
  have "unat b < 2 ^ LENGTH(8)" by (rule unsigned_less)
  then show ?thesis by (simp add: char_of_u8_def u8_of_char_def)
qed

lemma read_bytes_Inr_length: "read_bytes img off n = Inr bs \<Longrightarrow> length bs = n"
  by (auto simp: read_bytes_def split: if_splits)

lemma write_bytes_length: "write_bytes img off bs = Inr img' \<Longrightarrow> length img' = length img"
  by (auto simp: write_bytes_def split: if_splits)

lemma read_write_same:
  "write_bytes img off bs = Inr img' \<Longrightarrow> read_bytes img' off (length bs) = Inr bs"
  by (auto simp: write_bytes_def read_bytes_def min_def split: if_splits)

lemma read_bytes_append:
  assumes "unat off = length pre"
  shows "read_bytes (pre @ bs @ post) off (length bs) = Inr bs"
  using assms by (simp add: read_bytes_def)

section \<open>Fixed-size structs\<close>

text \<open>
  The contract of a C struct that is copied to and from memory byte by byte: a size, an encoder
  and a decoder that are inverse to each other. Tables of structs (symbols, relocations, program
  headers) get their lemmas here, once.
\<close>

locale codec =
  fixes enc :: "'a \<Rightarrow> u8 list" and dec :: "u8 list \<Rightarrow> 'a" and sz :: nat
  assumes enc_length: "length (enc x) = sz"
    and dec_enc: "dec (enc x) = x"
    and enc_dec: "length bs = sz \<Longrightarrow> enc (dec bs) = bs"
begin

lemma enc_inj: "enc x = enc y \<Longrightarrow> x = y"
  by (metis dec_enc)

lemma table_length: "length (concat (map enc xs)) = sz * length xs"
  by (induction xs) (auto simp: enc_length)

lemma table_inj: "concat (map enc xs) = concat (map enc ys) \<Longrightarrow> 0 < sz \<Longrightarrow> xs = ys"
proof (induction xs arbitrary: ys)
  case Nil
  then have "sz * length ys = 0" by (metis table_length list.size(3) list.map(1) concat.simps(1))
  with Nil.prems(2) show ?case by simp
next
  case (Cons x xs)
  from Cons.prems have "sz * length ys = sz * length (x # xs)" by (metis table_length)
  with Cons.prems(2) obtain y ys' where ys: "ys = y # ys'" by (cases ys) auto
  with Cons.prems(1) have "enc x = enc y" "concat (map enc xs) = concat (map enc ys')"
    by (auto simp: append_eq_append_conv enc_length)
  with Cons.IH [of ys'] Cons.prems(2) enc_inj ys show ?case by simp
qed

lemma read_one:
  assumes "unat off = length pre"
  shows "read_struct dec sz (pre @ enc x @ post) off = Inr x"
  using read_bytes_append [OF assms, of "enc x" post] by (simp add: read_struct_def enc_length dec_enc)

lemma read_table:
  assumes "i < length xs" and "unat off = length pre + sz * i"
  shows "read_struct dec sz (pre @ concat (map enc xs) @ post) off = Inr (xs ! i)"
proof -
  let ?before = "pre @ concat (map enc (take i xs))"
  have split: "xs = take i xs @ xs ! i # drop (Suc i) xs" using assms(1) by (rule id_take_nth_drop)
  have "pre @ concat (map enc xs) @ post
      = ?before @ enc (xs ! i) @ (concat (map enc (drop (Suc i) xs)) @ post)"
    by (subst split) simp
  moreover have "length ?before = unat off" using assms by (simp add: table_length)
  ultimately show ?thesis using read_one [of off ?before] by simp
qed

lemma write_read:
  "write_bytes img off (enc x) = Inr img' \<Longrightarrow> read_struct dec sz img' off = Inr x"
  using read_write_same [of img off "enc x" img'] by (simp add: read_struct_def enc_length dec_enc)

end

end
