(* ===== verification/Elf_Types.thy ===== *)
theory Elf_Types
  imports Bytes
begin

text \<open>
  The structs of \<^verbatim>\<open>elf.h\<close> that \<^verbatim>\<open>utils.h\<close> names \<^verbatim>\<open>Elf_*\<close> (the ELF64 variants), with their
  byte layout, and the constants of the same header the program compares against. Each struct
  is an instance of the locale \<^verbatim>\<open>codec\<close>, whose facts carry the struct's prefix.
\<close>

text \<open>Consecutive fields of a byte string join into a longer one.\<close>

lemma fields_join:
  "take m xs @ take n (drop m xs) = take (m + n) xs"
  "take m xs @ take n (drop m xs) @ ys = take (m + n) xs @ ys"
  by (simp_all add: take_add)

lemma fields_end: "length bs = n \<Longrightarrow> take n bs = bs"
  by simp

record Elf_Ehdr =
  e_ident :: "128 word"
  e_type :: u16
  e_machine :: u16
  e_version :: u32
  e_entry :: u64
  e_phoff :: u64
  e_shoff :: u64
  e_flags :: u32
  e_ehsize :: u16
  e_phentsize :: u16
  e_phnum :: u16
  e_shentsize :: u16
  e_shnum :: u16
  e_shstrndx :: u16

definition enc_Elf_Ehdr :: "Elf_Ehdr \<Rightarrow> u8 list" where
  "enc_Elf_Ehdr x =
    le_bytes 16 (e_ident x) @ le_bytes 2 (e_type x) @ le_bytes 2 (e_machine x) @ le_bytes 4 (e_version x) @
    le_bytes 8 (e_entry x) @ le_bytes 8 (e_phoff x) @ le_bytes 8 (e_shoff x) @ le_bytes 4 (e_flags x) @
    le_bytes 2 (e_ehsize x) @ le_bytes 2 (e_phentsize x) @ le_bytes 2 (e_phnum x) @ le_bytes 2 (e_shentsize x) @
    le_bytes 2 (e_shnum x) @ le_bytes 2 (e_shstrndx x)"

definition dec_Elf_Ehdr :: "u8 list \<Rightarrow> Elf_Ehdr" where
  "dec_Elf_Ehdr bs =
    \<lparr>e_ident = le_word (take 16 bs), e_type = le_word (take 2 (drop 16 bs)),
     e_machine = le_word (take 2 (drop 18 bs)), e_version = le_word (take 4 (drop 20 bs)),
     e_entry = le_word (take 8 (drop 24 bs)), e_phoff = le_word (take 8 (drop 32 bs)),
     e_shoff = le_word (take 8 (drop 40 bs)), e_flags = le_word (take 4 (drop 48 bs)),
     e_ehsize = le_word (take 2 (drop 52 bs)), e_phentsize = le_word (take 2 (drop 54 bs)),
     e_phnum = le_word (take 2 (drop 56 bs)), e_shentsize = le_word (take 2 (drop 58 bs)),
     e_shnum = le_word (take 2 (drop 60 bs)), e_shstrndx = le_word (take 2 (drop 62 bs))\<rparr>"

interpretation ehdr: codec enc_Elf_Ehdr dec_Elf_Ehdr 64
  by unfold_locales
    (simp_all add: enc_Elf_Ehdr_def dec_Elf_Ehdr_def fields_join fields_end)

record Elf_Phdr =
  p_type :: u32
  p_flags :: u32
  p_offset :: u64
  p_vaddr :: u64
  p_paddr :: u64
  p_filesz :: u64
  p_memsz :: u64
  p_align :: u64

definition enc_Elf_Phdr :: "Elf_Phdr \<Rightarrow> u8 list" where
  "enc_Elf_Phdr x =
    le_bytes 4 (p_type x) @ le_bytes 4 (p_flags x) @ le_bytes 8 (p_offset x) @ le_bytes 8 (p_vaddr x) @
    le_bytes 8 (p_paddr x) @ le_bytes 8 (p_filesz x) @ le_bytes 8 (p_memsz x) @ le_bytes 8 (p_align x)"

definition dec_Elf_Phdr :: "u8 list \<Rightarrow> Elf_Phdr" where
  "dec_Elf_Phdr bs =
    \<lparr>p_type = le_word (take 4 bs), p_flags = le_word (take 4 (drop 4 bs)),
     p_offset = le_word (take 8 (drop 8 bs)), p_vaddr = le_word (take 8 (drop 16 bs)),
     p_paddr = le_word (take 8 (drop 24 bs)), p_filesz = le_word (take 8 (drop 32 bs)),
     p_memsz = le_word (take 8 (drop 40 bs)), p_align = le_word (take 8 (drop 48 bs))\<rparr>"

interpretation phdr: codec enc_Elf_Phdr dec_Elf_Phdr 56
  by unfold_locales
    (simp_all add: enc_Elf_Phdr_def dec_Elf_Phdr_def fields_join fields_end)

record Elf_Shdr =
  sh_name :: u32
  sh_type :: u32
  sh_flags :: u64
  sh_addr :: u64
  sh_offset :: u64
  sh_size :: u64
  sh_link :: u32
  sh_info :: u32
  sh_addralign :: u64
  sh_entsize :: u64

definition enc_Elf_Shdr :: "Elf_Shdr \<Rightarrow> u8 list" where
  "enc_Elf_Shdr x =
    le_bytes 4 (sh_name x) @ le_bytes 4 (sh_type x) @ le_bytes 8 (sh_flags x) @ le_bytes 8 (sh_addr x) @
    le_bytes 8 (sh_offset x) @ le_bytes 8 (sh_size x) @ le_bytes 4 (sh_link x) @ le_bytes 4 (sh_info x) @
    le_bytes 8 (sh_addralign x) @ le_bytes 8 (sh_entsize x)"

definition dec_Elf_Shdr :: "u8 list \<Rightarrow> Elf_Shdr" where
  "dec_Elf_Shdr bs =
    \<lparr>sh_name = le_word (take 4 bs), sh_type = le_word (take 4 (drop 4 bs)),
     sh_flags = le_word (take 8 (drop 8 bs)), sh_addr = le_word (take 8 (drop 16 bs)),
     sh_offset = le_word (take 8 (drop 24 bs)), sh_size = le_word (take 8 (drop 32 bs)),
     sh_link = le_word (take 4 (drop 40 bs)), sh_info = le_word (take 4 (drop 44 bs)),
     sh_addralign = le_word (take 8 (drop 48 bs)), sh_entsize = le_word (take 8 (drop 56 bs))\<rparr>"

interpretation shdr: codec enc_Elf_Shdr dec_Elf_Shdr 64
  by unfold_locales
    (simp_all add: enc_Elf_Shdr_def dec_Elf_Shdr_def fields_join fields_end)

record Elf_Dyn =
  d_tag :: u64
  d_val :: u64

definition enc_Elf_Dyn :: "Elf_Dyn \<Rightarrow> u8 list" where
  "enc_Elf_Dyn x =
    le_bytes 8 (d_tag x) @ le_bytes 8 (d_val x)"

definition dec_Elf_Dyn :: "u8 list \<Rightarrow> Elf_Dyn" where
  "dec_Elf_Dyn bs =
    \<lparr>d_tag = le_word (take 8 bs), d_val = le_word (take 8 (drop 8 bs))\<rparr>"

interpretation dyn: codec enc_Elf_Dyn dec_Elf_Dyn 16
  by unfold_locales
    (simp_all add: enc_Elf_Dyn_def dec_Elf_Dyn_def fields_join fields_end)

record Elf_Sym =
  st_name :: u32
  st_info :: u8
  st_other :: u8
  st_shndx :: u16
  st_value :: u64
  st_size :: u64

definition enc_Elf_Sym :: "Elf_Sym \<Rightarrow> u8 list" where
  "enc_Elf_Sym x =
    le_bytes 4 (st_name x) @ le_bytes 1 (st_info x) @ le_bytes 1 (st_other x) @ le_bytes 2 (st_shndx x) @
    le_bytes 8 (st_value x) @ le_bytes 8 (st_size x)"

definition dec_Elf_Sym :: "u8 list \<Rightarrow> Elf_Sym" where
  "dec_Elf_Sym bs =
    \<lparr>st_name = le_word (take 4 bs), st_info = le_word (take 1 (drop 4 bs)),
     st_other = le_word (take 1 (drop 5 bs)), st_shndx = le_word (take 2 (drop 6 bs)),
     st_value = le_word (take 8 (drop 8 bs)), st_size = le_word (take 8 (drop 16 bs))\<rparr>"

interpretation sym: codec enc_Elf_Sym dec_Elf_Sym 24
  by unfold_locales
    (simp_all add: enc_Elf_Sym_def dec_Elf_Sym_def fields_join fields_end del: le_bytes.simps One_nat_def)

record Elf_Rel =
  r_offset :: u64
  r_info :: u64
  r_addend :: u64

definition enc_Elf_Rel :: "Elf_Rel \<Rightarrow> u8 list" where
  "enc_Elf_Rel x =
    le_bytes 8 (r_offset x) @ le_bytes 8 (r_info x) @ le_bytes 8 (r_addend x)"

definition dec_Elf_Rel :: "u8 list \<Rightarrow> Elf_Rel" where
  "dec_Elf_Rel bs =
    \<lparr>r_offset = le_word (take 8 bs), r_info = le_word (take 8 (drop 8 bs)),
     r_addend = le_word (take 8 (drop 16 bs))\<rparr>"

interpretation rel: codec enc_Elf_Rel dec_Elf_Rel 24
  by unfold_locales
    (simp_all add: enc_Elf_Rel_def dec_Elf_Rel_def fields_join fields_end)

record Elf_Verneed =
  vn_version :: u16
  vn_cnt :: u16
  vn_file :: u32
  vn_aux :: u32
  vn_next :: u32

definition enc_Elf_Verneed :: "Elf_Verneed \<Rightarrow> u8 list" where
  "enc_Elf_Verneed x =
    le_bytes 2 (vn_version x) @ le_bytes 2 (vn_cnt x) @ le_bytes 4 (vn_file x) @ le_bytes 4 (vn_aux x) @
    le_bytes 4 (vn_next x)"

definition dec_Elf_Verneed :: "u8 list \<Rightarrow> Elf_Verneed" where
  "dec_Elf_Verneed bs =
    \<lparr>vn_version = le_word (take 2 bs), vn_cnt = le_word (take 2 (drop 2 bs)),
     vn_file = le_word (take 4 (drop 4 bs)), vn_aux = le_word (take 4 (drop 8 bs)),
     vn_next = le_word (take 4 (drop 12 bs))\<rparr>"

interpretation verneed: codec enc_Elf_Verneed dec_Elf_Verneed 16
  by unfold_locales
    (simp_all add: enc_Elf_Verneed_def dec_Elf_Verneed_def fields_join fields_end)

record Elf_Vernaux =
  vna_hash :: u32
  vna_flags :: u16
  vna_other :: u16
  vna_name :: u32
  vna_next :: u32

definition enc_Elf_Vernaux :: "Elf_Vernaux \<Rightarrow> u8 list" where
  "enc_Elf_Vernaux x =
    le_bytes 4 (vna_hash x) @ le_bytes 2 (vna_flags x) @ le_bytes 2 (vna_other x) @ le_bytes 4 (vna_name x) @
    le_bytes 4 (vna_next x)"

definition dec_Elf_Vernaux :: "u8 list \<Rightarrow> Elf_Vernaux" where
  "dec_Elf_Vernaux bs =
    \<lparr>vna_hash = le_word (take 4 bs), vna_flags = le_word (take 2 (drop 4 bs)),
     vna_other = le_word (take 2 (drop 6 bs)), vna_name = le_word (take 4 (drop 8 bs)),
     vna_next = le_word (take 4 (drop 12 bs))\<rparr>"

interpretation vernaux: codec enc_Elf_Vernaux dec_Elf_Vernaux 16
  by unfold_locales
    (simp_all add: enc_Elf_Vernaux_def dec_Elf_Vernaux_def fields_join fields_end)

record Elf_Verdef =
  vd_version :: u16
  vd_flags :: u16
  vd_ndx :: u16
  vd_cnt :: u16
  vd_hash :: u32
  vd_aux :: u32
  vd_next :: u32

definition enc_Elf_Verdef :: "Elf_Verdef \<Rightarrow> u8 list" where
  "enc_Elf_Verdef x =
    le_bytes 2 (vd_version x) @ le_bytes 2 (vd_flags x) @ le_bytes 2 (vd_ndx x) @ le_bytes 2 (vd_cnt x) @
    le_bytes 4 (vd_hash x) @ le_bytes 4 (vd_aux x) @ le_bytes 4 (vd_next x)"

definition dec_Elf_Verdef :: "u8 list \<Rightarrow> Elf_Verdef" where
  "dec_Elf_Verdef bs =
    \<lparr>vd_version = le_word (take 2 bs), vd_flags = le_word (take 2 (drop 2 bs)),
     vd_ndx = le_word (take 2 (drop 4 bs)), vd_cnt = le_word (take 2 (drop 6 bs)),
     vd_hash = le_word (take 4 (drop 8 bs)), vd_aux = le_word (take 4 (drop 12 bs)),
     vd_next = le_word (take 4 (drop 16 bs))\<rparr>"

interpretation verdef: codec enc_Elf_Verdef dec_Elf_Verdef 20
  by unfold_locales
    (simp_all add: enc_Elf_Verdef_def dec_Elf_Verdef_def fields_join fields_end)

record Elf_Verdaux =
  vda_name :: u32
  vda_next :: u32

definition enc_Elf_Verdaux :: "Elf_Verdaux \<Rightarrow> u8 list" where
  "enc_Elf_Verdaux x =
    le_bytes 4 (vda_name x) @ le_bytes 4 (vda_next x)"

definition dec_Elf_Verdaux :: "u8 list \<Rightarrow> Elf_Verdaux" where
  "dec_Elf_Verdaux bs =
    \<lparr>vda_name = le_word (take 4 bs), vda_next = le_word (take 4 (drop 4 bs))\<rparr>"

interpretation verdaux: codec enc_Elf_Verdaux dec_Elf_Verdaux 8
  by unfold_locales
    (simp_all add: enc_Elf_Verdaux_def dec_Elf_Verdaux_def fields_join fields_end)

section \<open>Constants\<close>

text \<open>
  The values \<^verbatim>\<open>elf.h\<close> gives them; abbreviations, so that comparisons evaluate.
\<close>

abbreviation (input) PT_LOAD :: u32 where "PT_LOAD \<equiv> 1"
abbreviation (input) PT_DYNAMIC :: u32 where "PT_DYNAMIC \<equiv> 2"
abbreviation (input) PT_INTERP :: u32 where "PT_INTERP \<equiv> 3"
abbreviation (input) PT_NOTE :: u32 where "PT_NOTE \<equiv> 4"
abbreviation (input) PT_PHDR :: u32 where "PT_PHDR \<equiv> 6"
abbreviation (input) PT_TLS :: u32 where "PT_TLS \<equiv> 7"
abbreviation (input) PT_GNU_EH_FRAME :: u32 where "PT_GNU_EH_FRAME \<equiv> 0x6474e550"
abbreviation (input) PT_GNU_STACK :: u32 where "PT_GNU_STACK \<equiv> 0x6474e551"
abbreviation (input) PT_GNU_RELRO :: u32 where "PT_GNU_RELRO \<equiv> 0x6474e552"
abbreviation (input) PF_X :: u32 where "PF_X \<equiv> 1"
abbreviation (input) PF_W :: u32 where "PF_W \<equiv> 2"
abbreviation (input) PF_R :: u32 where "PF_R \<equiv> 4"

abbreviation (input) EM_X86_64 :: u16 where "EM_X86_64 \<equiv> 62"
abbreviation (input) EM_AARCH64 :: u16 where "EM_AARCH64 \<equiv> 183"
abbreviation (input) ET_DYN :: u16 where "ET_DYN \<equiv> 3"
abbreviation (input) SHN_UNDEF :: u16 where "SHN_UNDEF \<equiv> 0"
abbreviation (input) SHN_LORESERVE :: u16 where "SHN_LORESERVE \<equiv> 0xff00"
abbreviation (input) VER_NDX_LOCAL :: u16 where "VER_NDX_LOCAL \<equiv> 0"
abbreviation (input) VER_NDX_GLOBAL :: u16 where "VER_NDX_GLOBAL \<equiv> 1"
abbreviation (input) VER_NEED_CURRENT :: u16 where "VER_NEED_CURRENT \<equiv> 1"
abbreviation (input) VER_FLG_BASE :: u16 where "VER_FLG_BASE \<equiv> 1"
abbreviation (input) VER_FLG_WEAK :: u16 where "VER_FLG_WEAK \<equiv> 2"

abbreviation (input) STB_LOCAL :: u8 where "STB_LOCAL \<equiv> 0"
abbreviation (input) STB_GLOBAL :: u8 where "STB_GLOBAL \<equiv> 1"
abbreviation (input) STB_WEAK :: u8 where "STB_WEAK \<equiv> 2"
abbreviation (input) STT_TLS :: u8 where "STT_TLS \<equiv> 6"

abbreviation (input) DT_NULL :: u64 where "DT_NULL \<equiv> 0"
abbreviation (input) DT_NEEDED :: u64 where "DT_NEEDED \<equiv> 1"
abbreviation (input) DT_PLTRELSZ :: u64 where "DT_PLTRELSZ \<equiv> 2"
abbreviation (input) DT_HASH :: u64 where "DT_HASH \<equiv> 4"
abbreviation (input) DT_STRTAB :: u64 where "DT_STRTAB \<equiv> 5"
abbreviation (input) DT_SYMTAB :: u64 where "DT_SYMTAB \<equiv> 6"
abbreviation (input) DT_RELA :: u64 where "DT_RELA \<equiv> 7"
abbreviation (input) DT_RELASZ :: u64 where "DT_RELASZ \<equiv> 8"
abbreviation (input) DT_RELAENT :: u64 where "DT_RELAENT \<equiv> 9"
abbreviation (input) DT_STRSZ :: u64 where "DT_STRSZ \<equiv> 10"
abbreviation (input) DT_SYMENT :: u64 where "DT_SYMENT \<equiv> 11"
abbreviation (input) DT_INIT :: u64 where "DT_INIT \<equiv> 12"
abbreviation (input) DT_FINI :: u64 where "DT_FINI \<equiv> 13"
abbreviation (input) DT_SONAME :: u64 where "DT_SONAME \<equiv> 14"
abbreviation (input) DT_RPATH :: u64 where "DT_RPATH \<equiv> 15"
abbreviation (input) DT_REL :: u64 where "DT_REL \<equiv> 17"
abbreviation (input) DT_RELSZ :: u64 where "DT_RELSZ \<equiv> 18"
abbreviation (input) DT_RELENT :: u64 where "DT_RELENT \<equiv> 19"
abbreviation (input) DT_PLTREL :: u64 where "DT_PLTREL \<equiv> 20"
abbreviation (input) DT_JMPREL :: u64 where "DT_JMPREL \<equiv> 23"
abbreviation (input) DT_INIT_ARRAY :: u64 where "DT_INIT_ARRAY \<equiv> 25"
abbreviation (input) DT_FINI_ARRAY :: u64 where "DT_FINI_ARRAY \<equiv> 26"
abbreviation (input) DT_INIT_ARRAYSZ :: u64 where "DT_INIT_ARRAYSZ \<equiv> 27"
abbreviation (input) DT_FINI_ARRAYSZ :: u64 where "DT_FINI_ARRAYSZ \<equiv> 28"
abbreviation (input) DT_RUNPATH :: u64 where "DT_RUNPATH \<equiv> 29"
abbreviation (input) DT_GNU_HASH :: u64 where "DT_GNU_HASH \<equiv> 0x6ffffef5"
abbreviation (input) DT_VERSYM :: u64 where "DT_VERSYM \<equiv> 0x6ffffff0"
abbreviation (input) DT_VERDEF :: u64 where "DT_VERDEF \<equiv> 0x6ffffffc"
abbreviation (input) DT_VERDEFNUM :: u64 where "DT_VERDEFNUM \<equiv> 0x6ffffffd"
abbreviation (input) DT_VERNEED :: u64 where "DT_VERNEED \<equiv> 0x6ffffffe"
abbreviation (input) DT_VERNEEDNUM :: u64 where "DT_VERNEEDNUM \<equiv> 0x6fffffff"

abbreviation (input) SHT_STRTAB :: u32 where "SHT_STRTAB \<equiv> 3"
abbreviation (input) SHT_RELA :: u32 where "SHT_RELA \<equiv> 4"
abbreviation (input) SHT_DYNAMIC :: u32 where "SHT_DYNAMIC \<equiv> 6"
abbreviation (input) SHT_DYNSYM :: u32 where "SHT_DYNSYM \<equiv> 11"
abbreviation (input) SHT_INIT_ARRAY :: u32 where "SHT_INIT_ARRAY \<equiv> 14"
abbreviation (input) SHT_FINI_ARRAY :: u32 where "SHT_FINI_ARRAY \<equiv> 15"
abbreviation (input) SHT_GNU_HASH :: u32 where "SHT_GNU_HASH \<equiv> 0x6ffffff6"
abbreviation (input) SHT_GNU_verneed :: u32 where "SHT_GNU_verneed \<equiv> 0x6ffffffe"
abbreviation (input) SHT_GNU_versym :: u32 where "SHT_GNU_versym \<equiv> 0x6fffffff"

abbreviation (input) SHF_WRITE :: u64 where "SHF_WRITE \<equiv> 1"
abbreviation (input) SHF_ALLOC :: u64 where "SHF_ALLOC \<equiv> 2"
abbreviation (input) SHF_EXECINSTR :: u64 where "SHF_EXECINSTR \<equiv> 4"

abbreviation (input) R_X86_64_64 :: u32 where "R_X86_64_64 \<equiv> 1"
abbreviation (input) R_X86_64_COPY :: u32 where "R_X86_64_COPY \<equiv> 5"
abbreviation (input) R_X86_64_GLOB_DAT :: u32 where "R_X86_64_GLOB_DAT \<equiv> 6"
abbreviation (input) R_X86_64_JUMP_SLOT :: u32 where "R_X86_64_JUMP_SLOT \<equiv> 7"
abbreviation (input) R_X86_64_RELATIVE :: u32 where "R_X86_64_RELATIVE \<equiv> 8"
abbreviation (input) R_X86_64_DTPMOD64 :: u32 where "R_X86_64_DTPMOD64 \<equiv> 16"
abbreviation (input) R_X86_64_DTPOFF64 :: u32 where "R_X86_64_DTPOFF64 \<equiv> 17"
abbreviation (input) R_X86_64_TPOFF64 :: u32 where "R_X86_64_TPOFF64 \<equiv> 18"
abbreviation (input) R_AARCH64_ABS64 :: u32 where "R_AARCH64_ABS64 \<equiv> 257"
abbreviation (input) R_AARCH64_COPY :: u32 where "R_AARCH64_COPY \<equiv> 1024"
abbreviation (input) R_AARCH64_GLOB_DAT :: u32 where "R_AARCH64_GLOB_DAT \<equiv> 1025"
abbreviation (input) R_AARCH64_JUMP_SLOT :: u32 where "R_AARCH64_JUMP_SLOT \<equiv> 1026"
abbreviation (input) R_AARCH64_RELATIVE :: u32 where "R_AARCH64_RELATIVE \<equiv> 1027"
abbreviation (input) R_AARCH64_TLSDESC :: u32 where "R_AARCH64_TLSDESC \<equiv> 1031"

text \<open>\<^verbatim>\<open>ELF64_ST_BIND\<close>, \<^verbatim>\<open>ELF64_ST_TYPE\<close>, \<^verbatim>\<open>ELF64_R_SYM\<close>, \<^verbatim>\<open>ELF64_R_TYPE\<close> and \<^verbatim>\<open>ELF64_R_INFO\<close>.\<close>

definition ELF_ST_BIND :: "u8 \<Rightarrow> u8" where
  "ELF_ST_BIND v = drop_bit 4 v"

definition ELF_ST_TYPE :: "u8 \<Rightarrow> u8" where
  "ELF_ST_TYPE v = v AND 0xf"

definition ELF_R_SYM :: "u64 \<Rightarrow> u64" where
  "ELF_R_SYM i = drop_bit 32 i"

definition ELF_R_TYPE :: "u64 \<Rightarrow> u32" where
  "ELF_R_TYPE i = ucast (i AND 0xffffffff)"

definition ELF_R_INFO :: "u64 \<Rightarrow> u32 \<Rightarrow> u64" where
  "ELF_R_INFO s typ = push_bit 32 s + ucast typ"

lemma low32_mask: "(0xffffffff :: u64) = mask 32"
  by (simp add: mask_eq_exp_minus_1)

lemma low32: "ucast (i AND 0xffffffff :: u64) = (ucast i :: u32)"
  by (rule bit_word_eqI) (auto simp: bit_ucast_iff bit_and_iff low32_mask bit_mask_iff)

lemma ELF_R_TYPE_INFO: "ELF_R_TYPE (ELF_R_INFO s typ) = typ"
proof -
  have "push_bit 32 s + ucast typ = push_bit 32 s OR (ucast typ :: u64)"
    by (rule disjunctive_add) (auto simp: bit_push_bit_iff bit_ucast_iff dest: bit_imp_le_length)
  then show ?thesis
    by (intro bit_word_eqI) (auto simp: ELF_R_TYPE_def ELF_R_INFO_def low32 bit_ucast_iff bit_or_iff bit_push_bit_iff)
qed

lemma ELF_R_SYM_INFO:
  assumes "unat s < 2 ^ 32"
  shows "ELF_R_SYM (ELF_R_INFO s typ) = s"
proof -
  have "push_bit 32 s + ucast typ = push_bit 32 s OR (ucast typ :: u64)"
    by (rule disjunctive_add) (auto simp: bit_push_bit_iff bit_ucast_iff dest: bit_imp_le_length)
  moreover have "n < 32" if "bit s n" for n
  proof (rule ccontr)
    assume n: "\<not> n < 32"
    from that have "bit (unat s) n" by (simp add: bit_unsigned_iff)
    then have "2 ^ n \<le> unat s" by (metis bit_iff_odd bit_imp_possible_bit div_less even_zero not_less)
    with n assms show False
      by (meson le_less_trans less_irrefl one_le_numeral order_trans power_increasing not_less)
  qed
  ultimately show ?thesis
    by (intro bit_word_eqI)
      (auto simp: ELF_R_SYM_def ELF_R_INFO_def bit_drop_bit_eq bit_ucast_iff bit_or_iff bit_push_bit_iff
        dest: bit_imp_le_length)
qed

end
