(* ===== verification/Utils.thy ===== *)
theory Utils
  imports Elf_Types
begin

text \<open>
  \<^verbatim>\<open>utils.h\<close> and \<^verbatim>\<open>utils.cc\<close>: alignment, the output stream helpers, string helpers.
\<close>

section \<open>Alignment\<close>

definition LINUX_PAGE_SIZE :: u64 where
  "LINUX_PAGE_SIZE = 0x1000"

definition AlignNext_mask :: "u64 \<Rightarrow> u64 \<Rightarrow> u64" where
  "AlignNext_mask a m = (a + m) AND NOT m"

text \<open>The default argument of \<^verbatim>\<open>AlignNext\<close>.\<close>

definition AlignNext :: "u64 \<Rightarrow> u64" where
  "AlignNext a = AlignNext_mask a (LINUX_PAGE_SIZE - 1)"

lemma unat_and_not_mask: "unat ((w :: 'a::len word) AND NOT (mask n)) = unat w div 2 ^ n * 2 ^ n"
proof -
  have "unat (w AND NOT (mask n)) = push_bit n (drop_bit n (unat w))"
    by (rule bit_eqI)
      (auto simp: bit_unsigned_iff bit_and_iff bit_not_iff bit_mask_iff bit_push_bit_iff bit_drop_bit_eq
        dest: bit_imp_le_length)
  then show ?thesis by (simp add: push_bit_eq_mult drop_bit_eq_div)
qed

lemma page_mask: "LINUX_PAGE_SIZE - 1 = mask 12"
  by (simp add: LINUX_PAGE_SIZE_def mask_eq_exp_minus_1)

lemma unat_AlignNext_mask:
  assumes "n < 64" and "unat a + (2 ^ n - 1) < 2 ^ 64"
  shows "unat (AlignNext_mask a (mask n)) = (unat a + (2 ^ n - 1)) div 2 ^ n * 2 ^ n"
proof -
  have "unat (mask n :: u64) = mask n"
    using assms(1) by (intro bit_eqI) (auto simp: bit_unsigned_iff bit_mask_iff)
  then have "unat (mask n :: u64) = 2 ^ n - 1" by (simp add: mask_eq_exp_minus_1)
  then have "unat (a + mask n) = unat a + (2 ^ n - 1)"
    using assms(2) by (simp add: unat_word_ariths)
  then show ?thesis by (simp add: AlignNext_mask_def unat_and_not_mask)
qed

definition page_up :: "nat \<Rightarrow> nat" where
  "page_up n = (n + 4095) div 4096 * 4096"

lemma unat_AlignNext: "unat a + 4095 < 2 ^ 64 \<Longrightarrow> unat (AlignNext a) = page_up (unat a)"
  using unat_AlignNext_mask [of 12 a] by (simp add: AlignNext_def page_mask page_up_def)

lemma page_up_ge: "n \<le> page_up n"
  and page_up_less: "page_up n < n + 4096"
  and page_up_aligned: "4096 dvd page_up n"
  and page_up_mono: "m \<le> n \<Longrightarrow> page_up m \<le> page_up n"
  unfolding page_up_def by (simp_all add: div_le_mono)

lemma page_up_id: "4096 dvd n \<Longrightarrow> page_up n = n"
  by (auto simp: page_up_def elim!: dvdE)

lemma AlignNext_of_nat: "n + 4095 < 2 ^ 63 \<Longrightarrow> AlignNext (of_nat n) = of_nat (page_up n)"
proof -
  assume n: "n + 4095 < 2 ^ 63"
  then have "unat (of_nat n :: u64) = n" by (simp add: unat_of_nat)
  then have "unat (AlignNext (of_nat n)) = page_up n" using n by (simp add: unat_AlignNext)
  then have "of_nat (unat (AlignNext (of_nat n))) = (of_nat (page_up n) :: u64)" by (simp only:)
  then show ?thesis by simp
qed

text \<open>
  \<^verbatim>\<open>AlignNext\<close> returns the least multiple of the page size that is not below its argument,
  as long as that multiple fits into 64 bits.
\<close>
theorem AlignNext_least:
  assumes "unat a + 4095 < 2 ^ 64"
  shows "a \<le> AlignNext a \<and> 4096 dvd unat (AlignNext a)
    \<and> (\<forall>b. a \<le> b \<and> 4096 dvd unat b \<longrightarrow> AlignNext a \<le> b)"
proof -
  have "page_up (unat a) \<le> unat b" if "a \<le> b" "4096 dvd unat b" for b
    using page_up_mono [of "unat a" "unat b"] that by (simp add: page_up_id word_le_nat_alt)
  then show ?thesis
    using assms page_up_ge page_up_aligned by (auto simp: word_le_nat_alt unat_AlignNext)
qed

theorem AlignNext_least_witness:
  "(0x1001 :: u64) \<le> AlignNext 0x1001 \<and> 4096 dvd unat (AlignNext 0x1001)
    \<and> AlignNext 0x1001 \<le> 0x2000"
proof -
  have h: "unat (0x1001 :: u64) + 4095 < 2 ^ 64" by simp
  show ?thesis using AlignNext_least [OF h] by simp
qed

section \<open>The output stream\<close>

text \<open>
  A \<^verbatim>\<open>FILE*\<close> opened with \<^verbatim>\<open>fopen(..., "wb")\<close> is the list of the bytes written to it, its
  position the number of these bytes. A short write (a full disk) would fail the \<^verbatim>\<open>CHECK\<close> on
  \<^verbatim>\<open>fwrite\<close>; the model writes to a device that takes every byte.
\<close>

type_synonym stream = "u8 list"

definition ftell :: "stream \<Rightarrow> u64" where
  "ftell fp = of_nat (length fp)"

definition WriteBuf :: "u8 list \<Rightarrow> stream \<Rightarrow> stream res" where
  "WriteBuf buf fp = Inr (fp @ buf)"

lemma rfold_WriteBuf: "rfold (\<lambda>x fp. WriteBuf (f x) fp) xs fp = Inr (fp @ concat (map f xs))"
  by (induction xs arbitrary: fp) (auto simp: WriteBuf_def)

definition EmitZeros :: "u64 \<Rightarrow> stream \<Rightarrow> stream res" where
  "EmitZeros cnt fp = WriteBuf (replicate (unat cnt) 0) fp"

text \<open>\<^verbatim>\<open>EmitPad\<close> keeps the position in a 32-bit \<^verbatim>\<open>uint\<close>.\<close>

definition EmitPad :: "u64 \<Rightarrow> stream \<Rightarrow> stream res" where
  "EmitPad to fp =
     (let pos = ucast (ftell fp) :: u32
      in rbind (CHECK (0 \<le> pos)) (\<lambda>_.
         rbind (CHECK (ucast pos \<le> to)) (\<lambda>_.
         EmitZeros (to - ucast pos) fp)))"

definition EmitAlign :: "stream \<Rightarrow> stream res" where
  "EmitAlign fp =
     (let pos = ftell fp
      in rbind (CHECK (0 \<le> sint pos)) (\<lambda>_. EmitZeros (AlignNext pos - pos) fp))"

lemma ftell_nat: "length fp < 2 ^ 64 \<Longrightarrow> unat (ftell fp) = length fp"
  by (simp add: ftell_def unat_of_nat)

lemma unat_ucast_32_64: "unat (ucast (p :: u32) :: u64) = unat p"
  by (simp add: unsigned_ucast_eq take_bit_nat_eq_self_iff less_trans [OF unsigned_less])

lemma ucast_ftell: "unat (ucast (ftell fp) :: u32) = length fp mod 2 ^ 32"
  by (simp add: ftell_def unsigned_ucast_eq unsigned_of_nat take_bit_eq_mod mod_mod_cancel)

lemma EmitPad_Inr:
  "EmitPad to fp = Inr fp' \<longleftrightarrow>
     length fp mod 2 ^ 32 \<le> unat to \<and> fp' = fp @ replicate (unat to - length fp mod 2 ^ 32) 0"
proof -
  define pos :: u32 where "pos = ucast (ftell fp)"
  have pos: "unat (ucast pos :: u64) = length fp mod 2 ^ 32"
    by (simp add: pos_def unat_ucast_32_64 ucast_ftell)
  have "unat (to - ucast pos) = unat to - length fp mod 2 ^ 32" if "ucast pos \<le> to"
    using that pos by (simp add: unat_sub word_le_nat_alt)
  then show ?thesis
    using pos by (auto simp: EmitPad_def Let_def EmitZeros_def WriteBuf_def word_le_nat_alt
        simp flip: pos_def)
qed

lemma EmitPad_ok:
  assumes "length fp < 2 ^ 32" and "length fp \<le> unat to"
  shows "EmitPad to fp = Inr (fp @ replicate (unat to - length fp) 0)"
  using assms by (simp add: EmitPad_Inr)

lemma EmitAlign_ok:
  assumes "length fp + 4095 < 2 ^ 63"
  shows "EmitAlign fp = Inr (fp @ replicate (page_up (length fp) - length fp) 0)"
proof -
  have pos: "unat (ftell fp) = length fp" using assms by (simp add: ftell_nat)
  then have "unat (AlignNext (ftell fp)) = page_up (length fp)"
    using assms by (simp add: unat_AlignNext)
  moreover then have "ftell fp \<le> AlignNext (ftell fp)"
    using pos page_up_ge by (simp add: word_le_nat_alt)
  ultimately have "unat (AlignNext (ftell fp) - ftell fp) = page_up (length fp) - length fp"
    using pos by (simp add: unat_sub)
  moreover have "0 \<le> sint (ftell fp)"
    using assms pos by (simp add: sint_uint uint_nat signed_take_bit_int_eq_self)
  ultimately show ?thesis by (simp add: EmitAlign_def Let_def EmitZeros_def WriteBuf_def)
qed

text \<open>
  \<^verbatim>\<open>EmitPad\<close> brings the stream to the requested position while the file is below 4 GiB; past
  that its 32-bit position wraps, and it writes as many zeros as the wrapped position is short of
  the target. Both are the one formula: the padding is the target minus the position modulo 2^32.
\<close>
theorem EmitPad_length:
  assumes "EmitPad to fp = Inr fp'"
  shows "length fp' = length fp + (unat to - length fp mod 2 ^ 32)
    \<and> (length fp < 2 ^ 32 \<longrightarrow> length fp' = unat to)
    \<and> (2 ^ 32 \<le> length fp \<longrightarrow> unat to + 2 ^ 32 \<le> length fp')"
proof -
  define m where "m = length fp mod 2 ^ 32"
  from assms have le: "m \<le> unat to" and fp': "fp' = fp @ replicate (unat to - m) 0"
    by (auto simp: EmitPad_Inr m_def)
  have m_le: "m \<le> length fp" by (simp add: m_def)
  have "2 ^ 32 \<le> length fp - m" if "2 ^ 32 \<le> length fp"
  proof -
    have "1 * 2 ^ 32 \<le> length fp div 2 ^ 32 * 2 ^ 32"
      using that by (intro mult_le_mono1) (simp add: Suc_le_eq div_greater_zero_iff)
    then show ?thesis by (simp only: m_def minus_mod_eq_div_mult mult_1)
  qed
  moreover have "m = length fp" if "length fp < 2 ^ 32" using that by (simp add: m_def)
  ultimately show ?thesis using le fp' m_le unfolding m_def [symmetric] by auto
qed

theorem EmitPad_length_witness:
  "EmitPad 3 [1, 2] = Inr [1, 2, 0] \<and> length [1, 2, 0 :: u8] = unat (3 :: u64)"
proof -
  have h: "EmitPad 3 [1, 2] = Inr [1, 2, 0]"
    by (simp add: EmitPad_Inr)
  show ?thesis using h EmitPad_length [OF h] by simp
qed

section \<open>Strings\<close>

text \<open>\<^verbatim>\<open>std::string::find(f, index)\<close>: the first match at or after \<^verbatim>\<open>index\<close>; \<^const>\<open>None\<close> is \<^verbatim>\<open>npos\<close>.\<close>

fun find_sub :: "string \<Rightarrow> string \<Rightarrow> nat option" where
  "find_sub f [] = (if f = [] then Some 0 else None)"
| "find_sub f (c # s) =
     (if take (length f) (c # s) = f then Some 0 else map_option Suc (find_sub f s))"

definition str_find :: "string \<Rightarrow> string \<Rightarrow> nat \<Rightarrow> nat option" where
  "str_find s f index =
     (if index \<le> length s then map_option ((+) index) (find_sub f (drop index s)) else None)"

lemma find_sub_Some:
  "find_sub f s = Some i \<Longrightarrow> i + length f \<le> length s \<and> take (length f) (drop i s) = f"
proof (induction f s arbitrary: i rule: find_sub.induct)
  case (1 f)
  then show ?case by (simp split: if_splits)
next
  case (2 f c s)
  show ?case
  proof (cases "take (length f) (c # s) = f")
    case True
    then have "length f \<le> length (c # s)" by (metis length_take min.cobounded1)
    with True 2 show ?thesis by simp
  next
    case False
    with 2 show ?thesis by auto
  qed
qed

lemma str_find_Some:
  "str_find s f index = Some i \<Longrightarrow> index \<le> i \<and> i + length f \<le> length s \<and> take (length f) (drop i s) = f"
  by (auto simp: str_find_def add.commute dest!: find_sub_Some split: if_splits)

function SplitString_loop :: "string \<Rightarrow> string \<Rightarrow> nat \<Rightarrow> string list res" where
  "SplitString_loop str sep index =
     (case str_find str sep index of
        None \<Rightarrow> if index \<le> length str then Inr [drop index str] else Inl Out_of_range
      | Some nxt \<Rightarrow>
          rbind (SplitString_loop str sep (nxt + 1)) (\<lambda>ret.
          Inr (take (nxt - index) (drop index str) # ret)))"
  by pat_completeness auto
termination
  by (relation "measure (\<lambda>(str, sep, index). length str + 1 - index)") (auto dest: str_find_Some)

declare SplitString_loop.simps [simp del]

definition SplitString :: "string \<Rightarrow> string \<Rightarrow> string list res" where
  "SplitString str sep = (if str = [] then Inr [] else SplitString_loop str sep 0)"

definition HasPrefix :: "string \<Rightarrow> string \<Rightarrow> bool" where
  "HasPrefix str pre =
     (let size_diff = int (length str) - int (length pre)
      in size_diff \<ge> 0 \<and> take (length pre) str = pre)"

lemma HasPrefix_prefix: "HasPrefix str pre \<longleftrightarrow> prefix pre str"
  by (auto simp: HasPrefix_def Let_def prefix_def) (metis append_take_drop_id)

text \<open>The inverse of splitting at a single character.\<close>

fun join_with :: "char \<Rightarrow> string list \<Rightarrow> string" where
  "join_with c [] = []"
| "join_with c [p] = p"
| "join_with c (p # q # ps) = p @ c # join_with c (q # ps)"

lemma find_sub_char: "find_sub [c] s = (if c \<in> set s then Some (length (takeWhile (\<lambda>x. x \<noteq> c) s)) else None)"
  by (induction s) auto

lemma str_find_char_None: "str_find s [c] i = None \<Longrightarrow> c \<notin> set (drop i s)"
  by (auto simp: str_find_def find_sub_char split: if_splits)

lemma str_find_char_Some:
  assumes "str_find s [c] i = Some j"
  shows "i \<le> j \<and> j < length s \<and> c \<notin> set (take (j - i) (drop i s))
    \<and> drop i s = take (j - i) (drop i s) @ c # drop (j + 1) s"
proof -
  from assms have "c \<in> set (drop i s)" and j: "j = i + length (takeWhile (\<lambda>x. x \<noteq> c) (drop i s))"
    and i: "i \<le> length s"
    by (auto simp: str_find_def find_sub_char split: if_splits)
  then obtain ys zs where d: "drop i s = ys @ c # zs" "c \<notin> set ys" by (auto dest: split_list_first)
  then have j': "j = i + length ys" using j by (simp add: takeWhile_append)
  have "drop (j + 1) s = drop (Suc (length ys)) (drop i s)" using j' by (simp add: add.commute)
  then have "drop (j + 1) s = zs" using d(1) by simp
  moreover have "j < length s" using arg_cong [OF d(1), of length] j' i by simp
  ultimately show ?thesis using d j' i by auto
qed

lemma SplitString_loop_char:
  "index \<le> length str \<Longrightarrow>
     \<exists>parts. SplitString_loop str [c] index = Inr parts \<and> parts \<noteq> [] \<and> join_with c parts = drop index str
       \<and> (\<forall>p \<in> set parts. c \<notin> set p)"
proof (induction str "[c]" index rule: SplitString_loop.induct)
  case (1 str index)
  show ?case
  proof (cases "str_find str [c] index")
    case None
    with "1.prems" str_find_char_None [OF None] show ?thesis
      by (subst SplitString_loop.simps) simp
  next
    case (Some nxt)
    note found = str_find_char_Some [OF Some]
    with Some "1.hyps" obtain ps where ps: "SplitString_loop str [c] (nxt + 1) = Inr ps"
      "ps \<noteq> []" "join_with c ps = drop (nxt + 1) str" "\<forall>p \<in> set ps. c \<notin> set p" by fastforce
    then obtain q qs where "ps = q # qs" by (cases ps) auto
    with ps found Some show ?thesis by (subst SplitString_loop.simps) auto
  qed
qed

text \<open>
  splitting at a single character (the program only splits search paths at \<^verbatim>\<open>:\<close>) never fails,
  no part contains the separator, and joining the parts gives the string back; the empty string
  has no part.
\<close>
theorem SplitString_join:
  "SplitString [] [c] = Inr []
    \<and> (\<exists>parts. SplitString (x # xs) [c] = Inr parts \<and> join_with c parts = x # xs
         \<and> list_all (\<lambda>p. c \<notin> set p) parts)"
  using SplitString_loop_char [of 0 "x # xs" c] by (auto simp: SplitString_def list_all_iff)

section \<open>Symbols and versions\<close>

definition IsTLS :: "Elf_Sym \<Rightarrow> bool" where
  "IsTLS s = (ELF_ST_TYPE (st_info s) = STT_TLS)"

definition IsDefined :: "Elf_Sym \<Rightarrow> bool" where
  "IsDefined s = ((st_value s \<noteq> 0 \<or> IsTLS s) \<and> st_shndx s \<noteq> SHN_UNDEF)"

abbreviation (input) NO_VERSION_INFO :: u16 where
  "NO_VERSION_INFO \<equiv> 0xffff"

abbreviation (input) VERSYM_HIDDEN :: u16 where
  "VERSYM_HIDDEN \<equiv> 0x8000"

definition is_special_ver_ndx :: "u16 \<Rightarrow> bool" where
  "is_special_ver_ndx versym = (versym = VER_NDX_LOCAL \<or> versym = VER_NDX_GLOBAL)"

definition special_ver_ndx_to_str :: "u16 \<Rightarrow> string res" where
  "special_ver_ndx_to_str versym =
     (if versym = VER_NDX_LOCAL then Inr ''VER_NDX_LOCAL''
      else if versym = VER_NDX_GLOBAL then Inr ''VER_NDX_GLOBAL''
      else if versym = NO_VERSION_INFO then Inr ''NO_VERSION_INFO''
      else Inl LOG_FATAL)"

text \<open>
  \<^verbatim>\<open>struct Syminfo\<close>. Its \<^verbatim>\<open>Elf_Sym*\<close> is the symbol it points to, or \<^const>\<open>None\<close> for \<^verbatim>\<open>NULL\<close>:
  after \<^verbatim>\<open>LoadDynSymtab\<close> has adjusted a symbol in place nothing writes to it again.
\<close>

record Syminfo =
  si_name :: string
  si_soname :: string
  si_version :: string
  si_versym :: u16
  si_sym :: "Elf_Sym option"

text \<open>\<^verbatim>\<open>struct Range\<close> and its members.\<close>

record Range =
  rg_start :: u64
  rg_end :: u64

definition Range_size :: "Range \<Rightarrow> u64" where
  "Range_size r = rg_end r - rg_start r"

definition Range_add :: "Range \<Rightarrow> u64 \<Rightarrow> Range" where
  "Range_add r offset = \<lparr>rg_start = rg_start r + offset, rg_end = rg_end r + offset\<rparr>"

definition Range_sub :: "Range \<Rightarrow> u64 \<Rightarrow> Range" where
  "Range_sub r offset = \<lparr>rg_start = rg_start r - offset, rg_end = rg_end r - offset\<rparr>"

end
