(* ===== verification/Hash.thy ===== *)
theory Hash
  imports Utils
begin

text \<open>
  \<^verbatim>\<open>hash.cc\<close>: the hash functions of the GNU and the System V symbol hash tables, and the header
  \<^verbatim>\<open>Elf_GnuHash\<close> of \<^verbatim>\<open>hash.h\<close>.
\<close>

section \<open>CalcGnuHash\<close>

fun CalcGnuHash_loop :: "string \<Rightarrow> u32 \<Rightarrow> u32" where
  "CalcGnuHash_loop [] h = h"
| "CalcGnuHash_loop (c # name) h = CalcGnuHash_loop name (h * 33 + ucast (u8_of_char c))"

definition CalcGnuHash :: "string \<Rightarrow> u32" where
  "CalcGnuHash name = CalcGnuHash_loop name 5381"

text \<open>The hash the GNU ABI defines, over the natural numbers: Horner's rule at 33.\<close>

definition gnu_hash_spec :: "string \<Rightarrow> nat" where
  "gnu_hash_spec name = foldl (\<lambda>h c. h * 33 + of_char c) 5381 name"

lemma unat_u8_of_char [simp]: "unat (u8_of_char c) = of_char c"
  using nat_of_char_less_256 [of c] by (simp add: u8_of_char_def unat_of_nat)

lemma u32_of_char: "ucast (u8_of_char c) = (of_nat (of_char c) :: u32)"
  by (metis unat_u8_of_char of_nat_unat)

lemma CalcGnuHash_loop_of_nat:
  "CalcGnuHash_loop name (of_nat h) = of_nat (foldl (\<lambda>h c. h * 33 + of_char c) h name)"
proof (induction name arbitrary: h)
  case Nil
  then show ?case by simp
next
  case (Cons c name)
  have "of_nat h * 33 + ucast (u8_of_char c) = (of_nat (h * 33 + of_char c) :: u32)"
    by (simp add: u32_of_char)
  with Cons show ?case by (simp del: of_nat_add of_nat_mult)
qed

text \<open>
  \<^verbatim>\<open>CalcGnuHash\<close> is the GNU ABI's hash modulo 2^32, so the wrap-around of its 32-bit
  accumulator loses nothing of the specified value.
\<close>
theorem CalcGnuHash_spec: "unat (CalcGnuHash name) = gnu_hash_spec name mod 2 ^ 32"
  using CalcGnuHash_loop_of_nat [of name 5381]
  by (simp add: CalcGnuHash_def gnu_hash_spec_def unat_of_nat)

section \<open>CalcHash\<close>

definition CalcHash_step :: "u32 \<Rightarrow> char \<Rightarrow> u32" where
  "CalcHash_step h c =
     (let h1 = push_bit 4 h + ucast (u8_of_char c);
          g = h1 AND 0xf0000000;
          h2 = h1 XOR drop_bit 24 g
      in h2 XOR g)"

fun CalcHash_loop :: "string \<Rightarrow> u32 \<Rightarrow> u32" where
  "CalcHash_loop [] h = h"
| "CalcHash_loop (c # name) h = CalcHash_loop name (CalcHash_step h c)"

definition CalcHash :: "string \<Rightarrow> u32" where
  "CalcHash name = CalcHash_loop name 0"

text \<open>The reference algorithm of the System V ABI, which clears the top bits with a mask.\<close>

definition sysv_hash_step :: "u32 \<Rightarrow> char \<Rightarrow> u32" where
  "sysv_hash_step h c =
     (let h = push_bit 4 h + ucast (u8_of_char c);
          g = h AND 0xf0000000;
          h = (if g \<noteq> 0 then h XOR drop_bit 24 g else h)
      in h AND NOT g)"

definition sysv_hash :: "string \<Rightarrow> u32" where
  "sysv_hash name = foldl sysv_hash_step 0 name"

lemma high_nibble: "\<exists>M :: u32. 0xf0000000 = M \<and> (\<forall>n. bit M n \<longleftrightarrow> 28 \<le> n \<and> n < 32)"
proof (intro exI conjI)
  show "0xf0000000 = (NOT (mask 28) :: u32)" by (simp add: mask_eq_exp_minus_1 not_eq_complement)
  show "\<forall>n. bit (NOT (mask 28) :: u32) n \<longleftrightarrow> 28 \<le> n \<and> n < 32"
    by (auto simp: bit_not_iff bit_mask_iff)
qed

lemma CalcHash_step_sysv: "CalcHash_step h c = sysv_hash_step h c"
proof -
  obtain M :: u32 where M: "0xf0000000 = M" "\<And>n. bit M n \<longleftrightarrow> 28 \<le> n \<and> n < 32"
    using high_nibble by blast
  define k where "k = push_bit 4 h + (ucast (u8_of_char c) :: u32)"
  have "CalcHash_step h c = (k XOR drop_bit 24 (k AND M)) XOR (k AND M)"
    unfolding CalcHash_step_def M(1) Let_def k_def [symmetric] ..
  also have "\<dots> = (k XOR drop_bit 24 (k AND M)) AND NOT (k AND M)"
    by (rule bit_word_eqI)
      (auto simp: M(2) bit_xor_iff bit_and_iff bit_or_iff bit_not_iff bit_drop_bit_eq dest: bit_imp_le_length)
  also have "\<dots> = sysv_hash_step h c"
    unfolding sysv_hash_step_def M(1) Let_def k_def [symmetric]
    by (cases "k AND M = 0") (simp_all only: simp_thms drop_bit_of_0 xor.right_neutral if_False if_True)
  finally show ?thesis .
qed

lemma CalcHash_step_high: "28 \<le> n \<Longrightarrow> \<not> bit (CalcHash_step h c) n"
proof -
  obtain M :: u32 where M: "0xf0000000 = M" "\<And>n. bit M n \<longleftrightarrow> 28 \<le> n \<and> n < 32"
    using high_nibble by blast
  show "28 \<le> n \<Longrightarrow> \<not> bit (CalcHash_step h c) n"
    unfolding CalcHash_step_def M(1)
    by (auto simp: Let_def M(2) bit_xor_iff bit_and_iff bit_drop_bit_eq dest: bit_imp_le_length)
qed

lemma CalcHash_loop_sysv: "CalcHash_loop name h = foldl sysv_hash_step h name"
  by (induction name arbitrary: h) (auto simp: CalcHash_step_sysv)

lemma CalcHash_loop_high: "(\<And>n. 28 \<le> n \<Longrightarrow> \<not> bit h n) \<Longrightarrow> 28 \<le> n \<Longrightarrow> \<not> bit (CalcHash_loop name h) n"
  by (induction name arbitrary: h) (auto simp: CalcHash_step_high)

text \<open>
  \<^verbatim>\<open>CalcHash\<close> computes the System V ABI's hash although it folds the top bits back with two
  unconditional exclusive ors where the ABI's code tests and masks; the result always fits 28 bits.
\<close>
theorem CalcHash_sysv: "CalcHash name = sysv_hash name \<and> unat (CalcHash name) < 2 ^ 28"
proof -
  have "take_bit 28 (CalcHash name) = CalcHash name"
    using CalcHash_loop_high [of 0 _ name]
    by (intro bit_word_eqI) (auto simp: bit_take_bit_iff CalcHash_def not_less [symmetric])
  then have "unat (CalcHash name) = take_bit 28 (unat (CalcHash name))"
    by (metis unsigned_take_bit_eq)
  then have "unat (CalcHash name) < 2 ^ 28" by (metis take_bit_nat_less_exp)
  then show ?thesis by (simp add: CalcHash_def sysv_hash_def CalcHash_loop_sysv)
qed

section \<open>The header of a GNU hash table\<close>

record Elf_GnuHash =
  gh_nbuckets :: u32
  gh_symndx :: u32
  gh_maskwords :: u32
  gh_shift2 :: u32

text \<open>\<^verbatim>\<open>Elf_GnuHash\<close>'s members start at 0.\<close>

definition Elf_GnuHash_init :: Elf_GnuHash where
  "Elf_GnuHash_init = \<lparr>gh_nbuckets = 0, gh_symndx = 0, gh_maskwords = 0, gh_shift2 = 0\<rparr>"

end
