(* ===== verification/Strtab.thy ===== *)
theory Strtab
  imports Utils
begin

text \<open>
  \<^verbatim>\<open>strtab_builder.h\<close> and \<^verbatim>\<open>strtab_builder.cc\<close>: the string table of the output. The record is the
  class's state, one definition is one member function. The locale \<open>string_table\<close> is what the
  version and symbol builders rely on.
\<close>

section \<open>The class\<close>

record StrtabBuilder =
  sb_strtab :: string
  sb_cache :: "string \<rightharpoonup> u64"
  sb_is_freezed :: bool
  sb_rename_mapping :: "string \<rightharpoonup> string"

definition StrtabBuilder_new :: "(string \<rightharpoonup> string) \<Rightarrow> StrtabBuilder" where
  "StrtabBuilder_new rename_mapping =
     \<lparr>sb_strtab = [], sb_cache = Map.empty, sb_is_freezed = False, sb_rename_mapping = rename_mapping\<rparr>"

definition StrtabBuilder_renamed :: "StrtabBuilder \<Rightarrow> string \<Rightarrow> string" where
  "StrtabBuilder_renamed st s = (case sb_rename_mapping st s of None \<Rightarrow> s | Some t \<Rightarrow> t)"

definition StrtabBuilder_Add :: "string \<Rightarrow> StrtabBuilder \<Rightarrow> (u64 \<times> StrtabBuilder) res" where
  "StrtabBuilder_Add s st =
     (let t = StrtabBuilder_renamed st s
      in rbind (CHECK (\<not> sb_is_freezed st)) (\<lambda>_.
         case sb_cache st t of
           Some pos \<Rightarrow> Inr (pos, st)
         | None \<Rightarrow>
             let pos = of_nat (length (sb_strtab st))
             in Inr (pos, st\<lparr>sb_strtab := sb_strtab st @ t @ [CHR 0x00],
                             sb_cache := (sb_cache st)(t \<mapsto> pos)\<rparr>)))"

definition StrtabBuilder_GetPos :: "string \<Rightarrow> StrtabBuilder \<Rightarrow> u64 res" where
  "StrtabBuilder_GetPos s st =
     (case sb_cache st (StrtabBuilder_renamed st s) of Some pos \<Rightarrow> Inr pos | None \<Rightarrow> Inl LOG_FATAL)"

definition StrtabBuilder_Freeze :: "StrtabBuilder \<Rightarrow> StrtabBuilder" where
  "StrtabBuilder_Freeze st = st\<lparr>sb_is_freezed := True\<rparr>"

definition StrtabBuilder_size :: "StrtabBuilder \<Rightarrow> u64" where
  "StrtabBuilder_size st = of_nat (length (sb_strtab st))"

definition StrtabBuilder_data :: "StrtabBuilder \<Rightarrow> u8 list" where
  "StrtabBuilder_data st = map u8_of_char (sb_strtab st)"

section \<open>What a position stands for\<close>

text \<open>The C string at a position of a table, and the invariant of the cache.\<close>

definition strz_at :: "string \<Rightarrow> nat \<Rightarrow> string" where
  "strz_at tab pos = takeWhile (\<lambda>c. c \<noteq> CHR 0x00) (drop pos tab)"

definition no_nul :: "string \<Rightarrow> bool" where
  "no_nul s = (CHR 0x00 \<notin> set s)"

definition strtab_wf :: "StrtabBuilder \<Rightarrow> bool" where
  "strtab_wf st \<longleftrightarrow> length (sb_strtab st) < 2 ^ 32
     \<and> (\<forall>t pos. sb_cache st t = Some pos \<longrightarrow>
          unat pos + length t < length (sb_strtab st)
          \<and> take (length t + 1) (drop (unat pos) (sb_strtab st)) = t @ [CHR 0x00])"

text \<open>A later state of the same table: it only grew.\<close>

definition strtab_le :: "StrtabBuilder \<Rightarrow> StrtabBuilder \<Rightarrow> bool" where
  "strtab_le st st' \<longleftrightarrow> prefix (sb_strtab st) (sb_strtab st') \<and> sb_cache st \<subseteq>\<^sub>m sb_cache st'
     \<and> sb_rename_mapping st' = sb_rename_mapping st"

lemma strtab_le_refl [simp]: "strtab_le st st"
  by (simp add: strtab_le_def)

lemma strtab_le_trans [trans]: "strtab_le a b \<Longrightarrow> strtab_le b c \<Longrightarrow> strtab_le a c"
  by (auto simp: strtab_le_def intro: map_le_trans prefix_order.trans)

lemma map_le_SomeD: "m \<subseteq>\<^sub>m m' \<Longrightarrow> m k = Some v \<Longrightarrow> m' k = Some v"
  by (metis domI map_le_def)

lemma strtab_le_renamed: "strtab_le st st' \<Longrightarrow> StrtabBuilder_renamed st' = StrtabBuilder_renamed st"
  by (auto simp: strtab_le_def StrtabBuilder_renamed_def)

lemma strtab_wf_new [wf_intros]: "strtab_wf (StrtabBuilder_new m)"
  by (simp add: strtab_wf_def StrtabBuilder_new_def)

lemma Add_cases:
  assumes "StrtabBuilder_Add s st = Inr (pos, st')"
  obtains (old) "sb_cache st (StrtabBuilder_renamed st s) = Some pos" "st' = st"
  | (new) "sb_cache st (StrtabBuilder_renamed st s) = None" "pos = of_nat (length (sb_strtab st))"
      "st' = st\<lparr>sb_strtab := sb_strtab st @ StrtabBuilder_renamed st s @ [CHR 0x00],
                sb_cache := (sb_cache st)(StrtabBuilder_renamed st s \<mapsto> pos)\<rparr>"
  using assms by (auto simp: StrtabBuilder_Add_def Let_def split: option.splits)

lemma Add_le: "StrtabBuilder_Add s st = Inr (pos, st') \<Longrightarrow> strtab_le st st'"
  by (erule Add_cases) (auto simp: strtab_le_def map_le_def)

lemma Add_freezed: "StrtabBuilder_Add s st = Inr (pos, st') \<Longrightarrow> sb_is_freezed st' = sb_is_freezed st"
  by (erule Add_cases) auto

lemma Add_GetPos: "StrtabBuilder_Add s st = Inr (pos, st') \<Longrightarrow> StrtabBuilder_GetPos s st' = Inr pos"
  by (erule Add_cases) (auto simp: StrtabBuilder_GetPos_def StrtabBuilder_renamed_def)

lemma GetPos_le: "strtab_le st st' \<Longrightarrow> StrtabBuilder_GetPos s st = Inr pos \<Longrightarrow> StrtabBuilder_GetPos s st' = Inr pos"
  by (auto simp: StrtabBuilder_GetPos_def strtab_le_renamed strtab_le_def dest: map_le_SomeD split: option.splits)

lemma Add_wf [wf_intros]:
  assumes "StrtabBuilder_Add s st = Inr (pos, st')" and "strtab_wf st"
    and "length (sb_strtab st') < 2 ^ 32"
  shows "strtab_wf st'"
  using assms(1)
proof (cases rule: Add_cases)
  case old
  with assms show ?thesis by simp
next
  case new
  from assms(2) have small: "length (sb_strtab st) < 2 ^ 32" by (simp add: strtab_wf_def)
  then have pos: "unat pos = length (sb_strtab st)" using new(2) by (simp add: unat_of_nat)
  show ?thesis unfolding strtab_wf_def
  proof (intro conjI allI impI)
    fix t p
    assume look: "sb_cache st' t = Some p"
    show "unat p + length t < length (sb_strtab st')"
      using look assms(2) pos new(3) by (fastforce simp: strtab_wf_def split: if_splits)
    show "take (length t + 1) (drop (unat p) (sb_strtab st')) = t @ [CHR 0x00]"
      using look assms(2) pos new(3) by (fastforce simp: strtab_wf_def split: if_splits)
  qed (rule assms(3))
qed

lemma strz_at_cached:
  assumes "strtab_wf st" and "sb_cache st t = Some pos" and "no_nul t"
  shows "strz_at (sb_strtab st) (unat pos) = t"
proof -
  from assms have "take (length t + 1) (drop (unat pos) (sb_strtab st)) = t @ [CHR 0x00]"
    by (simp add: strtab_wf_def)
  then obtain r where "drop (unat pos) (sb_strtab st) = (t @ [CHR 0x00]) @ r"
    by (metis append_take_drop_id)
  then have "strz_at (sb_strtab st) (unat pos) = takeWhile (\<lambda>c. c \<noteq> CHR 0x00) (t @ CHR 0x00 # r)"
    by (simp add: strz_at_def)
  also have "\<dots> = t" using assms(3) by (subst takeWhile_append2) (auto simp: no_nul_def)
  finally show ?thesis .
qed

lemma cached_le:
  assumes "strtab_le st st'" and "sb_cache st t = Some pos"
  shows "sb_cache st' t = Some pos"
  using assms by (auto simp: strtab_le_def dest: map_le_SomeD)



text \<open>\<^verbatim>\<open>Add\<close> fails exactly on a frozen table, and \<^verbatim>\<open>GetPos\<close> exactly on a name never added.\<close>
theorem StrtabBuilder_errors:
  "(StrtabBuilder_Add s st = Inl e \<longleftrightarrow> sb_is_freezed st \<and> e = CHECK_failed)
    \<and> (StrtabBuilder_GetPos s st = Inl e' \<longleftrightarrow> sb_cache st (StrtabBuilder_renamed st s) = None \<and> e' = LOG_FATAL)"
  by (auto simp: StrtabBuilder_Add_def StrtabBuilder_GetPos_def Let_def rbind_Inl_iff split: option.splits)

section \<open>The interface of the table's clients\<close>

text \<open>
  The version and the symbol builder first add every name they will need and ask for positions
  when they emit. They rely on the laws of this locale, not on how the table is represented.
\<close>

locale string_table =
  fixes add :: "string \<Rightarrow> 's \<Rightarrow> (u64 \<times> 's) res"
    and getpos :: "string \<Rightarrow> 's \<Rightarrow> u64 res"
    and le :: "'s \<Rightarrow> 's \<Rightarrow> bool"
    and accepts :: "'s \<Rightarrow> bool"
  assumes le_refl: "le t t"
    and le_trans: "le t u \<Longrightarrow> le u v \<Longrightarrow> le t v"
    and add_le: "add s t = Inr (p, t') \<Longrightarrow> le t t'"
    and add_getpos: "add s t = Inr (p, t') \<Longrightarrow> getpos s t' = Inr p"
    and getpos_le: "le t t' \<Longrightarrow> getpos s t = Inr p \<Longrightarrow> getpos s t' = Inr p"
    and add_accepts: "accepts t \<Longrightarrow> \<exists>p t'. add s t = Inr (p, t') \<and> accepts t'"
begin

lemma add_all_le: "rfold (\<lambda>s t. rbind (add s t) (\<lambda>(_, t'). Inr t')) names t = Inr t' \<Longrightarrow> le t t'"
proof (induction names arbitrary: t)
  case Nil
  then show ?case by (simp add: le_refl)
next
  case (Cons s names)
  then show ?case by (auto intro: le_trans add_le)
qed

lemma add_all_getpos:
  "rfold (\<lambda>s t. rbind (add s t) (\<lambda>(_, t'). Inr t')) names t = Inr t' \<Longrightarrow> s \<in> set names
    \<Longrightarrow> \<exists>p. getpos s t' = Inr p"
proof (induction names arbitrary: t)
  case Nil
  then show ?case by simp
next
  case (Cons n names)
  then obtain p t1 where t1: "add n t = Inr (p, t1)"
    "rfold (\<lambda>s t. rbind (add s t) (\<lambda>(_, t'). Inr t')) names t1 = Inr t'" by auto
  show ?case
  proof (cases "s = n")
    case True
    with t1 show ?thesis by (blast intro: getpos_le add_all_le add_getpos)
  next
    case False
    with Cons t1(2) show ?thesis by auto
  qed
qed

lemma add_all_accepts:
  "accepts t \<Longrightarrow> \<exists>t'. rfold (\<lambda>s t. rbind (add s t) (\<lambda>(_, t'). Inr t')) names t = Inr t' \<and> accepts t'"
proof (induction names arbitrary: t)
  case Nil
  then show ?case by simp
next
  case (Cons s names)
  from add_accepts [OF Cons.prems, of s] obtain p t1 where "add s t = Inr (p, t1)" "accepts t1" by blast
  with Cons.IH [of t1] show ?case by simp
qed

text \<open>Names that are in the table stay there while other names are added.\<close>

lemma getpos_add: "getpos s t = Inr p \<Longrightarrow> add s' t = Inr (q, t') \<Longrightarrow> getpos s t' = Inr p"
  by (blast intro: getpos_le add_le)

end

interpretation strtab: string_table StrtabBuilder_Add StrtabBuilder_GetPos strtab_le
  "\<lambda>st. \<not> sb_is_freezed st"
proof unfold_locales
  fix t :: StrtabBuilder and s
  assume "\<not> sb_is_freezed t"
  then show "\<exists>p t'. StrtabBuilder_Add s t = Inr (p, t') \<and> \<not> sb_is_freezed t'"
    by (auto simp: StrtabBuilder_Add_def Let_def split: option.splits)
qed (auto intro: strtab_le_trans Add_le Add_GetPos GetPos_le)

end
