(* ===== verification/Version_Builder.thy ===== *)
theory Version_Builder
  imports Strtab Hash
begin

text \<open>
  \<^verbatim>\<open>version_builder.h\<close> and \<^verbatim>\<open>version_builder.cc\<close>: the version numbers of the output's symbols
  (\<^verbatim>\<open>.gnu.version\<close>) and the needed versions (\<^verbatim>\<open>.gnu.version_r\<close>). The nested \<^verbatim>\<open>std::map\<close> is an ordered
  association list of ordered association lists, since \<^verbatim>\<open>EmitVerneed\<close> walks it in order.
\<close>

section \<open>The class\<close>

record VersionBuilder =
  vb_vernum :: nat
  vb_data :: "(string \<times> (string \<times> nat) list) list"
  vb_vers :: "u16 list"
  vb_soname_to_filename :: "string \<rightharpoonup> string"

definition VersionBuilder_new :: VersionBuilder where
  "VersionBuilder_new = \<lparr>vb_vernum = 2, vb_data = [], vb_vers = [], vb_soname_to_filename = Map.empty\<rparr>"

definition VersionBuilder_SetSonameToFilename :: "(string \<rightharpoonup> string) \<Rightarrow> VersionBuilder \<Rightarrow> VersionBuilder" where
  "VersionBuilder_SetSonameToFilename m vb = vb\<lparr>vb_soname_to_filename := m\<rparr>"

text \<open>\<^verbatim>\<open>data[filename][version]\<close>, where both keys exist.\<close>

definition version_number :: "VersionBuilder \<Rightarrow> string \<Rightarrow> string \<Rightarrow> nat option" where
  "version_number vb filename version = Option.bind (map_of (vb_data vb) filename) (\<lambda>ma. map_of ma version)"

text \<open>The part of \<^verbatim>\<open>Add\<close> that gives a needed version its number.\<close>

definition VersionBuilder_register :: "string \<Rightarrow> string \<Rightarrow> VersionBuilder \<Rightarrow> VersionBuilder" where
  "VersionBuilder_register filename version vb =
     (case map_of (vb_data vb) filename of
        Some ma \<Rightarrow>
          (case map_of ma version of
             Some _ \<Rightarrow> vb
           | None \<Rightarrow>
               vb\<lparr>vb_data := omap_put filename (omap_put version (vb_vernum vb) ma) (vb_data vb),
                  vb_vernum := vb_vernum vb + 1\<rparr>)
      | None \<Rightarrow>
          vb\<lparr>vb_data := omap_put filename [(version, vb_vernum vb)] (vb_data vb),
             vb_vernum := vb_vernum vb + 1\<rparr>)"

definition infer_versym :: "u16 \<Rightarrow> u8 \<Rightarrow> u16" where
  "infer_versym versym stinfo =
     (if versym = NO_VERSION_INFO
      then (if ELF_ST_BIND stinfo \<noteq> STB_LOCAL then VER_NDX_GLOBAL else VER_NDX_LOCAL)
      else versym)"

definition VersionBuilder_Add ::
  "u16 \<Rightarrow> string \<Rightarrow> string \<Rightarrow> u8 \<Rightarrow> VersionBuilder \<Rightarrow> StrtabBuilder \<Rightarrow> (VersionBuilder \<times> StrtabBuilder) res"
where
  "VersionBuilder_Add versym0 soname version stinfo vb strtab =
     (let versym = infer_versym versym0 stinfo
      in if is_special_ver_ndx versym then
           rbind (CHECK (soname = [] \<and> version = [])) (\<lambda>_.
           Inr (vb\<lparr>vb_vers := vb_vers vb @ [versym]\<rparr>, strtab))
         else if soname = [] \<or> version = [] then
           \<comment> \<open>the message of the failed \<^verbatim>\<open>CHECK\<close> names \<^verbatim>\<open>versym\<close>, which is fatal itself\<close>
           rbind (special_ver_ndx_to_str versym) (\<lambda>_. Inl CHECK_failed)
         else
           (case vb_soname_to_filename vb soname of
              None \<Rightarrow> Inl CHECK_failed
            | Some filename \<Rightarrow>
                rbind (StrtabBuilder_Add filename strtab) (\<lambda>(_, strtab).
                rbind (StrtabBuilder_Add version strtab) (\<lambda>(_, strtab).
                let vb = VersionBuilder_register filename version vb
                in Inr (vb\<lparr>vb_vers := vb_vers vb
                             @ [of_nat (the (version_number vb filename version))]\<rparr>, strtab)))))"

definition VersionBuilder_SizeVersym :: "VersionBuilder \<Rightarrow> nat" where
  "VersionBuilder_SizeVersym vb = (if length (vb_data vb) > 0 then length (vb_vers vb) * 2 else 0)"

fun SizeVerneed_loop :: "(string \<times> (string \<times> nat) list) list \<Rightarrow> nat \<Rightarrow> nat" where
  "SizeVerneed_loop [] s = s"
| "SizeVerneed_loop ((_, m1) # data) s = SizeVerneed_loop data (foldl (\<lambda>s _. s + 16) (s + 16) m1)"

definition VersionBuilder_SizeVerneed :: "VersionBuilder \<Rightarrow> nat" where
  "VersionBuilder_SizeVerneed vb = SizeVerneed_loop (vb_data vb) 0"

definition VersionBuilder_NumVerneed :: "VersionBuilder \<Rightarrow> nat" where
  "VersionBuilder_NumVerneed vb = length (vb_data vb)"

definition VersionBuilder_EmitVersym :: "VersionBuilder \<Rightarrow> stream \<Rightarrow> stream res" where
  "VersionBuilder_EmitVersym vb fp =
     (if length (vb_data vb) > 0 then rfold (\<lambda>v fp. WriteBuf (le_bytes 2 v) fp) (vb_vers vb) fp else Inr fp)"

fun EmitVernaux_loop ::
  "StrtabBuilder \<Rightarrow> nat \<Rightarrow> nat \<Rightarrow> (string \<times> nat) list \<Rightarrow> stream \<Rightarrow> stream res" where
  "EmitVernaux_loop strtab cnt n [] fp = Inr fp"
| "EmitVernaux_loop strtab cnt n ((version, num) # m) fp =
     (let n = n + 1
      in rbind (StrtabBuilder_GetPos version strtab) (\<lambda>pos.
         let a = \<lparr>vna_hash = CalcHash version, vna_flags = VER_FLG_WEAK, vna_other = of_nat num,
                  vna_name = ucast pos, vna_next = (if n = cnt then 0 else 16)\<rparr>
         in rbind (WriteBuf (enc_Elf_Vernaux a) fp) (EmitVernaux_loop strtab cnt n m)))"

fun EmitVerneed_loop ::
  "StrtabBuilder \<Rightarrow> nat \<Rightarrow> nat \<Rightarrow> (string \<times> (string \<times> nat) list) list \<Rightarrow> stream \<Rightarrow> stream res" where
  "EmitVerneed_loop strtab cnt n [] fp = Inr fp"
| "EmitVerneed_loop strtab cnt n ((filename, m) # data) fp =
     (let n = n + 1
      in rbind (StrtabBuilder_GetPos filename strtab) (\<lambda>pos.
         let v = \<lparr>vn_version = VER_NEED_CURRENT, vn_cnt = of_nat (length m), vn_file = ucast pos,
                  vn_aux = 16, vn_next = (if n = cnt then 0 else 16 + of_nat (length m) * 16)\<rparr>
         in rbind (WriteBuf (enc_Elf_Verneed v) fp) (\<lambda>fp.
            rbind (EmitVernaux_loop strtab (length m) 0 m fp) (EmitVerneed_loop strtab cnt n data))))"

definition VersionBuilder_EmitVerneed :: "StrtabBuilder \<Rightarrow> VersionBuilder \<Rightarrow> stream \<Rightarrow> stream res" where
  "VersionBuilder_EmitVerneed strtab vb fp =
     EmitVerneed_loop strtab (length (vb_data vb)) 0 (vb_data vb) fp"

section \<open>Invariant\<close>

text \<open>
  Both levels of the map are ordered maps, no inner map is empty, and the numbers identify a pair
  of file and version: they are pairwise different and lie between 2 and the next free number.
\<close>

definition version_wf :: "VersionBuilder \<Rightarrow> bool" where
  "version_wf vb \<longleftrightarrow> omap_wf (vb_data vb) \<and> (\<forall>(f, m) \<in> set (vb_data vb). omap_wf m \<and> m \<noteq> [])
     \<and> 2 \<le> vb_vernum vb
     \<and> (\<forall>f v n. version_number vb f v = Some n \<longrightarrow> 2 \<le> n \<and> n < vb_vernum vb)
     \<and> (\<forall>f v f' v' n. version_number vb f v = Some n \<and> version_number vb f' v' = Some n \<longrightarrow> f = f' \<and> v = v')"

lemma version_wf_new [wf_intros]: "version_wf VersionBuilder_new"
  by (simp add: version_wf_def VersionBuilder_new_def version_number_def)

lemma set_omap_put_subset: "set (omap_put k v m) \<subseteq> insert (k, v) (set m)"
  by (induction k v m rule: omap_put.induct) auto

text \<open>What registering a pair changes: a new pair gets the next number, a known one nothing.\<close>

lemma register_known:
  "version_number vb f v = Some n \<Longrightarrow> VersionBuilder_register f v vb = vb"
  by (auto simp: VersionBuilder_register_def version_number_def bind_eq_Some_conv)

lemma register_new:
  assumes "version_number vb f v = None"
  shows "VersionBuilder_register f v vb =
    vb\<lparr>vb_data := omap_put f (omap_put v (vb_vernum vb) (case map_of (vb_data vb) f of None \<Rightarrow> [] | Some ma \<Rightarrow> ma))
                    (vb_data vb),
       vb_vernum := vb_vernum vb + 1\<rparr>"
  using assms by (auto simp: VersionBuilder_register_def version_number_def split: option.splits)

lemma version_number_register:
  assumes "version_wf vb"
  shows "version_number (VersionBuilder_register f v vb) f' v' =
    (if f' = f \<and> v' = v \<and> version_number vb f v = None then Some (vb_vernum vb) else version_number vb f' v')"
proof (cases "version_number vb f v")
  case (Some n)
  then show ?thesis by (auto simp: register_known)
next
  case None
  let ?ma = "case map_of (vb_data vb) f of None \<Rightarrow> [] | Some ma \<Rightarrow> ma"
  from assms have wf: "omap_wf (vb_data vb)" by (simp add: version_wf_def)
  have inner: "omap_wf ?ma"
    using assms by (auto simp: version_wf_def dest!: map_of_SomeD split: option.splits)
  have same: "map_of ?ma v' = version_number vb f v'"
    by (simp add: version_number_def split: option.splits)
  show ?thesis
    using None same
    by (simp add: register_new version_number_def map_of_omap_put_apply [OF wf] map_of_omap_put_apply [OF inner])
qed

lemma register_vernum:
  "vb_vernum (VersionBuilder_register f v vb) =
    (if version_number vb f v = None then vb_vernum vb + 1 else vb_vernum vb)"
  by (cases "version_number vb f v") (auto simp: register_known register_new)

lemma register_data_wf:
  assumes "version_wf vb"
  shows "omap_wf (vb_data (VersionBuilder_register f v vb))
    \<and> (\<forall>(f, m) \<in> set (vb_data (VersionBuilder_register f v vb)). omap_wf m \<and> m \<noteq> [])"
proof (cases "version_number vb f v")
  case (Some n)
  with assms show ?thesis by (simp add: register_known version_wf_def)
next
  case None
  let ?ma = "case map_of (vb_data vb) f of None \<Rightarrow> [] | Some ma \<Rightarrow> ma"
  have old: "omap_wf (vb_data vb)" "\<And>g m. (g, m) \<in> set (vb_data vb) \<Longrightarrow> omap_wf m \<and> m \<noteq> []"
    using assms by (auto simp: version_wf_def)
  have ma: "omap_wf ?ma" using old(2) by (auto dest!: map_of_SomeD split: option.splits)
  from ma have new: "omap_wf (omap_put v (vb_vernum vb) ?ma) \<and> omap_put v (vb_vernum vb) ?ma \<noteq> []"
    by (simp add: omap_put_wf)
  have "omap_wf m \<and> m \<noteq> []"
    if "(g, m) \<in> set (omap_put f (omap_put v (vb_vernum vb) ?ma) (vb_data vb))" for g m
    using subsetD [OF set_omap_put_subset that] new old(2) by auto
  then show ?thesis using None old(1) by (auto simp: register_new omap_put_wf)
qed

lemma register_wf [wf_intros]:
  assumes "version_wf vb"
  shows "version_wf (VersionBuilder_register f v vb)"
proof -
  note number = version_number_register [OF assms, of f v] and vernum = register_vernum [of f v vb]
  have old: "2 \<le> vb_vernum vb" "\<And>f v n. version_number vb f v = Some n \<Longrightarrow> 2 \<le> n \<and> n < vb_vernum vb"
    "\<And>f v f' v' n. version_number vb f v = Some n \<Longrightarrow> version_number vb f' v' = Some n \<Longrightarrow> f = f' \<and> v = v'"
    using assms unfolding version_wf_def by blast+
  have range: "2 \<le> n \<and> n < vb_vernum (VersionBuilder_register f v vb)"
    if "version_number (VersionBuilder_register f v vb) f' v' = Some n" for f' v' n
    using that old(1) old(2) [of f' v' n] by (auto simp: number vernum split: if_splits)
  have inj: "f1 = f2 \<and> v1 = v2"
    if "version_number (VersionBuilder_register f v vb) f1 v1 = Some n"
      "version_number (VersionBuilder_register f v vb) f2 v2 = Some n" for f1 v1 f2 v2 n
    using that old(2) [of f1 v1 n] old(2) [of f2 v2 n] old(3) [of f1 v1 n f2 v2]
    by (auto simp: number split: if_splits)
  have low: "2 \<le> vb_vernum (VersionBuilder_register f v vb)" using old(1) by (simp add: vernum)
  show ?thesis unfolding version_wf_def
    by (intro conjI allI impI register_data_wf [OF assms, THEN conjunct1]
        register_data_wf [OF assms, THEN conjunct2])
      (rule low | erule range [THEN conjunct1] | erule range [THEN conjunct2]
        | erule conjE, erule (1) inj [THEN conjunct1] | erule conjE, erule (1) inj [THEN conjunct2])+
qed

section \<open>Add\<close>

lemma Add_special:
  assumes "is_special_ver_ndx (infer_versym versym info)"
  shows "VersionBuilder_Add versym soname version info vb strtab = Inr (vb', strtab') \<longleftrightarrow>
    soname = [] \<and> version = [] \<and> strtab' = strtab
      \<and> vb' = vb\<lparr>vb_vers := vb_vers vb @ [infer_versym versym info]\<rparr>"
  using assms by (auto simp: VersionBuilder_Add_def Let_def)

lemma Add_versioned:
  assumes "\<not> is_special_ver_ndx (infer_versym versym info)"
    and "VersionBuilder_Add versym soname version info vb strtab = Inr (vb', strtab')"
  obtains filename p1 strtab1 p2 where "soname \<noteq> []" "version \<noteq> []"
    "vb_soname_to_filename vb soname = Some filename"
    "StrtabBuilder_Add filename strtab = Inr (p1, strtab1)"
    "StrtabBuilder_Add version strtab1 = Inr (p2, strtab')"
    "vb' = VersionBuilder_register filename version vb
       \<lparr>vb_vers := vb_vers vb @ [of_nat (the (version_number (VersionBuilder_register filename version vb) filename version))]\<rparr>"
proof -
  have "vb_vers (VersionBuilder_register f v vb) = vb_vers vb" for f v
    by (simp add: VersionBuilder_register_def split: option.splits)
  with that show thesis
    using assms by (auto simp: VersionBuilder_Add_def Let_def split: if_splits option.splits)
qed

lemma version_number_vers [simp]: "version_number (vb\<lparr>vb_vers := vs\<rparr>) = version_number vb"
  by (simp add: version_number_def fun_eq_iff)

lemma version_wf_vers [simp]: "version_wf (vb\<lparr>vb_vers := vs\<rparr>) = version_wf vb"
  by (simp add: version_wf_def)

lemma VersionBuilder_Add_wf [wf_intros]:
  assumes "VersionBuilder_Add versym soname version info vb strtab = Inr (vb', strtab')" and "version_wf vb"
  shows "version_wf vb'"
  using assms
  by (cases "is_special_ver_ndx (infer_versym versym info)")
    (auto simp: Add_special register_wf elim!: Add_versioned)

lemma VersionBuilder_Add_le:
  assumes "VersionBuilder_Add versym soname version info vb strtab = Inr (vb', strtab')"
  shows "strtab_le strtab strtab'"
  using assms
  by (cases "is_special_ver_ndx (infer_versym versym info)")
    (auto simp: Add_special elim!: Add_versioned intro: strtab_le_trans Add_le)

lemma VersionBuilder_Add_vers:
  assumes "VersionBuilder_Add versym soname version info vb strtab = Inr (vb', strtab')"
  shows "length (vb_vers vb') = length (vb_vers vb) + 1"
  using assms
  by (cases "is_special_ver_ndx (infer_versym versym info)") (auto simp: Add_special elim!: Add_versioned)



text \<open>What \<^verbatim>\<open>Add\<close> accepts.\<close>

definition version_ok :: "(string \<rightharpoonup> string) \<Rightarrow> u16 \<Rightarrow> string \<Rightarrow> string \<Rightarrow> u8 \<Rightarrow> bool" where
  "version_ok filenames versym soname version info \<longleftrightarrow>
    (if is_special_ver_ndx (infer_versym versym info) then soname = [] \<and> version = []
     else soname \<noteq> [] \<and> version \<noteq> [] \<and> filenames soname \<noteq> None)"

lemma VersionBuilder_Add_filenames:
  assumes "VersionBuilder_Add versym soname version info vb strtab = Inr (vb', strtab')"
  shows "vb_soname_to_filename vb' = vb_soname_to_filename vb"
proof -
  have "vb_soname_to_filename (VersionBuilder_register f v vb) = vb_soname_to_filename vb" for f v
    by (simp add: VersionBuilder_register_def split: option.splits)
  with assms show ?thesis
    by (cases "is_special_ver_ndx (infer_versym versym info)") (auto simp: Add_special elim!: Add_versioned)
qed

lemma VersionBuilder_Add_okD:
  assumes "VersionBuilder_Add versym soname version info vb strtab = Inr (vb', strtab')"
  shows "version_ok (vb_soname_to_filename vb) versym soname version info"
proof (cases "is_special_ver_ndx (infer_versym versym info)")
  case True
  with assms show ?thesis by (simp add: Add_special version_ok_def)
next
  case False
  from False assms show ?thesis by (rule Add_versioned) (simp add: version_ok_def False)
qed

lemma VersionBuilder_Add_ok:
  assumes "\<not> sb_is_freezed strtab" and "version_ok (vb_soname_to_filename vb) versym soname version info"
  shows "\<exists>vb' strtab'. VersionBuilder_Add versym soname version info vb strtab = Inr (vb', strtab')
    \<and> \<not> sb_is_freezed strtab'"
proof (cases "is_special_ver_ndx (infer_versym versym info)")
  case True
  with assms show ?thesis by (simp add: Add_special version_ok_def)
next
  case False
  with assms(2) obtain filename where f: "soname \<noteq> []" "version \<noteq> []" "vb_soname_to_filename vb soname = Some filename"
    by (auto simp: version_ok_def)
  from strtab.add_accepts [OF assms(1)] obtain p1 s1 where 1: "StrtabBuilder_Add filename strtab = Inr (p1, s1)"
    "\<not> sb_is_freezed s1" by blast
  from strtab.add_accepts [OF 1(2)] obtain p2 s2 where "StrtabBuilder_Add version s1 = Inr (p2, s2)"
    "\<not> sb_is_freezed s2" by blast
  with 1 f False show ?thesis by (simp add: VersionBuilder_Add_def Let_def)
qed

text \<open>
  the failures of \<^verbatim>\<open>Add\<close>. A symbol of special version (or of none) must not come with a soname
  or a version; any other must come with both, from a library whose soname is known.
\<close>
theorem VersionBuilder_Add_errors:
  assumes "\<not> sb_is_freezed strtab"
  shows "(\<exists>vb' strtab'. VersionBuilder_Add versym soname version info vb strtab = Inr (vb', strtab')) \<longleftrightarrow>
    (if is_special_ver_ndx (infer_versym versym info) then soname = [] \<and> version = []
     else soname \<noteq> [] \<and> version \<noteq> [] \<and> vb_soname_to_filename vb soname \<noteq> None)"
  using VersionBuilder_Add_ok [OF assms] VersionBuilder_Add_okD [of versym soname version info vb strtab]
  unfolding version_ok_def by blast

theorem VersionBuilder_Add_errors_witness:
  "\<not> (\<exists>vb' strtab'. VersionBuilder_Add 1 ''libc.so.6'' [] 0 VersionBuilder_new (StrtabBuilder_new Map.empty)
      = Inr (vb', strtab'))"
proof -
  have h: "\<not> sb_is_freezed (StrtabBuilder_new Map.empty)" by (simp add: StrtabBuilder_new_def)
  show ?thesis
    using VersionBuilder_Add_errors [OF h, of 1 "''libc.so.6''" "[]" 0 VersionBuilder_new]
    by (simp add: is_special_ver_ndx_def infer_versym_def)
qed

section \<open>Emission\<close>

lemma foldl_const: "foldl (\<lambda>s _. s + c) s xs = s + c * length (xs :: 'b list)" for c s :: nat
  by (induction xs arbitrary: s) auto

lemma SizeVerneed_loop_sum: "SizeVerneed_loop data s = s + (\<Sum>(f, m)\<leftarrow>data. 16 + 16 * length m)"
  by (induction data s rule: SizeVerneed_loop.induct) (auto simp: foldl_const)

text \<open>Every name the emission will look up is in the string table.\<close>

definition version_names_in :: "VersionBuilder \<Rightarrow> StrtabBuilder \<Rightarrow> bool" where
  "version_names_in vb strtab \<longleftrightarrow> (\<forall>f v n. version_number vb f v = Some n \<longrightarrow>
     (\<exists>p. StrtabBuilder_GetPos f strtab = Inr p) \<and> (\<exists>p. StrtabBuilder_GetPos v strtab = Inr p))"

lemma version_names_in_new [wf_intros]: "version_names_in VersionBuilder_new strtab"
  by (simp add: version_names_in_def version_number_def VersionBuilder_new_def)

lemma version_names_in_le: "version_names_in vb st \<Longrightarrow> strtab_le st st' \<Longrightarrow> version_names_in vb st'"
  unfolding version_names_in_def by (meson strtab.getpos_le)

lemma version_names_in_Add [wf_intros]:
  assumes "VersionBuilder_Add versym soname version info vb strtab = Inr (vb', strtab')"
    and "version_wf vb" and "version_names_in vb strtab"
  shows "version_names_in vb' strtab'"
proof (cases "is_special_ver_ndx (infer_versym versym info)")
  case True
  with assms show ?thesis by (auto simp: Add_special version_names_in_def)
next
  case False
  from False assms(1) obtain filename p1 s1 p2 where add: "StrtabBuilder_Add filename strtab = Inr (p1, s1)"
    "StrtabBuilder_Add version s1 = Inr (p2, strtab')"
    and vb': "version_number vb' = version_number (VersionBuilder_register filename version vb)"
    by (rule Add_versioned) simp
  have "StrtabBuilder_GetPos filename strtab' = Inr p1" "StrtabBuilder_GetPos version strtab' = Inr p2"
    using add by (blast intro: strtab.add_getpos strtab.getpos_add)+
  moreover have "version_names_in vb strtab'"
    using assms(1,3) by (blast intro: version_names_in_le VersionBuilder_Add_le)
  ultimately show ?thesis
    using version_number_register [OF assms(2), of filename version]
    by (auto simp: version_names_in_def vb' split: if_splits)
qed

lemma version_names_data:
  assumes "version_wf vb" and "version_names_in vb strtab" and "(f, m) \<in> set (vb_data vb)"
  shows "(\<exists>p. StrtabBuilder_GetPos f strtab = Inr p)
    \<and> (\<forall>(v, n) \<in> set m. \<exists>p. StrtabBuilder_GetPos v strtab = Inr p)"
proof -
  from assms have wf: "omap_wf (vb_data vb)" "omap_wf m" "m \<noteq> []"
    by (auto simp: version_wf_def)
  then have f: "map_of (vb_data vb) f = Some m"
    using assms(3) by (simp add: omap_wf_distinct)
  have num: "version_number vb f v = Some n" if "(v, n) \<in> set m" for v n
    using that f wf by (simp add: version_number_def omap_wf_distinct)
  from wf(3) obtain v n where "(v, n) \<in> set m" by (cases m) auto
  with num assms(2) show ?thesis unfolding version_names_in_def by blast
qed

lemma EmitVernaux_loop_length:
  assumes "\<forall>(v, n) \<in> set m. \<exists>p. StrtabBuilder_GetPos v strtab = Inr p"
  shows "\<exists>bs. EmitVernaux_loop strtab cnt n m fp = Inr (fp @ bs) \<and> length bs = 16 * length m"
  using assms
proof (induction strtab cnt n m fp rule: EmitVernaux_loop.induct)
  case (1 strtab cnt n fp)
  then show ?case by simp
next
  case (2 strtab cnt n version num m fp)
  then obtain p where p: "StrtabBuilder_GetPos version strtab = Inr p" by auto
  let ?a = "\<lparr>vna_hash = CalcHash version, vna_flags = VER_FLG_WEAK, vna_other = of_nat num,
     vna_name = ucast p, vna_next = (if n + 1 = cnt then 0 else 16)\<rparr>"
  from 2 p obtain bs where "EmitVernaux_loop strtab cnt (n + 1) m (fp @ enc_Elf_Vernaux ?a)
      = Inr ((fp @ enc_Elf_Vernaux ?a) @ bs)" "length bs = 16 * length m"
    by (fastforce simp: WriteBuf_def Let_def)
  with p show ?case by (simp add: WriteBuf_def vernaux.enc_length Let_def)
qed

lemma EmitVerneed_loop_length:
  assumes "\<forall>(f, m) \<in> set data. (\<exists>p. StrtabBuilder_GetPos f strtab = Inr p)
    \<and> (\<forall>(v, n) \<in> set m. \<exists>p. StrtabBuilder_GetPos v strtab = Inr p)"
  shows "\<exists>bs. EmitVerneed_loop strtab cnt n data fp = Inr (fp @ bs)
    \<and> length bs = (\<Sum>(f, m)\<leftarrow>data. 16 + 16 * length m)"
  using assms
proof (induction data arbitrary: n fp)
  case Nil
  then show ?case by simp
next
  case (Cons fm data)
  obtain f m where fm: "fm = (f, m)" by fastforce
  with Cons.prems obtain p where p: "StrtabBuilder_GetPos f strtab = Inr p"
    and m: "\<forall>(v, n) \<in> set m. \<exists>p. StrtabBuilder_GetPos v strtab = Inr p" by auto
  define v where "v = \<lparr>vn_version = VER_NEED_CURRENT, vn_cnt = of_nat (length m), vn_file = ucast p,
     vn_aux = 16, vn_next = (if n + 1 = cnt then 0 else 16 + of_nat (length m) * 16)\<rparr>"
  let ?fp1 = "fp @ enc_Elf_Verneed v"
  obtain b1 where b1: "EmitVernaux_loop strtab (length m) 0 m ?fp1 = Inr (?fp1 @ b1)" "length b1 = 16 * length m"
    using EmitVernaux_loop_length [OF m, of "length m" 0 ?fp1] by blast
  have rest: "\<forall>(f, m) \<in> set data. (\<exists>p. StrtabBuilder_GetPos f strtab = Inr p)
      \<and> (\<forall>(v, n) \<in> set m. \<exists>p. StrtabBuilder_GetPos v strtab = Inr p)" using Cons.prems by simp
  obtain b2 where b2: "EmitVerneed_loop strtab cnt (n + 1) data (?fp1 @ b1) = Inr ((?fp1 @ b1) @ b2)"
    "length b2 = (\<Sum>(f, m)\<leftarrow>data. 16 + 16 * length m)"
    using Cons.IH [OF rest, of "n + 1" "?fp1 @ b1"] by blast
  have "EmitVerneed_loop strtab cnt n (fm # data) fp = Inr ((?fp1 @ b1) @ b2)"
    unfolding fm EmitVerneed_loop.simps Let_def p rbind.simps WriteBuf_def v_def [symmetric] b1(1) b2(1) ..
  then have "EmitVerneed_loop strtab cnt n (fm # data) fp = Inr (fp @ enc_Elf_Verneed v @ b1 @ b2)"
    by (simp only: append_assoc)
  moreover have "length (enc_Elf_Verneed v @ b1 @ b2) = (\<Sum>(f, m)\<leftarrow>fm # data. 16 + 16 * length m)"
    using b1(2) b2(2) fm by (simp add: verneed.enc_length)
  ultimately show ?case by blast
qed

lemma emit_sizes:
  assumes "version_wf vb" and "version_names_in vb strtab"
  shows "(\<exists>bs. VersionBuilder_EmitVersym vb fp = Inr (fp @ bs) \<and> length bs = VersionBuilder_SizeVersym vb)
    \<and> (\<exists>bs. VersionBuilder_EmitVerneed strtab vb fp = Inr (fp @ bs) \<and> length bs = VersionBuilder_SizeVerneed vb)"
proof
  have "length (concat (map (le_bytes 2) vs)) = length vs * 2" for vs :: "u16 list"
    by (induction vs) auto
  then show "\<exists>bs. VersionBuilder_EmitVersym vb fp = Inr (fp @ bs) \<and> length bs = VersionBuilder_SizeVersym vb"
    by (simp add: VersionBuilder_EmitVersym_def VersionBuilder_SizeVersym_def rfold_WriteBuf)
  have "\<forall>(f, m) \<in> set (vb_data vb). (\<exists>p. StrtabBuilder_GetPos f strtab = Inr p)
      \<and> (\<forall>(v, n) \<in> set m. \<exists>p. StrtabBuilder_GetPos v strtab = Inr p)"
    using version_names_data [OF assms] by blast
  from EmitVerneed_loop_length [OF this]
  show "\<exists>bs. VersionBuilder_EmitVerneed strtab vb fp = Inr (fp @ bs) \<and> length bs = VersionBuilder_SizeVerneed vb"
    by (simp add: VersionBuilder_EmitVerneed_def VersionBuilder_SizeVerneed_def SizeVerneed_loop_sum)
qed



end
