(* ===== verification/Symtab.thy ===== *)
theory Symtab
  imports Version_Builder
begin

text \<open>
  \<^verbatim>\<open>symtab_builder.h\<close> and \<^verbatim>\<open>symtab_builder.cc\<close>: resolution of symbols against the linked objects and
  the output's symbol table. The maps the code only looks up in are partial functions; the
  \<^verbatim>\<open>Elf_Sym*\<close> values are the symbols they point to.
\<close>

section \<open>The class\<close>

type_synonym sym_key = "string \<times> string \<times> string"

record SymbolEntry =
  sy_sym :: Elf_Sym
  sy_index :: nat

record SymtabBuilder =
  sm_src_syms :: "sym_key \<rightharpoonup> u16 \<times> Elf_Sym option"
  sm_src_fallback_syms :: "string \<rightharpoonup> u16 \<times> Elf_Sym option"
  sm_syms :: "sym_key \<rightharpoonup> SymbolEntry"
  sm_exposed_syms :: "Syminfo list"
  sm_symtab :: "Elf_Sym list"
  sm_public_syms :: "Syminfo list"
  sm_gnu_hash :: Elf_GnuHash

definition null_sym :: Elf_Sym where
  "null_sym = \<lparr>st_name = 0, st_info = 0, st_other = 0, st_shndx = 0, st_value = 0, st_size = 0\<rparr>"

definition si_key :: "Syminfo \<Rightarrow> sym_key" where
  "si_key s = (si_name s, si_soname s, si_version s)"

definition SymtabBuilder_AddSym :: "Syminfo \<Rightarrow> SymtabBuilder \<Rightarrow> nat \<times> SymtabBuilder" where
  "SymtabBuilder_AddSym s sm =
     (length (sm_exposed_syms sm), sm\<lparr>sm_exposed_syms := sm_exposed_syms sm @ [s]\<rparr>)"

text \<open>\<^verbatim>\<open>CHECK(syms_.emplace(key, sym).second)\<close>: the key must be new.\<close>

definition SymtabBuilder_emplace :: "sym_key \<Rightarrow> SymbolEntry \<Rightarrow> SymtabBuilder \<Rightarrow> SymtabBuilder res" where
  "SymtabBuilder_emplace key e sm =
     rbind (CHECK (sm_syms sm key = None)) (\<lambda>_. Inr (sm\<lparr>sm_syms := (sm_syms sm)(key \<mapsto> e)\<rparr>))"

definition SymtabBuilder_new :: "SymtabBuilder res" where
  "SymtabBuilder_new =
     (let sm = \<lparr>sm_src_syms = Map.empty, sm_src_fallback_syms = Map.empty, sm_syms = Map.empty,
                sm_exposed_syms = [], sm_symtab = [], sm_public_syms = [], sm_gnu_hash = Elf_GnuHash_init\<rparr>;
          si = \<lparr>si_name = [], si_soname = [], si_version = [], si_versym = VER_NDX_LOCAL, si_sym = None\<rparr>;
          (_, sm) = SymtabBuilder_AddSym si sm
      in SymtabBuilder_emplace ([], [], []) \<lparr>sy_sym = null_sym, sy_index = 0\<rparr> sm)"

definition replaceable :: "(u16 \<times> Elf_Sym option) option \<Rightarrow> bool" where
  "replaceable found =
     (case found of
        None \<Rightarrow> True
      | Some (_, None) \<Rightarrow> True
      | Some (_, Some s) \<Rightarrow> \<not> IsDefined s)"

definition SetSrcSyms_step :: "Syminfo \<Rightarrow> SymtabBuilder \<Rightarrow> SymtabBuilder" where
  "SetSrcSyms_step s sm =
     (let sm = (if replaceable (sm_src_syms sm (si_key s))
                then sm\<lparr>sm_src_syms := (sm_src_syms sm)(si_key s \<mapsto> (si_versym s, si_sym s))\<rparr> else sm)
      in if si_versym s AND VERSYM_HIDDEN = 0 \<and> replaceable (sm_src_fallback_syms sm (si_name s))
         then sm\<lparr>sm_src_fallback_syms := (sm_src_fallback_syms sm)(si_name s \<mapsto> (si_versym s, si_sym s))\<rparr>
         else sm)"

definition SymtabBuilder_SetSrcSyms :: "Syminfo list \<Rightarrow> SymtabBuilder \<Rightarrow> SymtabBuilder" where
  "SymtabBuilder_SetSrcSyms syms sm = fold SetSrcSyms_step syms sm"

text \<open>The lookup that \<^verbatim>\<open>Resolve\<close> and \<^verbatim>\<open>ResolveCopy\<close> share: version number and symbol, or \<^verbatim>\<open>nullptr\<close>.\<close>

definition lookup_src :: "SymtabBuilder \<Rightarrow> string \<Rightarrow> string \<Rightarrow> string \<Rightarrow> u16 \<times> Elf_Sym option" where
  "lookup_src sm name soname version =
     (case sm_src_syms sm (name, soname, version) of
        Some r \<Rightarrow> r
      | None \<Rightarrow>
          (case sm_src_fallback_syms sm name of
             Some r \<Rightarrow> r
           | None \<Rightarrow> (0, None)))"

definition SymtabBuilder_expose ::
  "string \<Rightarrow> string \<Rightarrow> string \<Rightarrow> u16 \<Rightarrow> Elf_Sym \<Rightarrow> SymtabBuilder \<Rightarrow> (SymbolEntry \<times> SymtabBuilder) res" where
  "SymtabBuilder_expose name soname version versym esym sm =
     (let s = \<lparr>si_name = name, si_soname = soname, si_version = version, si_versym = versym, si_sym = None\<rparr>;
          (index, sm) = SymtabBuilder_AddSym s sm;
          e = \<lparr>sy_sym = esym, sy_index = index\<rparr>
      in rbind (SymtabBuilder_emplace (name, soname, version) e sm) (\<lambda>sm. Inr (e, sm)))"

definition SymtabBuilder_Resolve ::
  "string \<Rightarrow> string \<Rightarrow> string \<Rightarrow> SymtabBuilder \<Rightarrow> ((bool \<times> u64) \<times> SymtabBuilder) res" where
  "SymtabBuilder_Resolve name soname version sm =
     rbind
       (case sm_syms sm (name, soname, version) of
          Some e \<Rightarrow> Inr (e, sm)
        | None \<Rightarrow>
            (case lookup_src sm name soname version of
               (versym, Some s) \<Rightarrow>
                 if IsDefined s then Inr (\<lparr>sy_sym = s, sy_index = 0\<rparr>, sm)
                 else SymtabBuilder_expose name soname version versym s sm
             | (_, None) \<Rightarrow>
                 SymtabBuilder_expose name soname version VER_NDX_LOCAL null_sym sm))
       (\<lambda>(e, sm).
          Inr (if \<not> IsDefined (sy_sym e) then (False, of_nat (sy_index e))
               else (True, st_value (sy_sym e)), sm))"

definition SymtabBuilder_ResolveCopy ::
  "string \<Rightarrow> string \<Rightarrow> string \<Rightarrow> SymtabBuilder \<Rightarrow> (u64 \<times> SymtabBuilder) res" where
  "SymtabBuilder_ResolveCopy name soname version sm =
     rbind
       (case sm_syms sm (name, soname, version) of
          Some e \<Rightarrow> Inr (e, sm)
        | None \<Rightarrow>
            (case lookup_src sm name soname version of
               (versym, Some s) \<Rightarrow> SymtabBuilder_expose name soname version versym s sm
             | (_, None) \<Rightarrow> Inl CHECK_failed))
       (\<lambda>(e, sm). Inr (of_nat (sy_index e), sm))"

text \<open>One turn of the loop of \<^verbatim>\<open>Build\<close>.\<close>

definition shndx_in_output :: "u16 \<Rightarrow> u16" where
  "shndx_in_output i = (if i \<noteq> SHN_UNDEF \<and> i < SHN_LORESERVE then 1 else i)"

definition Build_step ::
  "(sym_key \<rightharpoonup> SymbolEntry) \<Rightarrow> Syminfo \<Rightarrow> Elf_Sym list \<times> StrtabBuilder \<times> VersionBuilder
    \<Rightarrow> (Elf_Sym list \<times> StrtabBuilder \<times> VersionBuilder) res" where
  "Build_step syms s = (\<lambda>(symtab, strtab, vb).
     (case syms (si_key s) of
        None \<Rightarrow> Inl CHECK_failed
      | Some found \<Rightarrow>
          rbind (StrtabBuilder_Add (si_name s) strtab) (\<lambda>(pos, strtab).
          let esym = (sy_sym found)\<lparr>st_name := ucast pos\<rparr>;
              esym = esym\<lparr>st_shndx := shndx_in_output (st_shndx esym)\<rparr>
          in rbind (VersionBuilder_Add (si_versym s) (si_soname s) (si_version s) (st_info esym) vb strtab)
               (\<lambda>(vb, strtab). Inr (symtab @ [esym], strtab, vb)))))"

definition SymtabBuilder_Build ::
  "StrtabBuilder \<Rightarrow> VersionBuilder \<Rightarrow> SymtabBuilder \<Rightarrow> (StrtabBuilder \<times> VersionBuilder \<times> SymtabBuilder) res" where
  "SymtabBuilder_Build strtab vb sm =
     rbind (rfold (Build_step (sm_syms sm)) (sm_exposed_syms sm) (sm_symtab sm, strtab, vb))
       (\<lambda>(symtab, strtab, vb). Inr (strtab, vb, sm\<lparr>sm_symtab := symtab\<rparr>))"

text \<open>One turn of the second loop of \<^verbatim>\<open>MergePublicSymbols\<close>; the string is added before the test.\<close>

definition Merge_step ::
  "Syminfo \<Rightarrow> sym_key list \<times> SymtabBuilder \<times> StrtabBuilder \<times> VersionBuilder
    \<Rightarrow> (sym_key list \<times> SymtabBuilder \<times> StrtabBuilder \<times> VersionBuilder) res" where
  "Merge_step p = (\<lambda>(seen, sm, strtab, vb).
     (case si_sym p of
        None \<Rightarrow> Inl Bad_access
      | Some psym \<Rightarrow>
          rbind (StrtabBuilder_Add (si_name p) strtab) (\<lambda>(pos, strtab).
          let esym = psym\<lparr>st_name := ucast pos, st_shndx := 1\<rparr>;
              s = p\<lparr>si_sym := Some esym\<rparr>
          in if si_key s \<in> set seen then Inr (seen, sm, strtab, vb)
             else
               rbind (VersionBuilder_Add (si_versym s) (si_soname s) (si_version s) (st_info esym) vb strtab)
                 (\<lambda>(vb, strtab).
                  Inr (si_key s # seen,
                       sm\<lparr>sm_exposed_syms := sm_exposed_syms sm @ [s], sm_symtab := sm_symtab sm @ [esym]\<rparr>,
                       strtab, vb)))))"

definition SymtabBuilder_MergePublicSymbols ::
  "StrtabBuilder \<Rightarrow> VersionBuilder \<Rightarrow> SymtabBuilder \<Rightarrow> (StrtabBuilder \<times> VersionBuilder \<times> SymtabBuilder) res" where
  "SymtabBuilder_MergePublicSymbols strtab vb sm =
     rbind (CHECK (int (length (sm_symtab sm)) \<le> 2 ^ 32 - 1)) (\<lambda>_.
     let sm = sm\<lparr>sm_gnu_hash := \<lparr>gh_nbuckets = 1, gh_symndx = 1, gh_maskwords = 1, gh_shift2 = 1\<rparr>\<rparr>
     in rbind (rfold (\<lambda>s seen. rbind (CHECK (si_key s \<notin> set seen)) (\<lambda>_. Inr (si_key s # seen)))
                 (sm_exposed_syms sm) []) (\<lambda>seen.
        rbind (rfold Merge_step (sm_public_syms sm) (seen, sm, strtab, vb)) (\<lambda>(_, sm, strtab, vb).
        Inr (strtab, vb, sm\<lparr>sm_public_syms := []\<rparr>))))"

definition SymtabBuilder_AddPublicSymbol :: "Syminfo \<Rightarrow> SymtabBuilder \<Rightarrow> SymtabBuilder" where
  "SymtabBuilder_AddPublicSymbol s sm = sm\<lparr>sm_public_syms := sm_public_syms sm @ [s]\<rparr>"

definition SymtabBuilder_size :: "SymtabBuilder \<Rightarrow> nat" where
  "SymtabBuilder_size sm = length (sm_symtab sm) + length (sm_public_syms sm)"

definition SymtabBuilder_GnuHashSize :: "SymtabBuilder \<Rightarrow> u64 res" where
  "SymtabBuilder_GnuHashSize sm =
     rbind (CHECK (sm_symtab sm \<noteq> [])) (\<lambda>_.
     rbind (CHECK (sm_public_syms sm = [])) (\<lambda>_.
     rbind (CHECK (gh_nbuckets (sm_gnu_hash sm) \<noteq> 0)) (\<lambda>_.
     Inr (4 * 4 + 8 + 4 * (1 + of_nat (length (sm_symtab sm)) - ucast (gh_symndx (sm_gnu_hash sm)))))))"

section \<open>Invariant of the resolution phase\<close>

text \<open>
  Every key of \<^verbatim>\<open>syms_\<close> is exposed once, at the index its entry holds, and nothing else is exposed.
\<close>

definition symtab_wf :: "SymtabBuilder \<Rightarrow> bool" where
  "symtab_wf sm \<longleftrightarrow> distinct (map si_key (sm_exposed_syms sm))
     \<and> (\<forall>k e. sm_syms sm k = Some e \<longrightarrow>
          sy_index e < length (sm_exposed_syms sm) \<and> si_key (sm_exposed_syms sm ! sy_index e) = k)
     \<and> (\<forall>s \<in> set (sm_exposed_syms sm). sm_syms sm (si_key s) \<noteq> None)"

lemma SymtabBuilder_new_wf [wf_intros]: "\<exists>sm. SymtabBuilder_new = Inr sm \<and> symtab_wf sm"
  by (simp add: SymtabBuilder_new_def SymtabBuilder_AddSym_def SymtabBuilder_emplace_def symtab_wf_def
      si_key_def Let_def)

lemma expose_new:
  assumes "sm_syms sm (name, soname, version) = None"
  shows "SymtabBuilder_expose name soname version versym esym sm =
    Inr (\<lparr>sy_sym = esym, sy_index = length (sm_exposed_syms sm)\<rparr>,
      sm\<lparr>sm_exposed_syms := sm_exposed_syms sm
            @ [\<lparr>si_name = name, si_soname = soname, si_version = version, si_versym = versym, si_sym = None\<rparr>],
         sm_syms := (sm_syms sm)((name, soname, version) \<mapsto>
            \<lparr>sy_sym = esym, sy_index = length (sm_exposed_syms sm)\<rparr>)\<rparr>)"
  using assms by (simp add: SymtabBuilder_expose_def SymtabBuilder_AddSym_def SymtabBuilder_emplace_def Let_def)

lemma expose_wf [wf_intros]:
  assumes "symtab_wf sm" and "sm_syms sm (name, soname, version) = None"
  shows "symtab_wf (sm\<lparr>sm_exposed_syms := sm_exposed_syms sm
            @ [\<lparr>si_name = name, si_soname = soname, si_version = version, si_versym = versym, si_sym = None\<rparr>],
         sm_syms := (sm_syms sm)((name, soname, version) \<mapsto>
            \<lparr>sy_sym = esym, sy_index = length (sm_exposed_syms sm)\<rparr>)\<rparr>)"
proof -
  have "si_key s \<noteq> (name, soname, version)" if "s \<in> set (sm_exposed_syms sm)" for s
    using that assms by (auto simp: symtab_wf_def)
  moreover have "sy_index e < length (sm_exposed_syms sm) \<and> si_key (sm_exposed_syms sm ! sy_index e) = k"
    if "sm_syms sm k = Some e" for k e
    using that assms(1) unfolding symtab_wf_def by blast
  ultimately show ?thesis
    using assms unfolding symtab_wf_def
    by (auto simp: nth_append si_key_def image_iff less_Suc_eq)
qed

section \<open>Resolution\<close>

text \<open>The symbol a key denotes: what was settled before, else the linked objects' symbol.\<close>

definition denoted :: "SymtabBuilder \<Rightarrow> string \<Rightarrow> string \<Rightarrow> string \<Rightarrow> Elf_Sym" where
  "denoted sm name soname version =
     (case sm_syms sm (name, soname, version) of
        Some e \<Rightarrow> sy_sym e
      | None \<Rightarrow> (case snd (lookup_src sm name soname version) of Some s \<Rightarrow> s | None \<Rightarrow> null_sym))"

lemma null_sym_undefined [simp]: "\<not> IsDefined null_sym"
  by (simp add: IsDefined_def null_sym_def)

text \<open>Both resolvers, as three cases.\<close>

lemma Resolve_cases:
  assumes "symtab_wf sm"
  obtains
    (known) e where "sm_syms sm (name, soname, version) = Some e"
      "SymtabBuilder_Resolve name soname version sm =
        Inr (if \<not> IsDefined (sy_sym e) then (False, of_nat (sy_index e)) else (True, st_value (sy_sym e)), sm)"
  | (defined) "sm_syms sm (name, soname, version) = None" "IsDefined (denoted sm name soname version)"
      "SymtabBuilder_Resolve name soname version sm = Inr ((True, st_value (denoted sm name soname version)), sm)"
  | (exposed) versym sm' where "sm_syms sm (name, soname, version) = None"
      "\<not> IsDefined (denoted sm name soname version)"
      "SymtabBuilder_expose name soname version versym (denoted sm name soname version) sm =
        Inr (\<lparr>sy_sym = denoted sm name soname version, sy_index = length (sm_exposed_syms sm)\<rparr>, sm')"
      "SymtabBuilder_Resolve name soname version sm = Inr ((False, of_nat (length (sm_exposed_syms sm))), sm')"
proof (cases "sm_syms sm (name, soname, version)")
  case (Some e)
  then show ?thesis by (intro known [OF Some]) (simp add: SymtabBuilder_Resolve_def)
next
  case None
  note new = expose_new [OF None]
  obtain versym r where r: "lookup_src sm name soname version = (versym, r)" by fastforce
  show ?thesis
  proof (cases r)
    case None': None
    then have d: "denoted sm name soname version = null_sym" using None r by (simp add: denoted_def)
    show ?thesis
      by (rule exposed [OF None])
        (use None None' r d in \<open>simp_all add: SymtabBuilder_Resolve_def new\<close>)
  next
    case (Some s)
    then have d: "denoted sm name soname version = s" using None r by (simp add: denoted_def)
    show ?thesis
    proof (cases "IsDefined s")
      case True
      then show ?thesis
        by (intro defined) (use None Some r d in \<open>simp_all add: SymtabBuilder_Resolve_def\<close>)
    next
      case False
      then show ?thesis
        by (intro exposed [OF None])
          (use None Some r d in \<open>simp_all add: SymtabBuilder_Resolve_def new\<close>)
    qed
  qed
qed

lemma symtab_wf_index:
  "symtab_wf sm \<Longrightarrow> sm_syms sm k = Some e \<Longrightarrow>
    sy_index e < length (sm_exposed_syms sm) \<and> si_key (sm_exposed_syms sm ! sy_index e) = k"
  unfolding symtab_wf_def by blast

lemma Resolve_result:
  assumes "symtab_wf sm"
  shows "\<exists>b v sm'. SymtabBuilder_Resolve name soname version sm = Inr ((b, v), sm') \<and> symtab_wf sm'
    \<and> prefix (sm_exposed_syms sm) (sm_exposed_syms sm')
    \<and> (b \<longleftrightarrow> IsDefined (denoted sm name soname version))
    \<and> (if b then v = st_value (denoted sm name soname version)
       else \<exists>i < length (sm_exposed_syms sm'). v = of_nat i
         \<and> si_key (sm_exposed_syms sm' ! i) = (name, soname, version))"
proof -
  let ?key = "(name, soname, version)"
  from assms show ?thesis
  proof (cases rule: Resolve_cases [where name = name and soname = soname and version = version])
    case (known e)
    let ?d = "denoted sm name soname version"
    have d: "?d = sy_sym e" using known(1) by (simp add: denoted_def)
    note ix = symtab_wf_index [OF assms known(1)]
    show ?thesis
      by (cases "IsDefined ?d")
        (use known(2) ix assms d in \<open>auto intro!: exI [of _ "sy_index e"]\<close>)
  next
    case defined
    with assms show ?thesis
      by (intro exI [of _ True] exI [of _ "st_value (denoted sm name soname version)"] exI [of _ sm]) simp
  next
    case (exposed versym sm')
    let ?i = "length (sm_exposed_syms sm)"
    from exposed(3) have sm': "sm' = sm\<lparr>sm_exposed_syms := sm_exposed_syms sm
            @ [\<lparr>si_name = name, si_soname = soname, si_version = version, si_versym = versym, si_sym = None\<rparr>],
         sm_syms := (sm_syms sm)(?key \<mapsto>
            \<lparr>sy_sym = denoted sm name soname version, sy_index = ?i\<rparr>)\<rparr>"
      by (simp add: expose_new [OF exposed(1)])
    have "symtab_wf sm'" unfolding sm' by (rule expose_wf [OF assms exposed(1)])
    moreover have "prefix (sm_exposed_syms sm) (sm_exposed_syms sm')" unfolding sm' by simp
    moreover have "\<exists>i < length (sm_exposed_syms sm'). (of_nat ?i :: u64) = of_nat i
         \<and> si_key (sm_exposed_syms sm' ! i) = ?key"
      unfolding sm' by (intro exI [of _ ?i]) (simp add: si_key_def)
    ultimately show ?thesis using exposed(2)
      by (intro exI [of _ False] exI [of _ "of_nat ?i"] exI [of _ sm'] conjI exposed(4)) simp_all
  qed
qed

text \<open>
  What the relocation of an object relies on: a request is answered with the value of a defined symbol or with an
  index of the table of exposed symbols, and the table only grows, so an index keeps its meaning.
\<close>

locale resolver =
  fixes resolve :: "string \<Rightarrow> string \<Rightarrow> string \<Rightarrow> 's \<Rightarrow> ((bool \<times> u64) \<times> 's) res"
    and wf :: "'s \<Rightarrow> bool" and meaning :: "'s \<Rightarrow> string \<Rightarrow> string \<Rightarrow> string \<Rightarrow> Elf_Sym"
    and exposed :: "'s \<Rightarrow> Syminfo list"
  assumes resolves: "wf st \<Longrightarrow> \<exists>b v st'. resolve name soname version st = Inr ((b, v), st') \<and> wf st'
      \<and> prefix (exposed st) (exposed st') \<and> (b \<longleftrightarrow> IsDefined (meaning st name soname version))
      \<and> (if b then v = st_value (meaning st name soname version)
         else \<exists>i < length (exposed st'). v = of_nat i \<and> si_key (exposed st' ! i) = (name, soname, version))"
begin

text \<open>The answer, read in the final table.\<close>

lemma resolve_final:
  assumes "wf st" and "resolve name soname version st = Inr ((b, v), st')" and "prefix (exposed st') final"
    and "length final < 2 ^ 32"
  shows "if b then IsDefined (meaning st name soname version) \<and> v = st_value (meaning st name soname version)
    else unat v < length final \<and> si_key (final ! unat v) = (name, soname, version)"
proof (cases b)
  case True
  then show ?thesis using resolves [OF assms(1), of name soname version] assms(2) by auto
next
  case False
  then obtain i where i: "i < length (exposed st')" "v = of_nat i" "si_key (exposed st' ! i) = (name, soname, version)"
    using resolves [OF assms(1), of name soname version] assms(2) by auto
  from assms(3) obtain rest where "final = exposed st' @ rest" by (auto simp: prefix_def)
  with i assms(4) have "i < length final" "unat v = i" "si_key (final ! i) = (name, soname, version)"
    by (auto simp: nth_append unat_of_nat)
  with False show ?thesis by simp
qed

lemma resolve_wf: "wf st \<Longrightarrow> resolve name soname version st = Inr (a, st') \<Longrightarrow> wf st' \<and> prefix (exposed st) (exposed st')"
  using resolves [of st name soname version] by auto

end

interpretation symbols: resolver SymtabBuilder_Resolve symtab_wf denoted sm_exposed_syms
  by unfold_locales (rule Resolve_result)

text \<open>
  C21: \<^verbatim>\<open>Resolve\<close> always returns. It answers with the value of the symbol the key denotes when that
  symbol is defined, and otherwise with an index into the output's symbol table at which exactly
  this key stands; symbols exposed earlier keep their place.
\<close>
theorem SymtabBuilder_Resolve_spec:
  assumes "symtab_wf sm"
  shows "\<exists>b v sm'. SymtabBuilder_Resolve name soname version sm = Inr ((b, v), sm') \<and> symtab_wf sm'
    \<and> prefix (sm_exposed_syms sm) (sm_exposed_syms sm')
    \<and> (b \<longleftrightarrow> IsDefined (denoted sm name soname version))
    \<and> (if b then v = st_value (denoted sm name soname version)
       else \<exists>i < length (sm_exposed_syms sm'). v = of_nat i
         \<and> si_key (sm_exposed_syms sm' ! i) = (name, soname, version))"
  using assms by (rule Resolve_result)

theorem SymtabBuilder_Resolve_spec_witness:
  "\<exists>sm0 v sm'. SymtabBuilder_new = Inr sm0
    \<and> SymtabBuilder_Resolve ''f'' [] [] sm0 = Inr ((False, v), sm') \<and> symtab_wf sm'"
proof -
  obtain sm0 where sm0: "SymtabBuilder_new = Inr sm0" "symtab_wf sm0" using SymtabBuilder_new_wf by blast
  then have "denoted sm0 ''f'' [] [] = null_sym"
    by (auto simp: SymtabBuilder_new_def SymtabBuilder_AddSym_def SymtabBuilder_emplace_def
        denoted_def lookup_src_def Let_def)
  with SymtabBuilder_Resolve_spec [OF sm0(2), of "''f''" "[]" "[]"] sm0(1) show ?thesis by auto
qed



section \<open>The choice among the linked objects' symbols\<close>

text \<open>
  Of the symbols that qualify, the first defined one is taken; when none is defined, the last.
\<close>

definition si_defined :: "Syminfo \<Rightarrow> bool" where
  "si_defined s = (case si_sym s of None \<Rightarrow> False | Some e \<Rightarrow> IsDefined e)"

definition preferred :: "Syminfo list \<Rightarrow> Syminfo option" where
  "preferred cands =
     (case find si_defined cands of
        Some s \<Rightarrow> Some s
      | None \<Rightarrow> if cands = [] then None else Some (last cands))"

definition si_entry :: "Syminfo \<Rightarrow> u16 \<times> Elf_Sym option" where
  "si_entry s = (si_versym s, si_sym s)"

lemma find_append: "find P (xs @ ys) = (case find P xs of None \<Rightarrow> find P ys | Some x \<Rightarrow> Some x)"
  by (induction xs) auto

lemma preferred_Nil [simp]: "preferred [] = None"
  by (simp add: preferred_def)

lemma replaceable_entry: "replaceable (Some (si_entry s)) \<longleftrightarrow> \<not> si_defined s"
  by (auto simp: replaceable_def si_entry_def si_defined_def split: option.splits)

lemma preferred_snoc:
  "map_option si_entry (preferred (cands @ [s])) =
    (if replaceable (map_option si_entry (preferred cands)) then Some (si_entry s)
     else map_option si_entry (preferred cands))"
proof (cases "find si_defined cands")
  case None
  then have "\<forall>x \<in> set cands. \<not> si_defined x" by (simp add: find_None_iff)
  then have "cands \<noteq> [] \<Longrightarrow> \<not> si_defined (last cands)" by simp
  with None show ?thesis
    by (auto simp: preferred_def find_append replaceable_entry replaceable_def [of None] split: option.splits)
next
  case (Some x)
  then have "si_defined x" by (auto simp: find_Some_iff)
  with Some show ?thesis by (simp add: preferred_def find_append replaceable_entry)
qed

lemma SetSrcSyms_step_maps:
  "sm_src_syms (SetSrcSyms_step s sm) k =
     (if k = si_key s \<and> replaceable (sm_src_syms sm k) then Some (si_entry s) else sm_src_syms sm k)"
  "sm_src_fallback_syms (SetSrcSyms_step s sm) n =
     (if n = si_name s \<and> si_versym s AND VERSYM_HIDDEN = 0 \<and> replaceable (sm_src_fallback_syms sm n)
      then Some (si_entry s) else sm_src_fallback_syms sm n)"
  by (auto simp: SetSrcSyms_step_def si_entry_def Let_def)

text \<open>
  C31: the tables \<^verbatim>\<open>Resolve\<close> consults. For an exact key it sees the first defined symbol of that key
  among all linked objects, else the last undefined one; for a bare name, the same among the
  symbols of that name whose version is not hidden.
\<close>
theorem SymtabBuilder_SetSrcSyms_spec:
  assumes "sm_src_syms sm = Map.empty" and "sm_src_fallback_syms sm = Map.empty"
  shows "sm_src_syms (SymtabBuilder_SetSrcSyms syms sm) k
      = map_option si_entry (preferred (filter (\<lambda>s. si_key s = k) syms))
    \<and> sm_src_fallback_syms (SymtabBuilder_SetSrcSyms syms sm) n
      = map_option si_entry (preferred (filter (\<lambda>s. si_name s = n \<and> si_versym s AND VERSYM_HIDDEN = 0) syms))"
proof (induction syms rule: rev_induct)
  case Nil
  then show ?case using assms by (simp add: SymtabBuilder_SetSrcSyms_def)
next
  case (snoc s syms)
  have "SymtabBuilder_SetSrcSyms (syms @ [s]) sm = SetSrcSyms_step s (SymtabBuilder_SetSrcSyms syms sm)"
    by (simp add: SymtabBuilder_SetSrcSyms_def)
  then show ?case using snoc [THEN conjunct1] snoc [THEN conjunct2]
    by (intro conjI; cases "k = si_key s"; cases "n = si_name s \<and> si_versym s AND VERSYM_HIDDEN = 0")
      (auto simp: SetSrcSyms_step_maps preferred_snoc)
qed

theorem SymtabBuilder_SetSrcSyms_spec_witness:
  "\<exists>sm0. SymtabBuilder_new = Inr sm0 \<and>
    sm_src_syms (SymtabBuilder_SetSrcSyms
      [\<lparr>si_name = ''f'', si_soname = [], si_version = [], si_versym = 1, si_sym = Some null_sym\<rparr>,
       \<lparr>si_name = ''f'', si_soname = [], si_version = [], si_versym = 1, si_sym = Some (null_sym\<lparr>st_value := 8, st_shndx := 3\<rparr>)\<rparr>,
       \<lparr>si_name = ''f'', si_soname = [], si_version = [], si_versym = 1, si_sym = Some (null_sym\<lparr>st_value := 9, st_shndx := 3\<rparr>)\<rparr>]
      sm0) (''f'', [], []) = Some (1, Some (null_sym\<lparr>st_value := 8, st_shndx := 3\<rparr>))"
proof -
  obtain sm0 where sm0: "SymtabBuilder_new = Inr sm0" using SymtabBuilder_new_wf by blast
  then have e: "sm_src_syms sm0 = Map.empty" "sm_src_fallback_syms sm0 = Map.empty"
    by (auto simp: SymtabBuilder_new_def SymtabBuilder_AddSym_def SymtabBuilder_emplace_def Let_def)
  show ?thesis
    by (rule exI [of _ sm0])
      (simp add: sm0 SymtabBuilder_SetSrcSyms_spec [OF e, THEN conjunct1] preferred_def si_key_def si_defined_def
        si_entry_def IsDefined_def IsTLS_def null_sym_def)
qed

section \<open>The output's symbol table\<close>

text \<open>What \<^verbatim>\<open>Build\<close> writes for an exposed symbol, in terms of the final string table.\<close>

definition output_entry :: "(sym_key \<rightharpoonup> SymbolEntry) \<Rightarrow> StrtabBuilder \<Rightarrow> Syminfo \<Rightarrow> Elf_Sym \<Rightarrow> bool" where
  "output_entry syms strtab s esym \<longleftrightarrow>
     (\<exists>found pos. syms (si_key s) = Some found \<and> StrtabBuilder_GetPos (si_name s) strtab = Inr pos
        \<and> esym = (sy_sym found)\<lparr>st_name := ucast pos, st_shndx := shndx_in_output (st_shndx (sy_sym found))\<rparr>)"

definition acceptable :: "SymtabBuilder \<Rightarrow> VersionBuilder \<Rightarrow> Syminfo \<Rightarrow> bool" where
  "acceptable sm vb s \<longleftrightarrow>
     (\<exists>found. sm_syms sm (si_key s) = Some found
        \<and> version_ok (vb_soname_to_filename vb) (si_versym s) (si_soname s) (si_version s) (st_info (sy_sym found)))"

lemma output_entry_le: "output_entry syms st s e \<Longrightarrow> strtab_le st st' \<Longrightarrow> output_entry syms st' s e"
  unfolding output_entry_def by (blast intro: strtab.getpos_le)

lemma Build_step_Inr:
  assumes "Build_step syms s (tab, strtab, vb) = Inr (tab', strtab', vb')"
  obtains found pos st1 where "syms (si_key s) = Some found" "StrtabBuilder_Add (si_name s) strtab = Inr (pos, st1)"
    "tab' = tab @ [(sy_sym found)\<lparr>st_name := ucast pos, st_shndx := shndx_in_output (st_shndx (sy_sym found))\<rparr>]"
    "VersionBuilder_Add (si_versym s) (si_soname s) (si_version s) (st_info (sy_sym found)) vb st1 = Inr (vb', strtab')"
  using assms by (auto simp: Build_step_def Let_def split: option.splits)

lemma Build_step_facts:
  assumes "Build_step syms s (tab, strtab, vb) = Inr (tab', strtab', vb')"
  shows "strtab_le strtab strtab' \<and> (\<exists>e. tab' = tab @ [e] \<and> output_entry syms strtab' s e)
    \<and> length (vb_vers vb') = length (vb_vers vb) + 1 \<and> vb_soname_to_filename vb' = vb_soname_to_filename vb"
  using assms
proof (rule Build_step_Inr)
  fix found pos st1
  assume f: "syms (si_key s) = Some found" and a: "StrtabBuilder_Add (si_name s) strtab = Inr (pos, st1)"
    and t: "tab' = tab @ [(sy_sym found)\<lparr>st_name := ucast pos, st_shndx := shndx_in_output (st_shndx (sy_sym found))\<rparr>]"
    and v: "VersionBuilder_Add (si_versym s) (si_soname s) (si_version s) (st_info (sy_sym found)) vb st1 = Inr (vb', strtab')"
  note le = VersionBuilder_Add_le [OF v]
  have "StrtabBuilder_GetPos (si_name s) strtab' = Inr pos"
    by (rule strtab.getpos_le [OF le strtab.add_getpos [OF a]])
  then have "output_entry syms strtab' s
      ((sy_sym found)\<lparr>st_name := ucast pos, st_shndx := shndx_in_output (st_shndx (sy_sym found))\<rparr>)"
    unfolding output_entry_def using f by blast
  with t strtab_le_trans [OF Add_le [OF a] le] VersionBuilder_Add_vers [OF v] VersionBuilder_Add_filenames [OF v]
  show ?thesis by blast
qed

lemma Build_loop_facts:
  assumes "rfold (Build_step syms) ss (tab, strtab, vb) = Inr (tab', strtab', vb')"
  shows "strtab_le strtab strtab' \<and> (\<exists>es. tab' = tab @ es \<and> list_all2 (output_entry syms strtab') ss es)
    \<and> length (vb_vers vb') = length (vb_vers vb) + length ss
    \<and> vb_soname_to_filename vb' = vb_soname_to_filename vb"
  using assms
proof (induction ss arbitrary: tab strtab vb)
  case Nil
  then show ?case by simp
next
  case (Cons s ss)
  from Cons.prems obtain tab1 st1 vb1 where 1: "Build_step syms s (tab, strtab, vb) = Inr (tab1, st1, vb1)"
    and 2: "rfold (Build_step syms) ss (tab1, st1, vb1) = Inr (tab', strtab', vb')" by auto
  from Build_step_facts [OF 1] obtain e where f: "strtab_le strtab st1" "tab1 = tab @ [e]" "output_entry syms st1 s e"
    "length (vb_vers vb1) = length (vb_vers vb) + 1" "vb_soname_to_filename vb1 = vb_soname_to_filename vb" by blast
  from Cons.IH [OF 2] obtain es where r: "strtab_le st1 strtab'" "tab' = tab1 @ es"
    "list_all2 (output_entry syms strtab') ss es" "length (vb_vers vb') = length (vb_vers vb1) + length ss"
    "vb_soname_to_filename vb' = vb_soname_to_filename vb1" by blast
  have "tab' = tab @ e # es" using f(2) r(2) by simp
  moreover have "list_all2 (output_entry syms strtab') (s # ss) (e # es)"
    using r(3) output_entry_le [OF f(3) r(1)] by simp
  moreover have "strtab_le strtab strtab'" by (rule strtab_le_trans [OF f(1) r(1)])
  ultimately show ?case using f(4,5) r(4,5) by auto
qed

lemma Build_loop_total:
  assumes "\<not> sb_is_freezed strtab"
    and "\<forall>s \<in> set ss. \<exists>found. syms (si_key s) = Some found
        \<and> version_ok (vb_soname_to_filename vb) (si_versym s) (si_soname s) (si_version s) (st_info (sy_sym found))"
  shows "\<exists>r. rfold (Build_step syms) ss (tab, strtab, vb) = Inr r"
  using assms
proof (induction ss arbitrary: tab strtab vb)
  case Nil
  then show ?case by simp
next
  case (Cons s ss)
  then obtain found where f: "syms (si_key s) = Some found"
    "version_ok (vb_soname_to_filename vb) (si_versym s) (si_soname s) (si_version s) (st_info (sy_sym found))" by auto
  from strtab.add_accepts [OF Cons.prems(1)] obtain pos st1 where a: "StrtabBuilder_Add (si_name s) strtab = Inr (pos, st1)"
    "\<not> sb_is_freezed st1" by blast
  from VersionBuilder_Add_ok [OF a(2) f(2)] obtain vb1 st2 where v:
    "VersionBuilder_Add (si_versym s) (si_soname s) (si_version s) (st_info (sy_sym found)) vb st1 = Inr (vb1, st2)"
    "\<not> sb_is_freezed st2" by blast
  have ih: "\<exists>r. rfold (Build_step syms) ss (tab1, st2, vb1) = Inr r" for tab1
    using Cons.prems(2) v(2) by (intro Cons.IH) (auto simp: VersionBuilder_Add_filenames [OF v(1)])
  obtain tab1 where "Build_step syms s (tab, strtab, vb) = Inr (tab1, st2, vb1)"
    by (simp add: Build_step_def f(1) a(1) v(1) Let_def)
  then show ?case using ih [of tab1] by (simp only: rfold.simps rbind.simps)
qed

lemma Build_loop_ok:
  assumes "rfold (Build_step syms) ss (tab, strtab, vb) = Inr r" and "s \<in> set ss"
  shows "\<exists>found. syms (si_key s) = Some found
    \<and> version_ok (vb_soname_to_filename vb) (si_versym s) (si_soname s) (si_version s) (st_info (sy_sym found))"
  using assms
proof (induction ss arbitrary: tab strtab vb)
  case Nil
  then show ?case by simp
next
  case (Cons t ss)
  from Cons.prems(1) obtain tab1 st1 vb1 where 1: "Build_step syms t (tab, strtab, vb) = Inr (tab1, st1, vb1)"
    and 2: "rfold (Build_step syms) ss (tab1, st1, vb1) = Inr r" by auto
  show ?case
  proof (cases "s = t")
    case True
    from 1 show ?thesis
      by (rule Build_step_Inr) (auto simp: True dest: VersionBuilder_Add_okD)
  next
    case False
    with Cons.prems(2) Cons.IH [OF 2] Build_step_facts [OF 1] show ?thesis by auto
  qed
qed

text \<open>
  C11: \<^verbatim>\<open>Build\<close>, called on a string table still open. It succeeds exactly when every exposed symbol's
  version information is acceptable; its own \<^verbatim>\<open>CHECK\<close> never fires. Then the output table gets one
  entry per exposed symbol, in order, so that the indices \<^verbatim>\<open>Resolve\<close> handed out are right; every
  entry refers to its name in the string table and has one entry in \<^verbatim>\<open>.gnu.version\<close>.
\<close>
theorem SymtabBuilder_Build_spec:
  assumes "symtab_wf sm" and "\<not> sb_is_freezed strtab"
  shows "((\<exists>r. SymtabBuilder_Build strtab vb sm = Inr r) \<longleftrightarrow> (\<forall>s \<in> set (sm_exposed_syms sm). acceptable sm vb s))
    \<and> (\<forall>strtab' vb' sm'. SymtabBuilder_Build strtab vb sm = Inr (strtab', vb', sm') \<longrightarrow>
      (\<exists>es. sm' = sm\<lparr>sm_symtab := sm_symtab sm @ es\<rparr>
        \<and> list_all2 (output_entry (sm_syms sm) strtab') (sm_exposed_syms sm) es)
      \<and> length (vb_vers vb') = length (vb_vers vb) + length (sm_exposed_syms sm)
      \<and> strtab_le strtab strtab')"
proof (intro conjI allI impI)
  show "(\<exists>r. SymtabBuilder_Build strtab vb sm = Inr r) \<longleftrightarrow> (\<forall>s \<in> set (sm_exposed_syms sm). acceptable sm vb s)"
  proof
    assume "\<exists>r. SymtabBuilder_Build strtab vb sm = Inr r"
    then obtain r where "rfold (Build_step (sm_syms sm)) (sm_exposed_syms sm) (sm_symtab sm, strtab, vb) = Inr r"
      by (auto simp: SymtabBuilder_Build_def)
    then show "\<forall>s \<in> set (sm_exposed_syms sm). acceptable sm vb s"
      using Build_loop_ok unfolding acceptable_def by blast
  next
    assume "\<forall>s \<in> set (sm_exposed_syms sm). acceptable sm vb s"
    then have "\<exists>r. rfold (Build_step (sm_syms sm)) (sm_exposed_syms sm) (sm_symtab sm, strtab, vb) = Inr r"
      by (intro Build_loop_total assms(2)) (simp add: acceptable_def)
    then show "\<exists>r. SymtabBuilder_Build strtab vb sm = Inr r"
      by (auto simp: SymtabBuilder_Build_def)
  qed
next
  fix strtab' vb' sm'
  assume "SymtabBuilder_Build strtab vb sm = Inr (strtab', vb', sm')"
  then obtain tab where loop: "rfold (Build_step (sm_syms sm)) (sm_exposed_syms sm) (sm_symtab sm, strtab, vb)
      = Inr (tab, strtab', vb')" and sm': "sm' = sm\<lparr>sm_symtab := tab\<rparr>"
    by (auto simp: SymtabBuilder_Build_def)
  from Build_loop_facts [OF loop] sm'
  show "\<exists>es. sm' = sm\<lparr>sm_symtab := sm_symtab sm @ es\<rparr>
        \<and> list_all2 (output_entry (sm_syms sm) strtab') (sm_exposed_syms sm) es"
    and "length (vb_vers vb') = length (vb_vers vb) + length (sm_exposed_syms sm)"
    and "strtab_le strtab strtab'" by blast+
qed

theorem SymtabBuilder_Build_spec_witness:
  "\<exists>sm0 strtab' vb' sm'. SymtabBuilder_new = Inr sm0
    \<and> SymtabBuilder_Build (StrtabBuilder_new Map.empty) VersionBuilder_new sm0 = Inr (strtab', vb', sm')
    \<and> length (vb_vers vb') = 1"
proof -
  obtain sm0 where sm0: "SymtabBuilder_new = Inr sm0" and wf: "symtab_wf sm0" using SymtabBuilder_new_wf by blast
  let ?st = "StrtabBuilder_new Map.empty" and ?vb = VersionBuilder_new
  have st: "\<not> sb_is_freezed ?st" by (simp add: StrtabBuilder_new_def)
  have ex: "\<forall>s \<in> set (sm_exposed_syms sm0). acceptable sm0 ?vb s" "length (sm_exposed_syms sm0) = 1"
    using sm0 by (auto simp: SymtabBuilder_new_def SymtabBuilder_AddSym_def SymtabBuilder_emplace_def Let_def
        acceptable_def version_ok_def si_key_def is_special_ver_ndx_def infer_versym_def)
  from SymtabBuilder_Build_spec [OF wf st, THEN conjunct1] ex(1) obtain strtab' vb' sm'
    where b: "SymtabBuilder_Build ?st ?vb sm0 = Inr (strtab', vb', sm')" by fast
  from SymtabBuilder_Build_spec [OF wf st, THEN conjunct2] b ex(2) have "length (vb_vers vb') = 1"
    by (simp add: VersionBuilder_new_def)
  with sm0 b show ?thesis by blast
qed

section \<open>Public symbols\<close>

definition merged_entry :: "Syminfo list \<Rightarrow> StrtabBuilder \<Rightarrow> Syminfo \<Rightarrow> Elf_Sym \<Rightarrow> bool" where
  "merged_entry publics strtab s esym \<longleftrightarrow>
     (\<exists>p \<in> set publics. \<exists>psym pos. si_sym p = Some psym \<and> StrtabBuilder_GetPos (si_name p) strtab = Inr pos
        \<and> esym = psym\<lparr>st_name := ucast pos, st_shndx := 1\<rparr> \<and> s = p\<lparr>si_sym := Some esym\<rparr>)"

lemma merged_entry_le: "merged_entry ps st s e \<Longrightarrow> strtab_le st st' \<Longrightarrow> merged_entry ps st' s e"
  unfolding merged_entry_def by (blast intro: strtab.getpos_le)

lemma merged_entry_mono: "merged_entry ps st s e \<Longrightarrow> set ps \<subseteq> set qs \<Longrightarrow> merged_entry qs st s e"
  unfolding merged_entry_def by blast

lemma merged_entry_key: "merged_entry ps st s e \<Longrightarrow> si_key s \<in> si_key ` set ps"
  unfolding merged_entry_def by (force simp: si_key_def)

lemma Merge_step_facts:
  assumes "Merge_step p (seen, sm, strtab, vb) = Inr (seen', sm', strtab', vb')"
  shows "strtab_le strtab strtab' \<and> set seen' = insert (si_key p) (set seen)
    \<and> (if si_key p \<in> set seen then sm' = sm \<and> vb' = vb
       else length (vb_vers vb') = length (vb_vers vb) + 1
         \<and> (\<exists>s e. si_key s = si_key p \<and> merged_entry [p] strtab' s e
              \<and> sm' = sm\<lparr>sm_exposed_syms := sm_exposed_syms sm @ [s], sm_symtab := sm_symtab sm @ [e]\<rparr>))"
proof -
  obtain psym where psym: "si_sym p = Some psym" using assms by (cases "si_sym p") (auto simp: Merge_step_def)
  with assms obtain pos st1 where a: "StrtabBuilder_Add (si_name p) strtab = Inr (pos, st1)"
    by (auto simp: Merge_step_def Let_def split: if_splits)
  define e where "e = psym\<lparr>st_name := ucast pos, st_shndx := 1\<rparr>"
  define s where "s = p\<lparr>si_sym := Some e\<rparr>"
  have key: "si_key s = si_key p" by (simp add: s_def si_key_def)
  show ?thesis
  proof (cases "si_key p \<in> set seen")
    case True
    then have "seen' = seen \<and> sm' = sm \<and> strtab' = st1 \<and> vb' = vb"
      using assms psym a by (auto simp: Merge_step_def Let_def si_key_def split: if_splits)
    with True Add_le [OF a] show ?thesis by (auto simp: insert_absorb)
  next
    case False
    with assms psym a have r: "seen' = si_key s # seen"
      "sm' = sm\<lparr>sm_exposed_syms := sm_exposed_syms sm @ [s], sm_symtab := sm_symtab sm @ [e]\<rparr>"
      and v: "VersionBuilder_Add (si_versym s) (si_soname s) (si_version s) (st_info e) vb st1 = Inr (vb', strtab')"
      by (auto simp: Merge_step_def Let_def s_def e_def si_key_def split: if_splits)
    note le = VersionBuilder_Add_le [OF v]
    have "StrtabBuilder_GetPos (si_name p) strtab' = Inr pos"
      by (rule strtab.getpos_le [OF le strtab.add_getpos [OF a]])
    then have "merged_entry [p] strtab' s e" unfolding merged_entry_def using psym s_def e_def by auto
    with False r key strtab_le_trans [OF Add_le [OF a] le] VersionBuilder_Add_vers [OF v]
    show ?thesis by auto
  qed
qed

lemma Merge_loop_facts:
  assumes "rfold Merge_step ps (seen, sm, strtab, vb) = Inr (seen', sm', strtab', vb')"
    and "set seen = si_key ` set (sm_exposed_syms sm)" and "distinct (map si_key (sm_exposed_syms sm))"
  shows "\<exists>news es. sm' = sm\<lparr>sm_exposed_syms := sm_exposed_syms sm @ news, sm_symtab := sm_symtab sm @ es\<rparr>
    \<and> list_all2 (merged_entry ps strtab') news es
    \<and> distinct (map si_key (sm_exposed_syms sm @ news))
    \<and> si_key ` set (sm_exposed_syms sm @ news) = si_key ` set (sm_exposed_syms sm) \<union> si_key ` set ps
    \<and> length (vb_vers vb') = length (vb_vers vb) + length news \<and> strtab_le strtab strtab'"
  using assms
proof (induction ps arbitrary: seen sm strtab vb)
  case Nil
  then show ?case by (intro exI [of _ "[]"]) simp
next
  case (Cons p ps)
  from Cons.prems(1) obtain seen1 sm1 st1 vb1 where 1: "Merge_step p (seen, sm, strtab, vb) = Inr (seen1, sm1, st1, vb1)"
    and 2: "rfold Merge_step ps (seen1, sm1, st1, vb1) = Inr (seen', sm', strtab', vb')" by auto
  note step = Merge_step_facts [OF 1]
  have sub: "merged_entry ps strtab' s e \<Longrightarrow> merged_entry (p # ps) strtab' s e" for s e
    by (rule merged_entry_mono) auto
  show ?case
  proof (cases "si_key p \<in> set seen")
    case True
    with step have eqs: "sm1 = sm" "vb1 = vb" "set seen1 = set seen" "strtab_le strtab st1" by auto
    have "set seen1 = si_key ` set (sm_exposed_syms sm1)" using eqs Cons.prems(2) by simp
    from Cons.IH [OF 2 this] Cons.prems(3) eqs obtain news es where
      r: "sm' = sm\<lparr>sm_exposed_syms := sm_exposed_syms sm @ news, sm_symtab := sm_symtab sm @ es\<rparr>"
      "list_all2 (merged_entry ps strtab') news es" "distinct (map si_key (sm_exposed_syms sm @ news))"
      "si_key ` set (sm_exposed_syms sm @ news) = si_key ` set (sm_exposed_syms sm) \<union> si_key ` set ps"
      "length (vb_vers vb') = length (vb_vers vb) + length news" "strtab_le st1 strtab'" by auto
    have "list_all2 (merged_entry (p # ps) strtab') news es" using r(2) by (rule list_all2_mono) (rule sub)
    moreover have "si_key ` set (sm_exposed_syms sm @ news) = si_key ` set (sm_exposed_syms sm) \<union> si_key ` set (p # ps)"
      using r(4) True Cons.prems(2) by auto
    ultimately show ?thesis using r(1,3,5) strtab_le_trans [OF eqs(4) r(6)] by blast
  next
    case False
    with step obtain s e where
      se: "si_key s = si_key p" "merged_entry [p] st1 s e"
      "sm1 = sm\<lparr>sm_exposed_syms := sm_exposed_syms sm @ [s], sm_symtab := sm_symtab sm @ [e]\<rparr>"
      "length (vb_vers vb1) = length (vb_vers vb) + 1" "strtab_le strtab st1" "set seen1 = insert (si_key p) (set seen)"
      by auto
    have "set seen1 = si_key ` set (sm_exposed_syms sm1)" using se(1,3,6) Cons.prems(2) by simp
    moreover have "distinct (map si_key (sm_exposed_syms sm1))" using se(1,3) False Cons.prems(2,3) by auto
    ultimately obtain news es where
      r: "sm' = sm1\<lparr>sm_exposed_syms := sm_exposed_syms sm1 @ news, sm_symtab := sm_symtab sm1 @ es\<rparr>"
      "list_all2 (merged_entry ps strtab') news es" "distinct (map si_key (sm_exposed_syms sm1 @ news))"
      "si_key ` set (sm_exposed_syms sm1 @ news) = si_key ` set (sm_exposed_syms sm1) \<union> si_key ` set ps"
      "length (vb_vers vb') = length (vb_vers vb1) + length news" "strtab_le st1 strtab'"
      using Cons.IH [OF 2] by blast
    have "merged_entry (p # ps) strtab' s e"
      by (rule merged_entry_mono [OF merged_entry_le [OF se(2) r(6)]]) simp
    moreover have "list_all2 (merged_entry (p # ps) strtab') news es" using r(2) by (rule list_all2_mono) (rule sub)
    ultimately have "list_all2 (merged_entry (p # ps) strtab') (s # news) (e # es)" by simp
    moreover have "sm' = sm\<lparr>sm_exposed_syms := sm_exposed_syms sm @ s # news, sm_symtab := sm_symtab sm @ e # es\<rparr>"
      using r(1) se(3) by simp
    moreover have "si_key ` set (sm_exposed_syms sm @ s # news) = si_key ` set (sm_exposed_syms sm) \<union> si_key ` set (p # ps)"
      using r(4) se(1,3) by auto
    moreover have "distinct (map si_key (sm_exposed_syms sm @ s # news))" using r(3) se(3) by simp
    moreover have "length (vb_vers vb') = length (vb_vers vb) + length (s # news)" using r(5) se(4) by simp
    ultimately show ?thesis using strtab_le_trans [OF se(5) r(6)] by blast
  qed
qed

lemma seen_loop:
  assumes "rfold (\<lambda>s seen. rbind (CHECK (si_key s \<notin> set seen)) (\<lambda>_. Inr (si_key s # seen))) ss seen0 = Inr seen"
  shows "set seen = set seen0 \<union> si_key ` set ss \<and> distinct (map si_key ss) \<and> set seen0 \<inter> si_key ` set ss = {}"
  using assms by (induction ss arbitrary: seen0) (simp, fastforce)

lemma MergePublicSymbols_facts:
  assumes "SymtabBuilder_MergePublicSymbols strtab vb sm = Inr (strtab', vb', sm')"
  shows "\<exists>news es. sm_exposed_syms sm' = sm_exposed_syms sm @ news \<and> sm_symtab sm' = sm_symtab sm @ es
    \<and> list_all2 (merged_entry (sm_public_syms sm) strtab') news es
    \<and> distinct (map si_key (sm_exposed_syms sm'))
    \<and> si_key ` set (sm_exposed_syms sm') = si_key ` set (sm_exposed_syms sm) \<union> si_key ` set (sm_public_syms sm)
    \<and> length (vb_vers vb') = length (vb_vers vb) + length news
    \<and> sm_public_syms sm' = [] \<and> strtab_le strtab strtab'
    \<and> sm_gnu_hash sm' = \<lparr>gh_nbuckets = 1, gh_symndx = 1, gh_maskwords = 1, gh_shift2 = 1\<rparr>"
proof -
  let ?sm0 = "sm\<lparr>sm_gnu_hash := \<lparr>gh_nbuckets = 1, gh_symndx = 1, gh_maskwords = 1, gh_shift2 = 1\<rparr>\<rparr>"
  from assms obtain seen0 seen1 sm1 where
    s: "rfold (\<lambda>s seen. rbind (CHECK (si_key s \<notin> set seen)) (\<lambda>_. Inr (si_key s # seen))) (sm_exposed_syms ?sm0) [] = Inr seen0"
    and m: "rfold Merge_step (sm_public_syms ?sm0) (seen0, ?sm0, strtab, vb) = Inr (seen1, sm1, strtab', vb')"
    and sm': "sm' = sm1\<lparr>sm_public_syms := []\<rparr>"
    by (auto simp: SymtabBuilder_MergePublicSymbols_def Let_def)
  from seen_loop [OF s] have "set seen0 = si_key ` set (sm_exposed_syms ?sm0)" "distinct (map si_key (sm_exposed_syms ?sm0))"
    by simp_all
  from Merge_loop_facts [OF m this] sm' show ?thesis by auto
qed

text \<open>
  C22: what \<^verbatim>\<open>MergePublicSymbols\<close> adds. The exposed symbols and the symbol table only grow, and by the
  same number of entries, with one entry each in \<^verbatim>\<open>.gnu.version\<close>, so all three stay parallel; every new entry is a
  public symbol's, with its name in the string table; afterwards every public symbol's key is
  exposed, no key twice, and no public symbol is pending.
\<close>
theorem SymtabBuilder_MergePublicSymbols_spec:
  assumes "SymtabBuilder_MergePublicSymbols strtab vb sm = Inr (strtab', vb', sm')"
  shows "\<exists>news es. sm_exposed_syms sm' = sm_exposed_syms sm @ news \<and> sm_symtab sm' = sm_symtab sm @ es
    \<and> list_all2 (merged_entry (sm_public_syms sm) strtab') news es
    \<and> distinct (map si_key (sm_exposed_syms sm'))
    \<and> si_key ` set (sm_exposed_syms sm') = si_key ` set (sm_exposed_syms sm) \<union> si_key ` set (sm_public_syms sm)
    \<and> length (vb_vers vb') = length (vb_vers vb) + length news
    \<and> sm_public_syms sm' = [] \<and> strtab_le strtab strtab'"
  using MergePublicSymbols_facts [OF assms] by blast

theorem SymtabBuilder_MergePublicSymbols_spec_witness:
  "\<exists>strtab' vb' sm'. SymtabBuilder_MergePublicSymbols (StrtabBuilder_new Map.empty) VersionBuilder_new
      \<lparr>sm_src_syms = Map.empty, sm_src_fallback_syms = Map.empty, sm_syms = Map.empty, sm_exposed_syms = [],
       sm_symtab = [], sm_public_syms =
         [\<lparr>si_name = ''f'', si_soname = [], si_version = [], si_versym = 1, si_sym = Some null_sym\<rparr>,
          \<lparr>si_name = ''f'', si_soname = [], si_version = [], si_versym = 1, si_sym = Some null_sym\<rparr>],
       sm_gnu_hash = Elf_GnuHash_init\<rparr> = Inr (strtab', vb', sm')
    \<and> length (sm_symtab sm') = length (vb_vers vb') \<and> si_key ` set (sm_exposed_syms sm') = {(''f'', [], [])}"
proof -
  let ?p = "\<lparr>si_name = ''f'', si_soname = [], si_version = [], si_versym = 1, si_sym = Some null_sym\<rparr>"
  let ?sm = "\<lparr>sm_src_syms = Map.empty, sm_src_fallback_syms = Map.empty, sm_syms = Map.empty, sm_exposed_syms = [],
       sm_symtab = [], sm_public_syms = [?p, ?p], sm_gnu_hash = Elf_GnuHash_init\<rparr>"
  obtain strtab' vb' sm' where e:
    "SymtabBuilder_MergePublicSymbols (StrtabBuilder_new Map.empty) VersionBuilder_new ?sm = Inr (strtab', vb', sm')"
    by (simp add: SymtabBuilder_MergePublicSymbols_def Merge_step_def StrtabBuilder_Add_def StrtabBuilder_new_def
        StrtabBuilder_renamed_def VersionBuilder_Add_def is_special_ver_ndx_def infer_versym_def si_key_def Let_def)
  from SymtabBuilder_MergePublicSymbols_spec [OF e] obtain news es where
    "sm_exposed_syms sm' = news" "sm_symtab sm' = es" "list_all2 (merged_entry [?p, ?p] strtab') news es"
    "si_key ` set (sm_exposed_syms sm') = {(''f'', [], [])}" "length (vb_vers vb') = length news"
    by (auto simp: si_key_def VersionBuilder_new_def)
  with e show ?thesis by (auto simp: list_all2_lengthD)
qed

end
