(* ===== verification/Mprotect.thy ===== *)
theory Mprotect
  imports Utils
begin

text \<open>
  \<^verbatim>\<open>mprotect_builder.h\<close> and \<^verbatim>\<open>mprotect_builder.cc\<close>: the machine code that the output runs from its
  \<^verbatim>\<open>DT_INIT_ARRAY\<close> to write-protect the linked objects' RELRO regions. The emitters are modelled
  byte by byte. What the emitted code does is stated with two small machines, one per
  architecture, that decode the emitted bytes and record every \<^verbatim>\<open>mprotect\<close> system call.
\<close>

section \<open>The class\<close>

text \<open>The \<^verbatim>\<open>int64_t\<close> offsets are words; the code only adds, subtracts and masks them.\<close>

record MprotectBuilder =
  mb_machine_type :: u16
  mb_offsets :: "u64 list"
  mb_sizes :: "u32 list"

definition MprotectBuilder_SetMachineType :: "u16 \<Rightarrow> MprotectBuilder \<Rightarrow> MprotectBuilder res" where
  "MprotectBuilder_SetMachineType machine mb =
     rbind (CHECK (machine = EM_X86_64 \<or> machine = EM_AARCH64)) (\<lambda>_.
     Inr (mb\<lparr>mb_machine_type := machine\<rparr>))"

definition MprotectBuilder_Add :: "u64 \<Rightarrow> u64 \<Rightarrow> MprotectBuilder \<Rightarrow> MprotectBuilder" where
  "MprotectBuilder_Add off sz mb =
     mb\<lparr>mb_offsets := mb_offsets mb @ [off], mb_sizes := mb_sizes mb @ [ucast sz]\<rparr>"

definition memprotect_body_code_x86_64 :: "u8 list" where
  "memprotect_body_code_x86_64 =
     [0x48, 0xbf, 0xef, 0xbe, 0xad, 0xde, 0xef, 0xbe, 0xad, 0xde, 0x48, 0x8d,
      0x35, 0x00, 0x00, 0x00, 0x00, 0x48, 0x01, 0xf7, 0x48, 0xc7, 0xc6, 0xcc,
      0xbb, 0xaa, 0x00, 0x48, 0xc7, 0xc2, 0x01, 0x00, 0x00, 0x00, 0xb8, 0x0a,
      0x00, 0x00, 0x00, 0x0f, 0x05, 0x85, 0xc0, 0x74, 0x02, 0x0f, 0x0b]"

definition memprotect_body_addr_offset_x86_64 :: nat where "memprotect_body_addr_offset_x86_64 = 2"
definition memprotect_body_size_offset_x86_64 :: nat where "memprotect_body_size_offset_x86_64 = 23"

definition memprotect_end_code_x86_64 :: "u8 list" where "memprotect_end_code_x86_64 = [0xc3]"

definition body_code_length_aarch64 :: nat where "body_code_length_aarch64 = 13 * 4"
definition ret_code_length_aarch64 :: nat where "ret_code_length_aarch64 = 4"

definition MprotectBuilder_Size :: "MprotectBuilder \<Rightarrow> nat res" where
  "MprotectBuilder_Size mb =
     rbind (CHECK (length (mb_offsets mb) = length (mb_sizes mb))) (\<lambda>_.
     if mb_machine_type mb = EM_X86_64 then
       Inr (length memprotect_body_code_x86_64 * length (mb_offsets mb) + length memprotect_end_code_x86_64)
     else if mb_machine_type mb = EM_AARCH64 then
       Inr (body_code_length_aarch64 * length (mb_offsets mb) + ret_code_length_aarch64)
     else Inl CHECK_failed)"

section \<open>x86-64\<close>

text \<open>\<^verbatim>\<open>a & ~(0x1000 - 1)\<close>.\<close>

definition page_mask :: "u64 \<Rightarrow> u64" where
  "page_mask a = a AND NOT (0x1000 - 1)"

text \<open>\<^verbatim>\<open>memcpy\<close> and the stores through \<^verbatim>\<open>offset_p\<close> and \<^verbatim>\<open>size_p\<close>, into the block from \<^verbatim>\<open>malloc\<close>.\<close>

definition poke :: "u8 list \<Rightarrow> nat \<Rightarrow> u8 list \<Rightarrow> u8 list res" where
  "poke block at bs =
     (if at + length bs \<le> length block then Inr (take at block @ bs @ drop (at + length bs) block)
      else Inl Bad_access)"

definition offset_v_x86_64 :: "u64 \<Rightarrow> nat \<Rightarrow> u64 \<Rightarrow> u64" where
  "offset_v_x86_64 code_offset head off = page_mask off - (code_offset + of_nat head + 17)"

definition size_v_x86_64 :: "u64 \<Rightarrow> u32 \<Rightarrow> u32" where
  "size_v_x86_64 off sz = ucast (page_mask (off + ucast sz) - page_mask off)"

fun EmitX86_64_loop :: "u64 \<Rightarrow> (u64 \<times> u32) list \<Rightarrow> nat \<Rightarrow> u8 list \<Rightarrow> (nat \<times> u8 list) res" where
  "EmitX86_64_loop code_offset [] head block = Inr (head, block)"
| "EmitX86_64_loop code_offset ((off, sz) # rest) head block =
     rbind (poke block head memprotect_body_code_x86_64) (\<lambda>block.
     rbind (poke block (head + memprotect_body_addr_offset_x86_64)
              (le_bytes 8 (offset_v_x86_64 code_offset head off))) (\<lambda>block.
     rbind (poke block (head + memprotect_body_size_offset_x86_64)
              (le_bytes 4 (size_v_x86_64 off sz))) (\<lambda>block.
     EmitX86_64_loop code_offset rest (head + length memprotect_body_code_x86_64) block)))"

text \<open>The contents \<^verbatim>\<open>malloc\<close> returns are a parameter: they depend on the size only.\<close>

definition MprotectBuilder_EmitX86_64 ::
  "(nat \<Rightarrow> u8 list) \<Rightarrow> u64 \<Rightarrow> MprotectBuilder \<Rightarrow> stream \<Rightarrow> stream res" where
  "MprotectBuilder_EmitX86_64 malloc code_offset mb fp =
     rbind (MprotectBuilder_Size mb) (\<lambda>sz.
     rbind (EmitX86_64_loop code_offset (zip (mb_offsets mb) (mb_sizes mb)) 0 (malloc sz)) (\<lambda>(head, block).
     rbind (poke block head memprotect_end_code_x86_64) (\<lambda>block.
     WriteBuf (take sz block) fp)))"

text \<open>The code of one region, as the loop leaves it in the block.\<close>

definition body_x86_64 :: "u64 \<Rightarrow> u32 \<Rightarrow> u8 list" where
  "body_x86_64 addr sz =
     [0x48, 0xbf] @ le_bytes 8 addr
     @ [0x48, 0x8d, 0x35, 0x00, 0x00, 0x00, 0x00] @ [0x48, 0x01, 0xf7]
     @ [0x48, 0xc7, 0xc6] @ le_bytes 4 sz @ [0x48, 0xc7, 0xc2] @ [0x01, 0x00, 0x00, 0x00]
     @ [0xb8] @ [0x0a, 0x00, 0x00, 0x00] @ [0x0f, 0x05] @ [0x85, 0xc0] @ [0x74, 0x02] @ [0x0f, 0x0b]"

fun code_x86_64 :: "u64 \<Rightarrow> (u64 \<times> u32) list \<Rightarrow> nat \<Rightarrow> u8 list" where
  "code_x86_64 code_offset [] head = []"
| "code_x86_64 code_offset ((off, sz) # rest) head =
     body_x86_64 (offset_v_x86_64 code_offset head off) (size_v_x86_64 off sz)
     @ code_x86_64 code_offset rest (head + 47)"

lemma length_body_x86_64 [simp]: "length (body_x86_64 a s) = 47"
  by (simp add: body_x86_64_def)

lemma length_code_x86_64 [simp]: "length (code_x86_64 c rs h) = 47 * length rs"
  by (induction c rs h rule: code_x86_64.induct) auto

lemma length_body_code [simp]: "length memprotect_body_code_x86_64 = 47"
  by (simp add: memprotect_body_code_x86_64_def)

lemma poke_append:
  "poke (pre @ mid @ post) (length pre) bs =
    (if length bs \<le> length mid + length post then Inr (pre @ bs @ drop (length bs) (mid @ post)) else Inl Bad_access)"
  by (auto simp: poke_def)

lemma poke_body:
  assumes "length rest \<ge> 47"
  shows "rbind (poke (pre @ rest) (length pre) memprotect_body_code_x86_64) (\<lambda>block.
     rbind (poke block (length pre + memprotect_body_addr_offset_x86_64) (le_bytes 8 a)) (\<lambda>block.
     rbind (poke block (length pre + memprotect_body_size_offset_x86_64) (le_bytes 4 s)) f))
   = f (pre @ body_x86_64 a s @ drop 47 rest)"
proof -
  have 1: "poke (pre @ rest) (length pre) memprotect_body_code_x86_64
      = Inr (pre @ memprotect_body_code_x86_64 @ drop 47 rest)"
    using assms by (simp add: poke_def)
  have 2: "poke (pre @ memprotect_body_code_x86_64 @ drop 47 rest) (length pre + memprotect_body_addr_offset_x86_64)
      (le_bytes 8 a) = Inr (pre @ (take 2 memprotect_body_code_x86_64 @ le_bytes 8 a
        @ drop 10 memprotect_body_code_x86_64) @ drop 47 rest)"
    using assms by (simp add: poke_def memprotect_body_addr_offset_x86_64_def)
  have 3: "poke (pre @ (take 2 memprotect_body_code_x86_64 @ le_bytes 8 a
        @ drop 10 memprotect_body_code_x86_64) @ drop 47 rest) (length pre + memprotect_body_size_offset_x86_64)
      (le_bytes 4 s) = Inr (pre @ (take 2 memprotect_body_code_x86_64 @ le_bytes 8 a
        @ take 13 (drop 10 memprotect_body_code_x86_64) @ le_bytes 4 s
        @ drop 27 memprotect_body_code_x86_64) @ drop 47 rest)"
    using assms by (simp add: poke_def memprotect_body_size_offset_x86_64_def)
  have 4: "take 2 memprotect_body_code_x86_64 @ le_bytes 8 a @ take 13 (drop 10 memprotect_body_code_x86_64)
      @ le_bytes 4 s @ drop 27 memprotect_body_code_x86_64 = body_x86_64 a s"
    by (simp add: memprotect_body_code_x86_64_def body_x86_64_def)
  show ?thesis unfolding 1 rbind.simps 2 3 4 ..
qed

lemma EmitX86_64_loop_code:
  assumes "length rest \<ge> 47 * length rs"
  shows "EmitX86_64_loop code_offset rs (length pre) (pre @ rest) =
    Inr (length pre + 47 * length rs, pre @ code_x86_64 code_offset rs (length pre) @ drop (47 * length rs) rest)"
  using assms
proof (induction rs arbitrary: pre rest)
  case Nil
  then show ?case by simp
next
  case (Cons r rs)
  obtain off sz where r: "r = (off, sz)" by fastforce
  define b where "b = body_x86_64 (offset_v_x86_64 code_offset (length pre) off) (size_v_x86_64 off sz)"
  have lb: "length b = 47" by (simp add: b_def)
  have "EmitX86_64_loop code_offset (r # rs) (length pre) (pre @ rest)
      = EmitX86_64_loop code_offset rs (length (pre @ b)) ((pre @ b) @ drop 47 rest)"
    using Cons.prems by (simp add: r poke_body b_def)
  also have "\<dots> = Inr (length (pre @ b) + 47 * length rs,
      (pre @ b) @ code_x86_64 code_offset rs (length (pre @ b)) @ drop (47 * length rs) (drop 47 rest))"
    using Cons.prems by (intro Cons.IH) simp
  also have "\<dots> = Inr (length pre + 47 * length (r # rs),
      pre @ code_x86_64 code_offset (r # rs) (length pre) @ drop (47 * length (r # rs)) rest)"
    using lb by (simp add: r b_def add.commute)
  finally show ?case .
qed

lemma EmitX86_64_code:
  assumes "mb_machine_type mb = EM_X86_64" and "length (mb_offsets mb) = length (mb_sizes mb)"
    and "\<And>n. length (malloc n) = n"
  shows "MprotectBuilder_EmitX86_64 malloc code_offset mb fp
      = Inr (fp @ code_x86_64 code_offset (zip (mb_offsets mb) (mb_sizes mb)) 0 @ [0xc3])"
proof -
  let ?rs = "zip (mb_offsets mb) (mb_sizes mb)"
  let ?n = "47 * length ?rs"
  have n: "MprotectBuilder_Size mb = Inr (?n + 1)"
    using assms(1,2) by (simp add: MprotectBuilder_Size_def memprotect_end_code_x86_64_def)
  have m: "length (malloc (?n + 1)) = ?n + 1" by (rule assms(3))
  have loop: "EmitX86_64_loop code_offset ?rs 0 (malloc (?n + 1))
      = Inr (?n, code_x86_64 code_offset ?rs 0 @ drop ?n (malloc (?n + 1)))"
    using EmitX86_64_loop_code [of ?rs "malloc (?n + 1)" code_offset "[]"] m by simp
  have p: "poke (code_x86_64 code_offset ?rs 0 @ drop ?n (malloc (?n + 1))) ?n memprotect_end_code_x86_64
      = Inr (code_x86_64 code_offset ?rs 0 @ [0xc3])"
    using m by (simp add: poke_def memprotect_end_code_x86_64_def)
  show ?thesis
    unfolding MprotectBuilder_EmitX86_64_def n rbind.simps loop prod.case p WriteBuf_def by simp
qed

section \<open>Running the x86-64 code\<close>

text \<open>
  A machine for the ten instructions of the template. \<^verbatim>\<open>sys\<close> is the kernel's answer to
  \<^verbatim>\<open>mprotect(addr, len, prot)\<close>; any other byte sequence or system call stops the machine as a trap.
  Final states carry the calls made and whether the code returned.
\<close>

type_synonym mcall = "u64 \<times> u64 \<times> u64"

record X86 =
  x_pc :: nat
  x_rax :: u64
  x_rdi :: u64
  x_rsi :: u64
  x_rdx :: u64
  x_zf :: bool
  x_log :: "mcall list"

definition x86_step :: "(mcall \<Rightarrow> u64) \<Rightarrow> u64 \<Rightarrow> u8 list \<Rightarrow> X86 \<Rightarrow> (mcall list \<times> bool) + X86" where
  "x86_step sys base code st =
     (let c = drop (x_pc st) code; pc = x_pc st
      in if take 2 c = [0x48, 0xbf] then
           Inr (st\<lparr>x_pc := pc + 10, x_rdi := le_word (take 8 (drop 2 c))\<rparr>)
         else if take 3 c = [0x48, 0x8d, 0x35] then
           Inr (st\<lparr>x_pc := pc + 7, x_rsi := base + of_nat (pc + 7) + scast (le_word (take 4 (drop 3 c)) :: u32)\<rparr>)
         else if take 3 c = [0x48, 0x01, 0xf7] then Inr (st\<lparr>x_pc := pc + 3, x_rdi := x_rdi st + x_rsi st\<rparr>)
         else if take 3 c = [0x48, 0xc7, 0xc6] then
           Inr (st\<lparr>x_pc := pc + 7, x_rsi := scast (le_word (take 4 (drop 3 c)) :: u32)\<rparr>)
         else if take 3 c = [0x48, 0xc7, 0xc2] then
           Inr (st\<lparr>x_pc := pc + 7, x_rdx := scast (le_word (take 4 (drop 3 c)) :: u32)\<rparr>)
         else if take 1 c = [0xb8] then Inr (st\<lparr>x_pc := pc + 5, x_rax := le_word (take 4 (drop 1 c))\<rparr>)
         else if take 2 c = [0x0f, 0x05] \<and> x_rax st = 10 then
           (let call = (x_rdi st, x_rsi st, x_rdx st)
            in Inr (st\<lparr>x_pc := pc + 2, x_rax := sys call, x_log := x_log st @ [call]\<rparr>))
         else if take 2 c = [0x85, 0xc0] then Inr (st\<lparr>x_pc := pc + 2, x_zf := ((ucast (x_rax st) :: u32) = 0)\<rparr>)
         else if take 2 c = [0x74, 0x02] then Inr (st\<lparr>x_pc := pc + 2 + (if x_zf st then 2 else 0)\<rparr>)
         else Inl (x_log st, take 1 c = [0xc3]))"

fun x86_run :: "nat \<Rightarrow> (mcall \<Rightarrow> u64) \<Rightarrow> u64 \<Rightarrow> u8 list \<Rightarrow> X86 \<Rightarrow> (mcall list \<times> bool) option" where
  "x86_run 0 sys base code st = None"
| "x86_run (Suc fuel) sys base code st =
     (case x86_step sys base code st of Inl r \<Rightarrow> Some r | Inr st \<Rightarrow> x86_run fuel sys base code st)"

text \<open>What the code should do: the calls in order, up to the first one the kernel refuses.\<close>

fun do_calls :: "(mcall \<Rightarrow> u64) \<Rightarrow> mcall list \<Rightarrow> mcall list \<times> bool" where
  "do_calls sys [] = ([], True)"
| "do_calls sys (c # cs) =
     (if (ucast (sys c) :: u32) = 0 then (c # fst (do_calls sys cs), snd (do_calls sys cs)) else ([c], False))"

lemma x86_mov_rdi:
  assumes "drop (x_pc st) code = [0x48, 0xbf] @ le_bytes 8 a @ r"
  shows "x86_step sys base code st = Inr (st\<lparr>x_pc := x_pc st + 10, x_rdi := a\<rparr>) \<and> drop (x_pc st + 10) code = r"
proof -
  have "drop (x_pc st + 10) code = drop 10 (drop (x_pc st) code)" by (simp add: add.commute)
  then show ?thesis using assms by (simp add: x86_step_def Let_def)
qed

lemma x86_lea:
  assumes "drop (x_pc st) code = [0x48, 0x8d, 0x35, 0x00, 0x00, 0x00, 0x00] @ r"
  shows "x86_step sys base code st = Inr (st\<lparr>x_pc := x_pc st + 7, x_rsi := base + of_nat (x_pc st + 7)\<rparr>)
    \<and> drop (x_pc st + 7) code = r"
proof -
  have "drop (x_pc st + 7) code = drop 7 (drop (x_pc st) code)" by (simp add: add.commute)
  then show ?thesis using assms by (simp add: x86_step_def Let_def)
qed

lemma x86_add:
  assumes "drop (x_pc st) code = [0x48, 0x01, 0xf7] @ r"
  shows "x86_step sys base code st = Inr (st\<lparr>x_pc := x_pc st + 3, x_rdi := x_rdi st + x_rsi st\<rparr>)
    \<and> drop (x_pc st + 3) code = r"
proof -
  have "drop (x_pc st + 3) code = drop 3 (drop (x_pc st) code)" by (simp add: add.commute)
  then show ?thesis using assms by (simp add: x86_step_def Let_def)
qed

lemma x86_mov_rsi:
  assumes "drop (x_pc st) code = [0x48, 0xc7, 0xc6] @ le_bytes 4 (s :: u32) @ r"
  shows "x86_step sys base code st = Inr (st\<lparr>x_pc := x_pc st + 7, x_rsi := scast s\<rparr>) \<and> drop (x_pc st + 7) code = r"
proof -
  have "drop (x_pc st + 7) code = drop 7 (drop (x_pc st) code)" by (simp add: add.commute)
  then show ?thesis using assms by (simp add: x86_step_def Let_def)
qed

lemma x86_tail:
  assumes "drop (x_pc st) code = [0x48, 0xc7, 0xc2] @ [0x01, 0x00, 0x00, 0x00] @ [0xb8] @ [0x0a, 0x00, 0x00, 0x00] @ r"
  shows "x86_step sys base code st = Inr (st\<lparr>x_pc := x_pc st + 7, x_rdx := 1\<rparr>)
    \<and> x86_step sys base code (st\<lparr>x_pc := x_pc st + 7, x_rdx := 1\<rparr>)
      = Inr (st\<lparr>x_pc := x_pc st + 12, x_rdx := 1, x_rax := 10\<rparr>)
    \<and> drop (x_pc st + 12) code = r"
proof -
  have "drop (x_pc st + 7) code = drop 7 (drop (x_pc st) code)" by (simp add: add.commute)
  then have 7: "drop (x_pc st + 7) code = [0xb8] @ [0x0a, 0x00, 0x00, 0x00] @ r" using assms by simp
  have "drop (x_pc st + 12) code = drop 12 (drop (x_pc st) code)" by (simp add: add.commute)
  then show ?thesis using assms 7 by (simp add: x86_step_def Let_def)
qed

lemma x86_syscall:
  assumes "drop (x_pc st) code = [0x0f, 0x05] @ [0x85, 0xc0] @ [0x74, 0x02] @ [0x0f, 0x0b] @ r" and "x_rax st = 10"
  defines "call \<equiv> (x_rdi st, x_rsi st, x_rdx st)"
  shows "x86_step sys base code st
      = Inr (st\<lparr>x_pc := x_pc st + 2, x_rax := sys call, x_log := x_log st @ [call]\<rparr>)
    \<and> drop (x_pc st + 2) code = [0x85, 0xc0] @ [0x74, 0x02] @ [0x0f, 0x0b] @ r"
proof -
  have "drop (x_pc st + 2) code = drop 2 (drop (x_pc st) code)" by (simp add: add.commute)
  then show ?thesis using assms by (simp add: x86_step_def Let_def)
qed

lemma x86_check:
  assumes "drop (x_pc st) code = [0x85, 0xc0] @ [0x74, 0x02] @ [0x0f, 0x0b] @ r"
  shows "\<exists>zf. x86_run (Suc (Suc (Suc k))) sys base code st =
    (if (ucast (x_rax st) :: u32) = 0 then x86_run (Suc k) sys base code (st\<lparr>x_pc := x_pc st + 6, x_zf := zf\<rparr>)
     else Some (x_log st, False)) \<and> drop (x_pc st + 6) code = r"
proof -
  define zf where "zf = ((ucast (x_rax st) :: u32) = 0)"
  have D: "drop (x_pc st + k) code = drop k (drop (x_pc st) code)" for k by (simp add: add.commute)
  have 2: "drop (x_pc st + 2) code = [0x74, 0x02] @ [0x0f, 0x0b] @ r"
    and 4: "drop (x_pc st + 4) code = [0x0f, 0x0b] @ r" and 6: "drop (x_pc st + 6) code = r"
    unfolding D assms by simp_all
  have s1: "x86_step sys base code st = Inr (st\<lparr>x_pc := x_pc st + 2, x_zf := zf\<rparr>)"
    using assms by (simp add: x86_step_def Let_def zf_def)
  have s2: "x86_step sys base code (st\<lparr>x_pc := x_pc st + 2, x_zf := zf\<rparr>)
      = Inr (st\<lparr>x_pc := (if zf then x_pc st + 6 else x_pc st + 4), x_zf := zf\<rparr>)"
    using 2 by (simp add: x86_step_def Let_def)
  have s3: "\<not> zf \<Longrightarrow> x86_step sys base code (st\<lparr>x_pc := x_pc st + 4, x_zf := zf\<rparr>) = Inl (x_log st, False)"
    using 4 by (simp add: x86_step_def Let_def)
  show ?thesis
    by (rule exI [of _ zf]) (use s1 s2 s3 6 in \<open>auto simp: zf_def\<close>)
qed

text \<open>One region's code: it makes one call and goes on behind it, or traps.\<close>

lemma x86_body:
  assumes c: "drop (x_pc st) code = body_x86_64 a s @ r"
    and call: "call = (a + (base + of_nat (x_pc st + 17)), scast s, 1)"
  shows "\<exists>st'. x86_run (Suc (9 + k)) sys base code st =
      (if (ucast (sys call) :: u32) = 0 then x86_run (Suc k) sys base code st' else Some (x_log st @ [call], False))
    \<and> x_pc st' = x_pc st + 47 \<and> x_log st' = x_log st @ [call] \<and> drop (x_pc st') code = r"
proof -
  define st1 where "st1 = st\<lparr>x_pc := x_pc st + 10, x_rdi := a\<rparr>"
  define st2 where "st2 = st1\<lparr>x_pc := x_pc st1 + 7, x_rsi := base + of_nat (x_pc st1 + 7)\<rparr>"
  define st3 where "st3 = st2\<lparr>x_pc := x_pc st2 + 3, x_rdi := x_rdi st2 + x_rsi st2\<rparr>"
  define st4 where "st4 = st3\<lparr>x_pc := x_pc st3 + 7, x_rsi := scast s\<rparr>"
  define st5 where "st5 = st4\<lparr>x_pc := x_pc st4 + 7, x_rdx := 1\<rparr>"
  define st6 where "st6 = st4\<lparr>x_pc := x_pc st4 + 12, x_rdx := 1, x_rax := 10\<rparr>"
  define st7 where "st7 = st6\<lparr>x_pc := x_pc st6 + 2, x_rax := sys call, x_log := x_log st6 @ [call]\<rparr>"
  note c0 = c [unfolded body_x86_64_def append_assoc]
  note 1 = x86_mov_rdi [OF c0, of sys base, folded st1_def]
  have d1: "drop (x_pc st1) code = drop (x_pc st + 10) code" by (simp add: st1_def)
  note 2 = x86_lea [OF trans [OF d1 1 [THEN conjunct2]], of sys base, folded st2_def]
  have d2: "drop (x_pc st2) code = drop (x_pc st1 + 7) code" by (simp add: st2_def)
  note 3 = x86_add [OF trans [OF d2 2 [THEN conjunct2]], of sys base, folded st3_def]
  have d3: "drop (x_pc st3) code = drop (x_pc st2 + 3) code" by (simp add: st3_def)
  note 4 = x86_mov_rsi [OF trans [OF d3 3 [THEN conjunct2]], of sys base, folded st4_def]
  have d4: "drop (x_pc st4) code = drop (x_pc st3 + 7) code" by (simp add: st4_def)
  note 5 = x86_tail [OF trans [OF d4 4 [THEN conjunct2]], of sys base, folded st5_def st6_def]
  have d6: "drop (x_pc st6) code = drop (x_pc st4 + 12) code" by (simp add: st6_def)
  have call6: "call = (x_rdi st6, x_rsi st6, x_rdx st6)"
    by (simp add: call st6_def st4_def st3_def st2_def st1_def add.commute)
  have rax: "x_rax st6 = 10" by (simp add: st6_def)
  note 6 = x86_syscall [OF trans [OF d6 5 [THEN conjunct2, THEN conjunct2]] rax, of sys base, folded call6, folded st7_def]
  have d7: "drop (x_pc st7) code = drop (x_pc st6 + 2) code" by (simp add: st7_def)
  obtain zf where 7: "x86_run (Suc (Suc (Suc k))) sys base code st7 =
      (if (ucast (x_rax st7) :: u32) = 0 then x86_run (Suc k) sys base code (st7\<lparr>x_pc := x_pc st7 + 6, x_zf := zf\<rparr>)
       else Some (x_log st7, False))" "drop (x_pc st7 + 6) code = r"
    using x86_check [OF trans [OF d7 6 [THEN conjunct2]], of k sys base] by blast
  have st7: "x_rax st7 = sys call" "x_log st7 = x_log st @ [call]" "x_pc st7 = x_pc st + 41"
    by (simp_all add: st7_def st6_def st4_def st3_def st2_def st1_def)
  have "x86_run (Suc (9 + k)) sys base code st = x86_run (Suc (Suc (Suc k))) sys base code st7"
    using 1 2 3 4 5 6 by (simp add: numeral_eq_Suc)
  with 7 st7 show ?thesis by (intro exI [of _ "st7\<lparr>x_pc := x_pc st7 + 6, x_zf := zf\<rparr>"]) simp
qed

text \<open>The calls of the whole code, once its first byte is loaded at \<^verbatim>\<open>bias + code_offset\<close>.\<close>

definition protect_call :: "u64 \<Rightarrow> u64 \<times> u32 \<Rightarrow> mcall" where
  "protect_call bias = (\<lambda>(off, sz). (bias + page_mask off, scast (size_v_x86_64 off sz), 1))"

lemma x86_code:
  assumes "drop (x_pc st) code = code_x86_64 code_offset rs (x_pc st) @ [0xc3]"
  shows "x86_run (Suc (9 * length rs + k)) sys (bias + code_offset) code st =
    Some (x_log st @ fst (do_calls sys (map (protect_call bias) rs)), snd (do_calls sys (map (protect_call bias) rs)))"
  using assms
proof (induction rs arbitrary: st)
  case Nil
  then show ?case by (simp add: x86_step_def)
next
  case (Cons r rs)
  obtain off sz where r: "r = (off, sz)" by fastforce
  let ?call = "protect_call bias r"
  have call: "?call = (offset_v_x86_64 code_offset (x_pc st) off + (bias + code_offset + of_nat (x_pc st + 17)),
      scast (size_v_x86_64 off sz), 1)"
    by (simp add: r protect_call_def offset_v_x86_64_def)
  have "drop (x_pc st) code = body_x86_64 (offset_v_x86_64 code_offset (x_pc st) off) (size_v_x86_64 off sz)
      @ (code_x86_64 code_offset rs (x_pc st + 47) @ [0xc3])"
    using Cons.prems by (simp add: r)
  from x86_body [OF this call, of "9 * length rs + k" sys] obtain st' where
    run: "x86_run (Suc (9 + (9 * length rs + k))) sys (bias + code_offset) code st =
      (if (ucast (sys ?call) :: u32) = 0 then x86_run (Suc (9 * length rs + k)) sys (bias + code_offset) code st'
       else Some (x_log st @ [?call], False))"
    and st': "x_pc st' = x_pc st + 47" "x_log st' = x_log st @ [?call]"
      "drop (x_pc st') code = code_x86_64 code_offset rs (x_pc st + 47) @ [0xc3]"
    by blast
  show ?case
  proof (cases "(ucast (sys ?call) :: u32) = 0")
    case True
    have "drop (x_pc st') code = code_x86_64 code_offset rs (x_pc st') @ [0xc3]" using st' by simp
    from Cons.IH [OF this] True run st'(2) show ?thesis by simp
  next
    case False
    with run show ?thesis by simp
  qed
qed

text \<open>
  C12: the x86-64 code. Whatever \<^verbatim>\<open>malloc\<close>'s block held, \<^verbatim>\<open>Emit\<close> writes \<^verbatim>\<open>Size()\<close> bytes; loaded at the
  address the layout gave it (in a process whose load bias is \<^verbatim>\<open>bias\<close>), they call \<^verbatim>\<open>mprotect\<close> with
  \<^verbatim>\<open>PROT_READ\<close> on the pages from the one that holds each region's start up to the one that holds its
  end, in order, and return; they trap after the first call the kernel refuses. At most nine
  instructions per region and the final \<^verbatim>\<open>ret\<close> are executed.
\<close>
theorem MprotectBuilder_EmitX86_64_runs:
  assumes "mb_machine_type mb = EM_X86_64" and "length (mb_offsets mb) = length (mb_sizes mb)"
    and "\<And>n. length (malloc n) = n" and "x_pc st = 0" and "x_log st = []"
  shows "\<exists>code. MprotectBuilder_EmitX86_64 malloc code_offset mb fp = Inr (fp @ code)
    \<and> MprotectBuilder_Size mb = Inr (length code)
    \<and> x86_run (Suc (9 * length (mb_offsets mb) + k)) sys (bias + code_offset) code st =
        Some (do_calls sys (map (\<lambda>(off, sz). (bias + page_mask off,
               scast (ucast (page_mask (off + ucast sz) - page_mask off) :: u32), 1))
             (zip (mb_offsets mb) (mb_sizes mb))))"
proof -
  let ?rs = "zip (mb_offsets mb) (mb_sizes mb)"
  let ?code = "code_x86_64 code_offset ?rs 0 @ [0xc3]"
  have calls: "(\<lambda>(off, sz). (bias + page_mask off, scast (ucast (page_mask (off + ucast sz) - page_mask off) :: u32), 1))
      = protect_call bias"
    by (simp add: protect_call_def size_v_x86_64_def)
  have "drop (x_pc st) ?code = code_x86_64 code_offset ?rs (x_pc st) @ [0xc3]" using assms(4) by simp
  note run = x86_code [OF this, of k sys bias]
  show ?thesis unfolding calls
    using EmitX86_64_code [OF assms(1-3), of code_offset fp] run assms(1,2,5)
    by (intro exI [of _ ?code]) (simp add: MprotectBuilder_Size_def memprotect_end_code_x86_64_def)
qed

definition x86_start :: X86 where
  "x86_start = \<lparr>x_pc = 0, x_rax = 7, x_rdi = 0, x_rsi = 3, x_rdx = 0, x_zf = False, x_log = []\<rparr>"

theorem MprotectBuilder_EmitX86_64_runs_witness:
  "\<exists>code. MprotectBuilder_EmitX86_64 (\<lambda>n. replicate n 0xaa) 0x5000
      \<lparr>mb_machine_type = EM_X86_64, mb_offsets = [0x2d80], mb_sizes = [0x1280]\<rparr> [] = Inr code
    \<and> x86_run 10 (\<lambda>_. 0) (0x10000 + 0x5000) code x86_start = Some ([(0x12000, 0x2000, 1)], True)"
proof -
  let ?mb = "\<lparr>mb_machine_type = EM_X86_64, mb_offsets = [0x2d80 :: u64], mb_sizes = [0x1280 :: u32]\<rparr>"
  have m: "length (replicate n (0xaa :: u8)) = n" for n by simp
  have h: "mb_machine_type ?mb = EM_X86_64" "length (mb_offsets ?mb) = length (mb_sizes ?mb)"
    "x_pc x86_start = 0" "x_log x86_start = []" by (simp_all add: x86_start_def)
  have "Suc (9 * length (mb_offsets ?mb) + 0) = 10" by simp
  with MprotectBuilder_EmitX86_64_runs [OF h(1,2) m h(3,4), where code_offset = "0x5000" and fp = "[]" and k = 0
      and sys = "\<lambda>_. 0" and bias = "0x10000"] show ?thesis
    by (auto simp: page_mask_def)
qed

section \<open>AArch64\<close>

definition set_immediate_to_register_aarch64 :: "u64 \<Rightarrow> u32 \<Rightarrow> u32 list" where
  "set_immediate_to_register_aarch64 v reg =
     map (\<lambda>i. ((0xf2800000 OR push_bit 21 (of_nat i)) OR push_bit 5 (ucast (drop_bit (i * 16) v AND 0xffff))) OR reg)
       [0..<4]"

definition body_aarch64 :: "u64 \<Rightarrow> u32 \<Rightarrow> u32 list" where
  "body_aarch64 x0 sz =
     set_immediate_to_register_aarch64 x0 0 @ [0x10000003] @ [0x8B030000]
     @ set_immediate_to_register_aarch64 (ucast sz) 1 @ [0xD2800022] @ [0x52800148] @ [0xD4000001]"

definition offset_aarch64 :: "u64 \<Rightarrow> u64 \<Rightarrow> u64" where
  "offset_aarch64 code_offset off = off - (code_offset + of_nat body_code_length_aarch64 + 5 * 4)"

definition MprotectBuilder_EmitAarch64 :: "u64 \<Rightarrow> MprotectBuilder \<Rightarrow> stream \<Rightarrow> stream res" where
  "MprotectBuilder_EmitAarch64 code_offset mb fp =
     (let old_pos = ftell fp;
          insts = concat (map (\<lambda>(off, sz). body_aarch64 (offset_aarch64 code_offset off) sz)
                    (zip (mb_offsets mb) (mb_sizes mb))) @ [0xD65F03C0]
      in rbind (rfold (\<lambda>i fp. WriteBuf (le_bytes 4 i) fp) insts fp) (\<lambda>fp.
         rbind (MprotectBuilder_Size mb) (\<lambda>sz.
         rbind (CHECK (ftell fp - old_pos = of_nat sz)) (\<lambda>_. Inr fp))))"

definition MprotectBuilder_Emit ::
  "(nat \<Rightarrow> u8 list) \<Rightarrow> u64 \<Rightarrow> MprotectBuilder \<Rightarrow> stream \<Rightarrow> stream res" where
  "MprotectBuilder_Emit malloc code_offset mb fp =
     (if mb_machine_type mb = EM_X86_64 then MprotectBuilder_EmitX86_64 malloc code_offset mb fp
      else if mb_machine_type mb = EM_AARCH64 then MprotectBuilder_EmitAarch64 code_offset mb fp
      else Inl CHECK_failed)"

section \<open>Running the AArch64 code\<close>

record A64 =
  a_pc :: nat
  a_x :: "u32 \<Rightarrow> u64"
  a_log :: "(u64 \<times> mcall) list"

text \<open>
  \<^verbatim>\<open>movk\<close> replaces 16 bits of a register; the instructions that do not vary are matched whole. A
  system call is recorded with its number, which is in \<^verbatim>\<open>x8\<close>.
\<close>

definition movk :: "u64 \<Rightarrow> nat \<Rightarrow> u64 \<Rightarrow> u64" where
  "movk old hw imm = (old AND NOT (push_bit (16 * hw) 0xffff)) OR push_bit (16 * hw) imm"

definition a64_step ::
  "(u64 \<times> mcall \<Rightarrow> u64) \<Rightarrow> u64 \<Rightarrow> u32 list \<Rightarrow> A64 \<Rightarrow> ((u64 \<times> mcall) list \<times> bool) + A64" where
  "a64_step sys base insts st =
     (if a_pc st < length insts then
        (let i = insts ! a_pc st; x = a_x st; nx = st\<lparr>a_pc := a_pc st + 1\<rparr>
         in if i AND 0xff800000 = 0xf2800000 then
              (let rd = i AND 31
               in Inr (nx\<lparr>a_x := x(rd := movk (x rd) (unat (drop_bit 21 i AND 3)) (ucast (drop_bit 5 i AND 0xffff)))\<rparr>))
            else if i = 0x10000003 then Inr (nx\<lparr>a_x := x(3 := base + 4 * of_nat (a_pc st))\<rparr>)
            else if i = 0x8B030000 then Inr (nx\<lparr>a_x := x(0 := x 0 + x 3)\<rparr>)
            else if i = 0xD2800022 then Inr (nx\<lparr>a_x := x(2 := 1)\<rparr>)
            else if i = 0x52800148 then Inr (nx\<lparr>a_x := x(8 := 10)\<rparr>)
            else if i = 0xD4000001 then
              (let call = (x 8, x 0, x 1, x 2)
               in Inr (nx\<lparr>a_x := x(0 := sys call), a_log := a_log st @ [call]\<rparr>))
            else Inl (a_log st, i = 0xD65F03C0))
      else Inl (a_log st, False))"

fun a64_run ::
  "nat \<Rightarrow> (u64 \<times> mcall \<Rightarrow> u64) \<Rightarrow> u64 \<Rightarrow> u32 list \<Rightarrow> A64 \<Rightarrow> ((u64 \<times> mcall) list \<times> bool) option" where
  "a64_run 0 sys base insts st = None"
| "a64_run (Suc fuel) sys base insts st =
     (case a64_step sys base insts st of Inl r \<Rightarrow> Some r | Inr st \<Rightarrow> a64_run fuel sys base insts st)"

text \<open>The four \<^verbatim>\<open>movk\<close> put the whole immediate into the register.\<close>

definition movk_inst :: "u64 \<Rightarrow> u32 \<Rightarrow> nat \<Rightarrow> u32" where
  "movk_inst v reg i = ((0xf2800000 OR push_bit 21 (of_nat i)) OR push_bit 5 (ucast (drop_bit (i * 16) v AND 0xffff))) OR reg"

lemma set_immediate_insts:
  "set_immediate_to_register_aarch64 v reg = map (movk_inst v reg) [0, 1, 2, 3]"
  by (simp add: set_immediate_to_register_aarch64_def movk_inst_def upt_conv_Cons)

definition movk_imm :: "u64 \<Rightarrow> nat \<Rightarrow> u32" where
  "movk_imm v i = take_bit 16 (ucast (drop_bit (i * 16) v))"

lemma movk_inst_imm: "movk_inst v reg i = ((0xf2800000 OR push_bit 21 (of_nat i)) OR push_bit 5 (movk_imm v i)) OR reg"
proof -
  have m: "(0xffff :: u64) = mask 16" by (simp add: mask_eq_exp_minus_1)
  have "ucast (drop_bit (i * 16) v AND 0xffff) = movk_imm v i"
    unfolding m movk_imm_def by (intro bit_word_eqI) (auto simp: bit_simps)
  then show ?thesis by (simp add: movk_inst_def)
qed

lemma imm_field_zero:
  "push_bit 5 (take_bit 16 u) AND 0xff800000 = (0 :: u32)"
  "push_bit 5 (take_bit 16 u) AND 31 = (0 :: u32)"
  "drop_bit 21 (push_bit 5 (take_bit 16 u)) = (0 :: u32)"
  "drop_bit 5 (push_bit 5 (take_bit 16 u)) AND 0xffff = (take_bit 16 u :: u32)"
proof -
  have m: "(0xff800000 :: u32) = push_bit 23 (mask 9)" "(31 :: u32) = mask 5" "(0xffff :: u32) = mask 16"
    by (simp_all add: mask_eq_exp_minus_1)
  show "push_bit 5 (take_bit 16 u) AND 0xff800000 = (0 :: u32)"
    unfolding m by (intro bit_word_eqI) (auto simp: bit_simps)
  show "push_bit 5 (take_bit 16 u) AND 31 = (0 :: u32)"
    unfolding m by (intro bit_word_eqI) (auto simp: bit_simps)
  show "drop_bit 21 (push_bit 5 (take_bit 16 u)) = (0 :: u32)"
    by (intro bit_word_eqI) (auto simp: bit_simps)
  show "drop_bit 5 (push_bit 5 (take_bit 16 u)) AND 0xffff = (take_bit 16 u :: u32)"
    unfolding m by (intro bit_word_eqI) (auto simp: bit_simps)
qed

lemma movk_inst_fields:
  assumes i: "i \<in> {0, 1, 2, 3}" and reg: "reg \<in> {0, 1}"
  shows "movk_inst v reg i AND 0xff800000 = 0xf2800000"
    and "movk_inst v reg i AND 31 = reg"
    and "unat (drop_bit 21 (movk_inst v reg i) AND 3) = i"
    and "drop_bit 5 (movk_inst v reg i) AND 0xffff = movk_imm v i"
proof -
  note z = imm_field_zero [of "ucast (drop_bit (i * 16) v)"]
  show "movk_inst v reg i AND 0xff800000 = 0xf2800000"
    unfolding movk_inst_imm movk_imm_def using i reg by (auto simp: bit.conj_disj_distrib2 z)
  show "movk_inst v reg i AND 31 = reg"
    unfolding movk_inst_imm movk_imm_def using i reg by (auto simp: bit.conj_disj_distrib2 z)
  show "unat (drop_bit 21 (movk_inst v reg i) AND 3) = i"
    unfolding movk_inst_imm movk_imm_def using i reg by (auto simp: bit.conj_disj_distrib2 z drop_bit_or)
  show "drop_bit 5 (movk_inst v reg i) AND 0xffff = movk_imm v i"
    unfolding movk_inst_imm movk_imm_def using i reg by (auto simp: bit.conj_disj_distrib2 z drop_bit_or)
qed

lemma movk_chain:
  "movk (movk (movk (movk x 0 (ucast (movk_imm v 0))) 1 (ucast (movk_imm v 1))) 2 (ucast (movk_imm v 2)))
     3 (ucast (movk_imm v 3)) = (v :: u64)"
proof -
  have m: "(0xffff :: u64) = mask 16" by (simp add: mask_eq_exp_minus_1)
  show ?thesis
    unfolding movk_def movk_imm_def m
  proof (intro bit_word_eqI)
    fix n assume "n < LENGTH(64)"
    then have n: "n < 64" by simp
    consider "n < 16" | "16 \<le> n" "n < 32" | "32 \<le> n" "n < 48" | "48 \<le> n" by linarith
    then show "bit ((((x AND NOT (push_bit (16 * 0) (mask 16)) OR push_bit (16 * 0) (ucast (take_bit 16 (ucast (drop_bit (0 * 16) v) :: u32))))
          AND NOT (push_bit (16 * 1) (mask 16)) OR push_bit (16 * 1) (ucast (take_bit 16 (ucast (drop_bit (1 * 16) v) :: u32))))
          AND NOT (push_bit (16 * 2) (mask 16)) OR push_bit (16 * 2) (ucast (take_bit 16 (ucast (drop_bit (2 * 16) v) :: u32))))
          AND NOT (push_bit (16 * 3) (mask 16)) OR push_bit (16 * 3) (ucast (take_bit 16 (ucast (drop_bit (3 * 16) v) :: u32)))) n
        = bit v n"
      by cases (use n in \<open>auto simp: bit_simps\<close>)
  qed
qed

lemma a64_fetch:
  assumes "drop pc insts = i # r"
  shows "pc < length insts \<and> insts ! pc = i \<and> drop (Suc pc) insts = r"
proof (intro conjI)
  show "pc < length insts" using assms by (metis drop_eq_Nil linorder_not_less list.distinct(1))
  then show "insts ! pc = i" using assms by (metis hd_drop_conv_nth list.sel(1))
  show "drop (Suc pc) insts = r" using assms by (metis drop_Suc drop_tl list.sel(3))
qed

lemma a64_movk:
  assumes "drop (a_pc st) insts = movk_inst v reg i # r" and "i \<in> {0, 1, 2, 3}" and "reg \<in> {0, 1}"
  shows "a64_step sys base insts st
      = Inr (st\<lparr>a_pc := a_pc st + 1, a_x := (a_x st)(reg := movk (a_x st reg) i (ucast (movk_imm v i)))\<rparr>)
    \<and> drop (a_pc st + 1) insts = r"
  using a64_fetch [OF assms(1)] movk_inst_fields [OF assms(2,3), of v] by (simp add: a64_step_def Let_def)

lemma a64_set_immediate:
  assumes "drop (a_pc st) insts = set_immediate_to_register_aarch64 v reg @ r" and reg: "reg \<in> {0, 1}"
  shows "\<exists>st'. a64_run (4 + k) sys base insts st = a64_run k sys base insts st'
    \<and> st' = st\<lparr>a_pc := a_pc st + 4, a_x := (a_x st)(reg := v)\<rparr> \<and> drop (a_pc st') insts = r"
proof -
  define f where "f i x = movk x i (ucast (movk_imm v i))" for i x
  define st1 where "st1 = st\<lparr>a_pc := a_pc st + 1, a_x := (a_x st)(reg := f 0 (a_x st reg))\<rparr>"
  define st2 where "st2 = st1\<lparr>a_pc := a_pc st1 + 1, a_x := (a_x st1)(reg := f 1 (a_x st1 reg))\<rparr>"
  define st3 where "st3 = st2\<lparr>a_pc := a_pc st2 + 1, a_x := (a_x st2)(reg := f 2 (a_x st2 reg))\<rparr>"
  define st4 where "st4 = st3\<lparr>a_pc := a_pc st3 + 1, a_x := (a_x st3)(reg := f 3 (a_x st3 reg))\<rparr>"
  have 0: "drop (a_pc st) insts = movk_inst v reg 0 # movk_inst v reg 1 # movk_inst v reg 2 # movk_inst v reg 3 # r"
    using assms(1) by (simp add: set_immediate_insts)
  note 1 = a64_movk [OF 0 _ reg, of sys base, folded f_def, folded st1_def]
  have d1: "drop (a_pc st1) insts = drop (a_pc st + 1) insts" by (simp add: st1_def)
  have 1: "a64_step sys base insts st = Inr st1"
    "drop (a_pc st1) insts = movk_inst v reg 1 # movk_inst v reg 2 # movk_inst v reg 3 # r"
    using 1 d1 by simp_all
  note 2 = a64_movk [OF 1(2) _ reg, of sys base, folded f_def, folded st2_def]
  have d2: "drop (a_pc st2) insts = drop (a_pc st1 + 1) insts" by (simp add: st2_def)
  have 2: "a64_step sys base insts st1 = Inr st2" "drop (a_pc st2) insts = movk_inst v reg 2 # movk_inst v reg 3 # r"
    using 2 d2 by simp_all
  note 3 = a64_movk [OF 2(2) _ reg, of sys base, folded f_def, folded st3_def]
  have d3: "drop (a_pc st3) insts = drop (a_pc st2 + 1) insts" by (simp add: st3_def)
  have 3: "a64_step sys base insts st2 = Inr st3" "drop (a_pc st3) insts = movk_inst v reg 3 # r"
    using 3 d3 by simp_all
  note 4 = a64_movk [OF 3(2) _ reg, of sys base, folded f_def, folded st4_def]
  have d4: "drop (a_pc st4) insts = drop (a_pc st3 + 1) insts" by (simp add: st4_def)
  have 4: "a64_step sys base insts st3 = Inr st4" "drop (a_pc st4) insts = r"
    using 4 d4 by simp_all
  have "f 3 (f 2 (f 1 (f 0 x))) = v" for x using movk_chain [of x v] by (simp add: f_def)
  then have st4: "st4 = st\<lparr>a_pc := a_pc st + 4, a_x := (a_x st)(reg := v)\<rparr>"
    by (simp add: st4_def st3_def st2_def st1_def)
  have "a64_run (4 + k) sys base insts st = a64_run k sys base insts st4"
    using 1 2 3 4 by (simp add: numeral_eq_Suc)
  with st4 4(2) show ?thesis by blast
qed

lemma a64_run_Suc:
  "a64_step sys base insts st = Inr st' \<Longrightarrow> a64_run (Suc n) sys base insts st = a64_run n sys base insts st'"
  by simp

lemma a64_steps:
  assumes "drop (a_pc st) insts = i # r"
  shows "i = 0x10000003 \<Longrightarrow> a64_step sys base insts st
      = Inr (st\<lparr>a_pc := a_pc st + 1, a_x := (a_x st)(3 := base + 4 * of_nat (a_pc st))\<rparr>)"
    and "i = 0x8B030000 \<Longrightarrow> a64_step sys base insts st
      = Inr (st\<lparr>a_pc := a_pc st + 1, a_x := (a_x st)(0 := a_x st 0 + a_x st 3)\<rparr>)"
    and "i = 0xD2800022 \<Longrightarrow> a64_step sys base insts st = Inr (st\<lparr>a_pc := a_pc st + 1, a_x := (a_x st)(2 := 1)\<rparr>)"
    and "i = 0x52800148 \<Longrightarrow> a64_step sys base insts st = Inr (st\<lparr>a_pc := a_pc st + 1, a_x := (a_x st)(8 := 10)\<rparr>)"
    and "i = 0xD4000001 \<Longrightarrow> a64_step sys base insts st
      = Inr (st\<lparr>a_pc := a_pc st + 1,
              a_x := (a_x st)(0 := sys (a_x st 8, a_x st 0, a_x st 1, a_x st 2)),
              a_log := a_log st @ [(a_x st 8, a_x st 0, a_x st 1, a_x st 2)]\<rparr>)"
    and "drop (a_pc st + 1) insts = r"
  using a64_fetch [OF assms] by (simp_all add: a64_step_def Let_def)

lemma a64_body:
  assumes c: "drop (a_pc st) insts = body_aarch64 a sz @ r"
    and call: "call = (10, a + (base + 4 * of_nat (a_pc st + 4)), ucast sz, 1)"
  shows "\<exists>st'. a64_run (13 + k) sys base insts st = a64_run k sys base insts st'
    \<and> a_pc st' = a_pc st + 13 \<and> a_log st' = a_log st @ [call] \<and> drop (a_pc st') insts = r"
proof -
  define st1 where "st1 = st\<lparr>a_pc := a_pc st + 4, a_x := (a_x st)(0 := a)\<rparr>"
  define st2 where "st2 = st1\<lparr>a_pc := a_pc st1 + 1, a_x := (a_x st1)(3 := base + 4 * of_nat (a_pc st1))\<rparr>"
  define st3 where "st3 = st2\<lparr>a_pc := a_pc st2 + 1, a_x := (a_x st2)(0 := a_x st2 0 + a_x st2 3)\<rparr>"
  define st4 where "st4 = st3\<lparr>a_pc := a_pc st3 + 4, a_x := (a_x st3)(1 := ucast sz)\<rparr>"
  define st5 where "st5 = st4\<lparr>a_pc := a_pc st4 + 1, a_x := (a_x st4)(2 := 1)\<rparr>"
  define st6 where "st6 = st5\<lparr>a_pc := a_pc st5 + 1, a_x := (a_x st5)(8 := 10)\<rparr>"
  define st7 where "st7 = st6\<lparr>a_pc := a_pc st6 + 1, a_x := (a_x st6)(0 := sys call), a_log := a_log st6 @ [call]\<rparr>"
  let ?r1 = "[0xD2800022] @ [0x52800148] @ [0xD4000001] @ r"
  have r0: "(0 :: u32) \<in> {0, 1}" "(1 :: u32) \<in> {0, 1}" by simp_all
  have 1: "a64_run (4 + n) sys base insts st = a64_run n sys base insts st1"
    "drop (a_pc st1) insts = [0x10000003] @ [0x8B030000] @ set_immediate_to_register_aarch64 (ucast sz) 1 @ ?r1" for n
    using a64_set_immediate [OF c [unfolded body_aarch64_def append_assoc] r0(1), of n sys base] st1_def by auto
  note n1 = a64_steps [OF 1(2) [unfolded append_Cons append_Nil]]
  have 2: "a64_step sys base insts st1 = Inr st2" unfolding st2_def by (rule n1(1)) (rule refl)
  have d2: "drop (a_pc st2) insts = 0x8B030000 # set_immediate_to_register_aarch64 (ucast sz) 1 @ ?r1"
    using n1(6) by (simp add: st2_def)
  note n2 = a64_steps [OF d2]
  have 3: "a64_step sys base insts st2 = Inr st3" unfolding st3_def by (rule n2(2)) (rule refl)
  have d3: "drop (a_pc st3) insts = set_immediate_to_register_aarch64 (ucast sz) 1 @ ?r1"
    using n2(6) by (simp add: st3_def)
  have 4: "a64_run (4 + n) sys base insts st3 = a64_run n sys base insts st4" "drop (a_pc st4) insts = ?r1" for n
    using a64_set_immediate [OF d3 r0(2), of n sys base] st4_def by auto
  note n4 = a64_steps [OF 4(2) [unfolded append_Cons append_Nil]]
  have 5: "a64_step sys base insts st4 = Inr st5" unfolding st5_def by (rule n4(3)) (rule refl)
  have d5: "drop (a_pc st5) insts = 0x52800148 # 0xD4000001 # r" using n4(6) by (simp add: st5_def)
  note n5 = a64_steps [OF d5]
  have 6: "a64_step sys base insts st5 = Inr st6" unfolding st6_def by (rule n5(4)) (rule refl)
  have d6: "drop (a_pc st6) insts = 0xD4000001 # r" using n5(6) by (simp add: st6_def)
  note n6 = a64_steps [OF d6]
  have f1: "a_pc st1 = a_pc st + 4" "a_x st1 0 = a" "a_log st1 = a_log st" by (simp_all add: st1_def)
  have f2: "a_pc st2 = a_pc st + 5" "a_x st2 0 = a" "a_x st2 3 = base + 4 * of_nat (a_pc st + 4)" "a_log st2 = a_log st"
    by (simp_all add: st2_def f1)
  have f3: "a_pc st3 = a_pc st + 6" "a_x st3 0 = a + (base + 4 * of_nat (a_pc st + 4))" "a_log st3 = a_log st"
    by (simp_all add: st3_def f2)
  have f4: "a_pc st4 = a_pc st + 10" "a_x st4 0 = a + (base + 4 * of_nat (a_pc st + 4))" "a_x st4 1 = ucast sz"
    "a_log st4 = a_log st" by (simp_all add: st4_def f3)
  have f5: "a_pc st5 = a_pc st + 11" "a_x st5 0 = a + (base + 4 * of_nat (a_pc st + 4))" "a_x st5 1 = ucast sz"
    "a_x st5 2 = 1" "a_log st5 = a_log st" by (simp_all add: st5_def f4)
  have f6: "a_pc st6 = a_pc st + 12" "a_x st6 0 = a + (base + 4 * of_nat (a_pc st + 4))" "a_x st6 1 = ucast sz"
    "a_x st6 2 = 1" "a_x st6 8 = 10" "a_log st6 = a_log st" by (simp_all add: st6_def f5)
  have regs: "call = (a_x st6 8, a_x st6 0, a_x st6 1, a_x st6 2)"
    unfolding call f6 ..
  have 7: "a64_step sys base insts st6 = Inr st7" unfolding st7_def regs by (rule n6(5)) (rule refl)
  have d7: "drop (a_pc st7) insts = r" using n6(6) by (simp add: st7_def)
  note go = a64_run_Suc [where sys = sys and base = base and insts = insts]
  have "a64_run (13 + k) sys base insts st = a64_run (4 + Suc (Suc (4 + Suc (Suc (Suc k))))) sys base insts st"
    by (rule arg_cong [of _ _ "\<lambda>n. a64_run n sys base insts st"]) simp
  also note 1(1)
  also note go [OF 2]
  also note go [OF 3]
  also note 4(1)
  also note go [OF 5]
  also note go [OF 6]
  also note go [OF 7]
  finally have run: "a64_run (13 + k) sys base insts st = a64_run k sys base insts st7" .
  have "a_pc st7 = a_pc st + 13" "a_log st7 = a_log st @ [call]"
    by (simp_all add: st7_def f6)
  with run d7 show ?thesis by blast
qed

lemma length_body_aarch64 [simp]: "length (body_aarch64 a s) = 13"
  by (simp add: body_aarch64_def set_immediate_insts)

lemma a64_code:
  assumes "drop (a_pc st) insts = concat (map (\<lambda>(off, sz). body_aarch64 (offset_aarch64 code_offset off) sz) rs) @ [0xD65F03C0]"
    and "a_pc st = 13 * i"
  shows "a64_run (Suc (13 * length rs + k)) sys (bias + code_offset) insts st =
    Some (a_log st @ map (\<lambda>(j, off, sz). (10, bias + off + 52 * of_nat j - 56, ucast sz, 1)) (zip [i..<i + length rs] rs), True)"
  using assms
proof (induction rs arbitrary: st i)
  case Nil
  then show ?case using a64_fetch [of "a_pc st" insts "0xD65F03C0" "[]"] by (simp add: a64_step_def Let_def)
next
  case (Cons r rs)
  obtain off sz where r: "r = (off, sz)" by fastforce
  let ?rest = "concat (map (\<lambda>(off, sz). body_aarch64 (offset_aarch64 code_offset off) sz) rs) @ [0xD65F03C0]"
  let ?call = "(10, bias + off + 52 * of_nat i - 56, ucast sz, 1) :: u64 \<times> mcall"
  have "drop (a_pc st) insts = body_aarch64 (offset_aarch64 code_offset off) sz @ ?rest"
    using Cons.prems(1) by (simp add: r)
  moreover have "?call = (10, offset_aarch64 code_offset off + (bias + code_offset + 4 * of_nat (a_pc st + 4)), ucast sz, 1)"
    by (simp add: offset_aarch64_def body_code_length_aarch64_def Cons.prems(2) algebra_simps)
  ultimately obtain st' where run: "a64_run (13 + (Suc (13 * length rs + k))) sys (bias + code_offset) insts st
      = a64_run (Suc (13 * length rs + k)) sys (bias + code_offset) insts st'"
    and st': "a_pc st' = a_pc st + 13" "a_log st' = a_log st @ [?call]" "drop (a_pc st') insts = ?rest"
    using a64_body by blast
  have "a_pc st' = 13 * Suc i" using st'(1) Cons.prems(2) by simp
  note ih = Cons.IH [OF st'(3) this]
  have "[i..<i + length (r # rs)] = i # [Suc i..<Suc i + length rs]"
    by (simp add: upt_conv_Cons del: upt_Suc)
  moreover have "a64_run (Suc (13 * length (r # rs) + k)) sys (bias + code_offset) insts st
      = a64_run (13 + Suc (13 * length rs + k)) sys (bias + code_offset) insts st"
    by (rule arg_cong [of _ _ "\<lambda>n. a64_run n sys (bias + code_offset) insts st"]) simp
  ultimately show ?case unfolding run ih st'(2) r by (simp del: upt_Suc)
qed

lemma EmitAarch64_code:
  assumes "mb_machine_type mb = EM_AARCH64" and "length (mb_offsets mb) = length (mb_sizes mb)"
    and insts: "insts = concat (map (\<lambda>(off, sz). body_aarch64 (offset_aarch64 code_offset off) sz)
             (zip (mb_offsets mb) (mb_sizes mb))) @ [0xD65F03C0]"
  shows "MprotectBuilder_EmitAarch64 code_offset mb fp = Inr (fp @ concat (map (le_bytes 4) insts))
    \<and> MprotectBuilder_Size mb = Inr (length (concat (map (le_bytes 4) insts)))"
proof -
  have w: "rfold (\<lambda>i fp. WriteBuf (le_bytes 4 i) fp) is fp = Inr (fp @ concat (map (le_bytes 4) is))" for "is" :: "u32 list" and fp
    by (induction "is" arbitrary: fp) (auto simp: WriteBuf_def)
  have l4: "length (concat (map (le_bytes 4) is)) = 4 * length is" for "is" :: "u32 list"
    by (induction "is") auto
  have bl: "length (concat (map (\<lambda>(off, sz). body_aarch64 (f off) sz) rs)) = 13 * length rs" for rs :: "(u64 \<times> u32) list" and f
    by (induction rs) auto
  have sz: "MprotectBuilder_Size mb = Inr (length (concat (map (le_bytes 4) insts)))"
    unfolding l4 insts using assms(1,2)
    by (simp add: bl MprotectBuilder_Size_def body_code_length_aarch64_def ret_code_length_aarch64_def)
  have "ftell (fp @ bs) - ftell fp = of_nat (length bs)" for bs by (simp add: ftell_def)
  then show ?thesis
    unfolding MprotectBuilder_EmitAarch64_def Let_def insts [symmetric] w rbind.simps sz by simp
qed

text \<open>
  C37: the AArch64 code, which does not do what its x86-64 counterpart does. \<^verbatim>\<open>Emit\<close> writes \<^verbatim>\<open>Size()\<close>
  bytes and they return whatever the kernel answers, but region \<open>j\<close>'s system call has number 10
  (\<^verbatim>\<open>mprotect\<close>'s number on x86-64; on AArch64 that is 226), and its address is neither rounded to a page nor
  the region's: it is \<^verbatim>\<open>52 * j - 56\<close> bytes off, since the subtracted distance counts the length of a
  whole body instead of those of the bodies before this one.
\<close>
theorem MprotectBuilder_EmitAarch64_runs:
  assumes "mb_machine_type mb = EM_AARCH64" and "length (mb_offsets mb) = length (mb_sizes mb)"
    and "a_pc st = 0" and "a_log st = []"
  shows "\<exists>insts. MprotectBuilder_EmitAarch64 code_offset mb fp = Inr (fp @ concat (map (le_bytes 4) insts))
    \<and> MprotectBuilder_Size mb = Inr (length (concat (map (le_bytes 4) insts)))
    \<and> a64_run (Suc (13 * length (mb_offsets mb) + k)) sys (bias + code_offset) insts st =
        Some (map (\<lambda>(j, off, sz). (10, bias + off + 52 * of_nat j - 56, ucast sz, 1))
          (zip [0..<length (mb_offsets mb)] (zip (mb_offsets mb) (mb_sizes mb))), True)"
proof -
  let ?rs = "zip (mb_offsets mb) (mb_sizes mb)"
  let ?insts = "concat (map (\<lambda>(off, sz). body_aarch64 (offset_aarch64 code_offset off) sz) ?rs) @ [0xD65F03C0]"
  have "drop (a_pc st) ?insts = ?insts" "a_pc st = 13 * 0" using assms(3) by simp_all
  note run = a64_code [OF this, of k sys bias]
  have "length ?rs = length (mb_offsets mb)" using assms(2) by simp
  then show ?thesis using run EmitAarch64_code [OF assms(1,2) refl, of code_offset fp] assms(4)
    by (intro exI [of _ ?insts]) (simp only: append_Nil add_0)
qed

theorem MprotectBuilder_EmitAarch64_runs_witness:
  "\<exists>insts. MprotectBuilder_EmitAarch64 0x5000
      \<lparr>mb_machine_type = EM_AARCH64, mb_offsets = [0x3000], mb_sizes = [0x1000]\<rparr> [] = Inr (concat (map (le_bytes 4) insts))
    \<and> a64_run 14 (\<lambda>_. 0) (0x10000 + 0x5000) insts \<lparr>a_pc = 0, a_x = (\<lambda>_. 9), a_log = []\<rparr>
        = Some ([(10, 0x12fc8, 0x1000, 1)], True)"
proof -
  let ?mb = "\<lparr>mb_machine_type = EM_AARCH64, mb_offsets = [0x3000 :: u64], mb_sizes = [0x1000 :: u32]\<rparr>"
  let ?st = "\<lparr>a_pc = 0, a_x = (\<lambda>_. 9), a_log = []\<rparr> :: A64"
  have h: "mb_machine_type ?mb = EM_AARCH64" "length (mb_offsets ?mb) = length (mb_sizes ?mb)"
    "a_pc ?st = 0" "a_log ?st = []" by simp_all
  have "Suc (13 * length (mb_offsets ?mb) + 0) = 14" by simp
  with MprotectBuilder_EmitAarch64_runs [OF h, where code_offset = "0x5000" and fp = "[]" and k = 0
      and sys = "\<lambda>_. 0" and bias = "0x10000"] show ?thesis
    by auto
qed

end
