(* ===== verification/Shdr.thy ===== *)
theory Shdr
  imports Strtab
begin

text \<open>
  \<^verbatim>\<open>shdr_builder.h\<close> and \<^verbatim>\<open>shdr_builder.cc\<close>: the section header table and its string table. The enum is
  a datatype in declaration order, which is the order in which the code's \<^verbatim>\<open>std::map\<close> iterates.
\<close>

section \<open>Section kinds and their names\<close>

datatype ShdrType = GnuHash | Dynsym | GnuVersion | GnuVersionR | Dynstr | RelaDyn | InitArray
  | FiniArray | Strtab_shdr | Shstrtab | Dynamic | Text_shdr | TLS_shdr

definition ShdrType_index :: "ShdrType \<Rightarrow> nat" where
  "ShdrType_index t = (case t of GnuHash \<Rightarrow> 0 | Dynsym \<Rightarrow> 1 | GnuVersion \<Rightarrow> 2 | GnuVersionR \<Rightarrow> 3 | Dynstr \<Rightarrow> 4
     | RelaDyn \<Rightarrow> 5 | InitArray \<Rightarrow> 6 | FiniArray \<Rightarrow> 7 | Strtab_shdr \<Rightarrow> 8 | Shstrtab \<Rightarrow> 9 | Dynamic \<Rightarrow> 10
     | Text_shdr \<Rightarrow> 11 | TLS_shdr \<Rightarrow> 12)"

lemma ShdrType_index_inj: "ShdrType_index s = ShdrType_index t \<Longrightarrow> s = t"
  by (cases s; cases t) (simp_all add: ShdrType_index_def)

instantiation ShdrType :: linorder
begin

definition less_eq_ShdrType :: "ShdrType \<Rightarrow> ShdrType \<Rightarrow> bool" where
  "less_eq_ShdrType s t \<longleftrightarrow> ShdrType_index s \<le> ShdrType_index t"

definition less_ShdrType :: "ShdrType \<Rightarrow> ShdrType \<Rightarrow> bool" where
  "less_ShdrType s t \<longleftrightarrow> ShdrType_index s < ShdrType_index t"

instance
  by standard (auto simp: less_eq_ShdrType_def less_ShdrType_def intro: ShdrType_index_inj)

end

definition type_to_str :: "(ShdrType \<times> string) list" where
  "type_to_str =
     [(GnuHash, ''.gnu.hash''), (Dynsym, ''.dynsym''), (GnuVersion, ''.gnu.version''), (GnuVersionR, ''.gnu.version_r''),
      (Dynstr, ''.dynstr''), (RelaDyn, ''.rela.dyn''), (InitArray, ''.init_array''), (FiniArray, ''.fini_array''),
      (Strtab_shdr, ''.strtab''), (Shstrtab, ''.shstrtab''), (Dynamic, ''.dynamic''), (Text_shdr, ''.text''),
      (TLS_shdr, ''.tls'')]"

lemma type_to_str_wf [wf_intros]: "omap_wf type_to_str"
  by (simp add: omap_wf_def type_to_str_def less_ShdrType_def less_eq_ShdrType_def ShdrType_index_def)

definition shstrtab_str :: string where
  "shstrtab_str = fold (\<lambda>i str. (str @ snd i) @ [CHR 0x00]) type_to_str [CHR 0x00]"

definition ShdrBuilder_EmitShstrtab :: "stream \<Rightarrow> stream res" where
  "ShdrBuilder_EmitShstrtab fp = WriteBuf (map u8_of_char shstrtab_str) fp"

definition ShdrBuilder_ShstrtabSize :: nat where
  "ShdrBuilder_ShstrtabSize = length shstrtab_str"

fun GetShName_loop :: "ShdrType \<Rightarrow> (ShdrType \<times> string) list \<Rightarrow> u32 \<Rightarrow> u32" where
  "GetShName_loop type [] r = r"
| "GetShName_loop type (i # rest) r =
     (if fst i = type then r else GetShName_loop type rest (r + (of_nat (length (snd i)) + 1)))"

definition ShdrBuilder_GetShName :: "ShdrType \<Rightarrow> u32" where
  "ShdrBuilder_GetShName type = GetShName_loop type type_to_str 1"

lemmas GetShName_eval = ShdrBuilder_GetShName_def type_to_str_def GetShName_loop.simps

text \<open>The table and the offsets, computed once.\<close>

lemma GetShName_value:
  "ShdrBuilder_GetShName t = (case t of GnuHash \<Rightarrow> 1 | Dynsym \<Rightarrow> 11 | GnuVersion \<Rightarrow> 19 | GnuVersionR \<Rightarrow> 32
     | Dynstr \<Rightarrow> 47 | RelaDyn \<Rightarrow> 55 | InitArray \<Rightarrow> 65 | FiniArray \<Rightarrow> 77 | Strtab_shdr \<Rightarrow> 89 | Shstrtab \<Rightarrow> 97
     | Dynamic \<Rightarrow> 107 | Text_shdr \<Rightarrow> 116 | TLS_shdr \<Rightarrow> 122)"
  by (cases t) (simp_all add: GetShName_eval)

lemma GetShName_nonzero: "ShdrBuilder_GetShName t \<noteq> 0"
  by (cases t) (simp_all add: GetShName_value)

lemma GetShName_inj: "ShdrBuilder_GetShName s = ShdrBuilder_GetShName t \<longleftrightarrow> s = t"
proof
  have u: "unat (ShdrBuilder_GetShName t) = (case t of GnuHash \<Rightarrow> 1 | Dynsym \<Rightarrow> 11 | GnuVersion \<Rightarrow> 19 | GnuVersionR \<Rightarrow> 32
     | Dynstr \<Rightarrow> 47 | RelaDyn \<Rightarrow> 55 | InitArray \<Rightarrow> 65 | FiniArray \<Rightarrow> 77 | Strtab_shdr \<Rightarrow> 89 | Shstrtab \<Rightarrow> 97
     | Dynamic \<Rightarrow> 107 | Text_shdr \<Rightarrow> 116 | TLS_shdr \<Rightarrow> 122)" for t
    by (cases t) (simp_all add: GetShName_value)
  assume "ShdrBuilder_GetShName s = ShdrBuilder_GetShName t"
  then have "unat (ShdrBuilder_GetShName s) = unat (ShdrBuilder_GetShName t)" by simp
  then show "s = t" unfolding u by (cases s; cases t) simp_all
qed simp

text \<open>
  the name offset of every section kind is where the emitted section name table holds the
  kind's name; kinds have different offsets, none of them 0 (the name of the null header).
\<close>
theorem ShdrBuilder_GetShName_names:
  "strz_at shstrtab_str (unat (ShdrBuilder_GetShName t)) = the (map_of type_to_str t)
    \<and> ShdrBuilder_GetShName t \<noteq> 0
    \<and> (ShdrBuilder_GetShName s = ShdrBuilder_GetShName t \<longleftrightarrow> s = t)"
proof (intro conjI)
  show "strz_at shstrtab_str (unat (ShdrBuilder_GetShName t)) = the (map_of type_to_str t)"
    by (cases t) (simp_all add: GetShName_value type_to_str_def shstrtab_str_def strz_at_def)
qed (fact GetShName_nonzero GetShName_inj)+

section \<open>The builder\<close>

record ShdrBuilder =
  shdrs :: "Elf_Shdr list"

definition null_shdr :: Elf_Shdr where
  "null_shdr = \<lparr>sh_name = 0, sh_type = 0, sh_flags = 0, sh_addr = 0, sh_offset = 0, sh_size = 0, sh_link = 0,
     sh_info = 0, sh_addralign = 0, sh_entsize = 0\<rparr>"

definition ShdrBuilder_new :: ShdrBuilder where
  "ShdrBuilder_new = \<lparr>shdrs = [null_shdr]\<rparr>"

definition ShdrBuilder_CountShdrs :: "ShdrBuilder \<Rightarrow> u16" where
  "ShdrBuilder_CountShdrs sb = of_nat (length (shdrs sb))"

definition ShdrBuilder_Shstrndx :: "ShdrBuilder \<Rightarrow> u16" where
  "ShdrBuilder_Shstrndx sb = of_nat (length (shdrs sb)) - 1"

definition ShdrBuilder_RegisterShdr ::
  "u64 \<Rightarrow> u64 \<Rightarrow> ShdrType \<Rightarrow> u64 \<Rightarrow> u32 \<Rightarrow> ShdrBuilder \<Rightarrow> ShdrBuilder res" where
  "ShdrBuilder_RegisterShdr offset sz type entsize info sb =
     (let shdr = null_shdr\<lparr>sh_name := ShdrBuilder_GetShName type, sh_offset := offset, sh_addr := offset,
                   sh_size := sz, sh_entsize := entsize, sh_info := info\<rparr>
      in rbind
        (case type of
           GnuHash \<Rightarrow> Inr (shdr\<lparr>sh_type := SHT_GNU_HASH, sh_flags := SHF_ALLOC\<rparr>)
         | Dynsym \<Rightarrow> Inr (shdr\<lparr>sh_type := SHT_DYNSYM, sh_flags := SHF_ALLOC, sh_info := 1\<rparr>)
         | GnuVersion \<Rightarrow> Inr (shdr\<lparr>sh_type := SHT_GNU_versym, sh_flags := SHF_ALLOC\<rparr>)
         | GnuVersionR \<Rightarrow> Inr (shdr\<lparr>sh_type := SHT_GNU_verneed, sh_flags := SHF_ALLOC\<rparr>)
         | Dynstr \<Rightarrow> Inr (shdr\<lparr>sh_type := SHT_STRTAB, sh_flags := SHF_ALLOC\<rparr>)
         | RelaDyn \<Rightarrow> Inr (shdr\<lparr>sh_type := SHT_RELA, sh_flags := SHF_ALLOC\<rparr>)
         | InitArray \<Rightarrow> Inr (shdr\<lparr>sh_type := SHT_INIT_ARRAY, sh_flags := SHF_ALLOC OR SHF_EXECINSTR\<rparr>)
         | FiniArray \<Rightarrow> Inr (shdr\<lparr>sh_type := SHT_FINI_ARRAY, sh_flags := SHF_ALLOC OR SHF_EXECINSTR\<rparr>)
         | Strtab_shdr \<Rightarrow> Inr (shdr\<lparr>sh_type := SHT_STRTAB, sh_flags := 0, sh_addr := 0\<rparr>)
         | Shstrtab \<Rightarrow> Inr (shdr\<lparr>sh_type := SHT_STRTAB, sh_flags := 0, sh_addr := 0\<rparr>)
         | Dynamic \<Rightarrow> Inr (shdr\<lparr>sh_type := SHT_DYNAMIC, sh_flags := SHF_ALLOC OR SHF_WRITE\<rparr>)
         | Text_shdr \<Rightarrow> Inl LOG_FATAL
         | TLS_shdr \<Rightarrow> Inl LOG_FATAL)
        (\<lambda>shdr. Inr (sb\<lparr>shdrs := shdrs sb @ [shdr]\<rparr>)))"

fun GetIndex_loop :: "u32 \<Rightarrow> Elf_Shdr list \<Rightarrow> u32 \<Rightarrow> u32 res" where
  "GetIndex_loop nm [] r = Inl LOG_FATAL"
| "GetIndex_loop nm (s # rest) r = (if sh_name s = nm then Inr r else GetIndex_loop nm rest (r + 1))"

definition ShdrBuilder_GetIndex :: "ShdrType \<Rightarrow> ShdrBuilder \<Rightarrow> u32 res" where
  "ShdrBuilder_GetIndex type sb = GetIndex_loop (ShdrBuilder_GetShName type) (shdrs sb) 0"

text \<open>One turn of \<^verbatim>\<open>Freeze\<close>: \<^verbatim>\<open>GetIndex\<close> reads the vector as the turns before left it.\<close>

definition Freeze_step :: "nat \<Rightarrow> ShdrBuilder \<Rightarrow> ShdrBuilder res" where
  "Freeze_step i sb =
     (let s = shdrs sb ! i; nm = sh_name s; is = (\<lambda>t. nm = ShdrBuilder_GetShName t)
      in if is GnuHash \<or> is RelaDyn \<or> is GnuVersion then
           rbind (ShdrBuilder_GetIndex Dynsym sb) (\<lambda>ix. Inr (sb\<lparr>shdrs := (shdrs sb)[i := s\<lparr>sh_link := ix\<rparr>]\<rparr>))
         else if is Dynsym \<or> is GnuVersionR \<or> is Dynamic then
           rbind (ShdrBuilder_GetIndex Dynstr sb) (\<lambda>ix. Inr (sb\<lparr>shdrs := (shdrs sb)[i := s\<lparr>sh_link := ix\<rparr>]\<rparr>))
         else Inr sb)"

definition ShdrBuilder_Freeze :: "ShdrBuilder \<Rightarrow> ShdrBuilder res" where
  "ShdrBuilder_Freeze sb = rfold Freeze_step [0..<length (shdrs sb)] sb"

fun EmitShdrs_loop :: "Elf_Shdr list \<Rightarrow> Elf_Shdr option \<Rightarrow> nat \<Rightarrow> stream \<Rightarrow> (Elf_Shdr option \<times> nat \<times> stream) res" where
  "EmitShdrs_loop [] found n fp = Inr (found, n, fp)"
| "EmitShdrs_loop (s # rest) found n fp =
     (if sh_name s = ShdrBuilder_GetShName Shstrtab then EmitShdrs_loop rest (Some s) n fp
      else rbind (WriteBuf (enc_Elf_Shdr s) fp) (\<lambda>fp. EmitShdrs_loop rest found (n + 1) fp))"

definition ShdrBuilder_EmitShdrs :: "ShdrBuilder \<Rightarrow> stream \<Rightarrow> stream res" where
  "ShdrBuilder_EmitShdrs sb fp =
     rbind (EmitShdrs_loop (shdrs sb) None 0 fp) (\<lambda>(found, n, fp).
     case found of
       None \<Rightarrow> Inl CHECK_failed
     | Some shstrtab \<Rightarrow> rbind (CHECK (n \<noteq> 0)) (\<lambda>_. WriteBuf (enc_Elf_Shdr shstrtab) fp))"

section \<open>The emitted table\<close>

definition has_kind :: "ShdrType \<Rightarrow> Elf_Shdr \<Rightarrow> bool" where
  "has_kind t s = (sh_name s = ShdrBuilder_GetShName t)"

definition emitted_shdrs :: "Elf_Shdr list \<Rightarrow> Elf_Shdr list" where
  "emitted_shdrs ss = filter (\<lambda>s. \<not> has_kind Shstrtab s) ss @ filter (has_kind Shstrtab) ss"

lemma EmitShdrs_loop_filter:
  "EmitShdrs_loop ss found n fp =
    Inr (if filter (has_kind Shstrtab) ss = [] then found else Some (last (filter (has_kind Shstrtab) ss)),
         n + length (filter (\<lambda>s. \<not> has_kind Shstrtab s) ss),
         fp @ concat (map enc_Elf_Shdr (filter (\<lambda>s. \<not> has_kind Shstrtab s) ss)))"
  by (induction ss arbitrary: found n fp) (auto simp: has_kind_def WriteBuf_def)

lemma RegisterShdr_kind:
  assumes "ShdrBuilder_RegisterShdr offset sz type entsize info sb = Inr sb'"
  shows "\<exists>s. shdrs sb' = shdrs sb @ [s] \<and> has_kind type s \<and> sh_offset s = offset \<and> sh_size s = sz"
  using assms by (cases type) (auto simp: ShdrBuilder_RegisterShdr_def has_kind_def Let_def)

text \<open>
  C30: with one \<^verbatim>\<open>.shstrtab\<close> header registered, wherever it stands, \<^verbatim>\<open>EmitShdrs\<close> writes every header
  once and that one last, so that \<^verbatim>\<open>e_shstrndx = Shstrndx()\<close> names it and the table has
  \<^verbatim>\<open>CountShdrs()\<close> entries of 64 bytes.
\<close>
theorem ShdrBuilder_EmitShdrs_spec:
  assumes "shdrs sb = null_shdr # rest" and "length (shdrs sb) < 2 ^ 16"
    and one: "filter (has_kind Shstrtab) rest = [s]"
  shows "ShdrBuilder_EmitShdrs sb fp = Inr (fp @ concat (map enc_Elf_Shdr (emitted_shdrs (shdrs sb))))
      \<and> length (concat (map enc_Elf_Shdr (emitted_shdrs (shdrs sb)))) = 64 * unat (ShdrBuilder_CountShdrs sb)
      \<and> emitted_shdrs (shdrs sb) ! unat (ShdrBuilder_Shstrndx sb) = s"
proof -
  have null: "\<not> has_kind Shstrtab null_shdr" using GetShName_nonzero [of Shstrtab] by (simp add: has_kind_def null_shdr_def)
  let ?others = "filter (\<lambda>s. \<not> has_kind Shstrtab s) (shdrs sb)"
  have em: "emitted_shdrs (shdrs sb) = ?others @ [s]" using assms(1) null one by (simp add: emitted_shdrs_def)
  have "length ?others + length (filter (has_kind Shstrtab) (shdrs sb)) = length (shdrs sb)"
    using sum_length_filter_compl [of "has_kind Shstrtab" "shdrs sb"] by simp
  then have len: "length ?others + 1 = length (shdrs sb)" using assms(1) null one by simp
  have ne: "?others \<noteq> []" using assms(1) null by simp
  have emit: "ShdrBuilder_EmitShdrs sb fp = Inr (fp @ concat (map enc_Elf_Shdr (emitted_shdrs (shdrs sb))))"
    unfolding ShdrBuilder_EmitShdrs_def EmitShdrs_loop_filter em using assms(1) null one ne
    by (simp add: WriteBuf_def)
  have bytes: "length (concat (map enc_Elf_Shdr ss)) = 64 * length ss" for ss
    by (induction ss) (auto simp: shdr.enc_length)
  have count: "unat (ShdrBuilder_CountShdrs sb) = length (shdrs sb)"
    unfolding ShdrBuilder_CountShdrs_def using assms(2) by (simp add: unat_of_nat)
  have "ShdrBuilder_Shstrndx sb = of_nat (length ?others)"
    unfolding ShdrBuilder_Shstrndx_def by (simp flip: len)
  moreover have "length ?others < 2 ^ 16" using assms(2) len by linarith
  ultimately have "unat (ShdrBuilder_Shstrndx sb) = length ?others" by (simp add: unat_of_nat)
  then have "emitted_shdrs (shdrs sb) ! unat (ShdrBuilder_Shstrndx sb) = s" by (simp add: em nth_append)
  moreover have "length (emitted_shdrs (shdrs sb)) = length (shdrs sb)" using len em by simp
  ultimately show ?thesis using emit bytes count by (simp only: simp_thms)
qed

theorem ShdrBuilder_EmitShdrs_spec_witness:
  "\<exists>s bs. ShdrBuilder_EmitShdrs \<lparr>shdrs = [null_shdr, s, null_shdr\<lparr>sh_name := 11\<rparr>]\<rparr> [] = Inr bs
    \<and> has_kind Shstrtab s \<and> length bs = 192"
proof -
  let ?s = "null_shdr\<lparr>sh_name := 97\<rparr>"
  let ?sb = "\<lparr>shdrs = [null_shdr, ?s, null_shdr\<lparr>sh_name := 11\<rparr>]\<rparr>"
  have k: "has_kind Shstrtab ?s" "\<not> has_kind Shstrtab (null_shdr\<lparr>sh_name := 11\<rparr>)"
    by (simp_all add: has_kind_def GetShName_value)
  have h: "shdrs ?sb = null_shdr # [?s, null_shdr\<lparr>sh_name := 11\<rparr>]" "length (shdrs ?sb) < 2 ^ 16"
    "filter (has_kind Shstrtab) [?s, null_shdr\<lparr>sh_name := 11\<rparr>] = [?s]" using k by simp_all
  from ShdrBuilder_EmitShdrs_spec [OF h, of "[]"] k show ?thesis
    by (intro exI [of _ ?s] exI [of _ "concat (map enc_Elf_Shdr (emitted_shdrs (shdrs ?sb)))"])
      (simp add: ShdrBuilder_CountShdrs_def)
qed

section \<open>Links\<close>

lemma GetIndex_loop_names:
  "map sh_name ss = map sh_name ts \<Longrightarrow> GetIndex_loop nm ss r = GetIndex_loop nm ts r"
proof (induction ss arbitrary: ts r)
  case Nil
  then show ?case by simp
next
  case (Cons s ss)
  then show ?case by (cases ts) auto
qed

lemma GetIndex_loop_Inr:
  "GetIndex_loop nm ss r = Inr j \<Longrightarrow> \<exists>k < length ss. j = r + of_nat k \<and> sh_name (ss ! k) = nm"
proof (induction nm ss r rule: GetIndex_loop.induct)
  case (1 nm r)
  then show ?case by simp
next
  case (2 nm s rest r)
  show ?case
  proof (cases "sh_name s = nm")
    case True
    with 2 show ?thesis by (intro exI [of _ 0]) simp
  next
    case False
    with 2 obtain k where "k < length rest" "j = r + 1 + of_nat k" "sh_name (rest ! k) = nm" by auto
    then show ?thesis by (intro exI [of _ "Suc k"]) simp
  qed
qed

definition link_target :: "Elf_Shdr \<Rightarrow> ShdrType option" where
  "link_target s =
     (if has_kind GnuHash s \<or> has_kind RelaDyn s \<or> has_kind GnuVersion s then Some Dynsym
      else if has_kind Dynsym s \<or> has_kind GnuVersionR s \<or> has_kind Dynamic s then Some Dynstr else None)"

lemma Freeze_step_cases:
  assumes "Freeze_step i sb = Inr sb'" and "i < length (shdrs sb)"
  shows "case link_target (shdrs sb ! i) of
      None \<Rightarrow> sb' = sb
    | Some t \<Rightarrow> \<exists>ix. ShdrBuilder_GetIndex t sb = Inr ix
        \<and> sb' = sb\<lparr>shdrs := (shdrs sb)[i := (shdrs sb ! i)\<lparr>sh_link := ix\<rparr>]\<rparr>"
  using assms(1) by (auto simp: Freeze_step_def link_target_def has_kind_def Let_def split: if_splits)

lemma Freeze_loop:
  assumes "rfold Freeze_step [0..<n] sb = Inr sb'" and "n \<le> length (shdrs sb)"
  shows "map sh_name (shdrs sb') = map sh_name (shdrs sb)
    \<and> (\<forall>i < n. \<forall>t. link_target (shdrs sb' ! i) = Some t \<longrightarrow>
          ShdrBuilder_GetIndex t sb = Inr (sh_link (shdrs sb' ! i)))"
  using assms
proof (induction n arbitrary: sb')
  case 0
  then show ?case by simp
next
  case (Suc n)
  then obtain sb1 where 1: "rfold Freeze_step [0..<n] sb = Inr sb1" "Freeze_step n sb1 = Inr sb'"
    by (auto simp: rfold_append)
  with Suc have names: "map sh_name (shdrs sb1) = map sh_name (shdrs sb)"
    and links: "\<forall>i < n. \<forall>t. link_target (shdrs sb1 ! i) = Some t \<longrightarrow>
        ShdrBuilder_GetIndex t sb = Inr (sh_link (shdrs sb1 ! i))" by auto
  have len: "length (shdrs sb1) = length (shdrs sb)" using names by (metis length_map)
  have n: "n < length (shdrs sb1)" using Suc.prems(2) len by simp
  have ix: "ShdrBuilder_GetIndex t sb1 = ShdrBuilder_GetIndex t sb" for t
    unfolding ShdrBuilder_GetIndex_def by (rule GetIndex_loop_names [OF names])
  show ?case
  proof (cases "link_target (shdrs sb1 ! n)")
    case None
    with Freeze_step_cases [OF 1(2) n] have "sb' = sb1" by simp
    with None names links show ?thesis by (auto simp: less_Suc_eq)
  next
    case (Some t)
    with Freeze_step_cases [OF 1(2) n] obtain j where j: "ShdrBuilder_GetIndex t sb1 = Inr j"
      and sb': "sb' = sb1\<lparr>shdrs := (shdrs sb1)[n := (shdrs sb1 ! n)\<lparr>sh_link := j\<rparr>]\<rparr>" by auto
    have "link_target (s\<lparr>sh_link := j\<rparr>) = link_target s" for s by (simp add: link_target_def has_kind_def)
    then have same: "link_target ((shdrs sb1 ! n)\<lparr>sh_link := j\<rparr>) = Some t" using Some by simp
    have "map sh_name (shdrs sb') = map sh_name (shdrs sb)"
      unfolding sb' using names n by (simp add: map_update) (metis list_update_id map_update nth_map)
    then show ?thesis using links j same n by (auto simp: sb' less_Suc_eq nth_list_update ix)
  qed
qed

text \<open>
  C28: after \<^verbatim>\<open>Freeze\<close>, when \<^verbatim>\<open>.shstrtab\<close> was registered last as the linker does, the \<^verbatim>\<open>sh_link\<close> of
  every header of the file leads, in the table as it is emitted, to the header of the section it
  belongs to: \<^verbatim>\<open>.dynsym\<close> for hash, relocation and version sections, \<^verbatim>\<open>.dynstr\<close> for the others.
\<close>
theorem ShdrBuilder_Freeze_links:
  assumes "ShdrBuilder_Freeze sb = Inr sb'" and "length (shdrs sb) < 2 ^ 16"
    and "shdrs sb = ss @ [s0]" and "\<forall>s \<in> set ss. \<not> has_kind Shstrtab s" and "has_kind Shstrtab s0"
  shows "\<forall>s \<in> set (emitted_shdrs (shdrs sb')). \<forall>t. link_target s = Some t \<longrightarrow>
    unat (sh_link s) < length (shdrs sb) \<and> has_kind t (emitted_shdrs (shdrs sb') ! unat (sh_link s))"
proof -
  have names: "map sh_name (shdrs sb') = map sh_name (shdrs sb)"
    and links: "\<forall>i < length (shdrs sb). \<forall>t. link_target (shdrs sb' ! i) = Some t \<longrightarrow>
        ShdrBuilder_GetIndex t sb = Inr (sh_link (shdrs sb' ! i))"
    using Freeze_loop [OF assms(1) [unfolded ShdrBuilder_Freeze_def]] by auto
  have len: "length (shdrs sb') = length (shdrs sb)" using names by (metis length_map)
  have kind: "has_kind t (shdrs sb' ! i) = has_kind t (shdrs sb ! i)" if "i < length (shdrs sb)" for t i
    using names that len unfolding has_kind_def by (metis nth_map)
  obtain us u where us: "shdrs sb' = us @ [u]" using len assms(3) by (cases "shdrs sb'" rule: rev_cases) auto
  then have lus: "length us = length ss" using len assms(3) by simp
  have "\<not> has_kind Shstrtab v" if v: "v \<in> set us" for v
  proof -
    from v obtain i where i: "i < length us" "us ! i = v" by (auto simp: in_set_conv_nth)
    then have "has_kind Shstrtab v = has_kind Shstrtab (ss ! i)"
      using kind [of i Shstrtab] lus us assms(3) by (simp add: nth_append)
    with i lus assms(4) show ?thesis by simp
  qed
  moreover have "has_kind Shstrtab u"
    using kind [of "length ss" Shstrtab] lus us assms(3,5) by (simp add: nth_append)
  ultimately have em: "emitted_shdrs (shdrs sb') = shdrs sb'"
    using us by (simp add: emitted_shdrs_def filter_id_conv filter_empty_conv)
  show ?thesis unfolding em
  proof (intro ballI allI impI)
    fix s t
    assume "s \<in> set (shdrs sb')" and t: "link_target s = Some t"
    then obtain i where i: "i < length (shdrs sb)" "shdrs sb' ! i = s" using len by (auto simp: in_set_conv_nth)
    with t links have "ShdrBuilder_GetIndex t sb = Inr (sh_link s)" by auto
    then obtain k where k: "k < length (shdrs sb)" "sh_link s = of_nat k" "has_kind t (shdrs sb ! k)"
      unfolding ShdrBuilder_GetIndex_def has_kind_def by (auto dest: GetIndex_loop_Inr)
    define m where "m = (2 :: nat) ^ 32"
    have "k < m" using k(1) assms(2) by (simp add: m_def)
    then have "unat (sh_link s) = k" using k(2) by (simp add: unat_of_nat m_def)
    with k kind show "unat (sh_link s) < length (shdrs sb) \<and> has_kind t (shdrs sb' ! unat (sh_link s))" by simp
  qed
qed

theorem ShdrBuilder_Freeze_links_witness:
  "\<exists>sb'. ShdrBuilder_Freeze \<lparr>shdrs = [null_shdr, null_shdr\<lparr>sh_name := 11\<rparr>, null_shdr\<lparr>sh_name := 47\<rparr>, null_shdr\<lparr>sh_name := 97\<rparr>]\<rparr>
      = Inr sb'
    \<and> (\<forall>s \<in> set (emitted_shdrs (shdrs sb')). link_target s = Some Dynstr \<longrightarrow>
        has_kind Dynstr (emitted_shdrs (shdrs sb') ! unat (sh_link s)))"
proof -
  let ?ss = "[null_shdr, null_shdr\<lparr>sh_name := 11\<rparr>, null_shdr\<lparr>sh_name := 47\<rparr>]"
  let ?s0 = "null_shdr\<lparr>sh_name := 97\<rparr>"
  let ?sb = "\<lparr>shdrs = [null_shdr, null_shdr\<lparr>sh_name := 11\<rparr>, null_shdr\<lparr>sh_name := 47\<rparr>, ?s0]\<rparr>"
  obtain sb' where f: "ShdrBuilder_Freeze ?sb = Inr sb'"
    by (simp add: ShdrBuilder_Freeze_def Freeze_step_def GetShName_value ShdrBuilder_GetIndex_def null_shdr_def
        upt_conv_Cons Let_def)
  have h: "length (shdrs ?sb) < 2 ^ 16" "shdrs ?sb = ?ss @ [?s0]" "\<forall>s \<in> set ?ss. \<not> has_kind Shstrtab s"
    "has_kind Shstrtab ?s0" by (simp_all add: has_kind_def GetShName_value null_shdr_def)
  from ShdrBuilder_Freeze_links [OF f h] f show ?thesis by blast
qed

end
