(* ===== verification/EHFrame.thy ===== *)
theory EHFrame
  imports Utils
begin

text \<open>
  \<^verbatim>\<open>ehframe_builder.h\<close> and the \<^verbatim>\<open>EHFrameHeader\<close> of \<^verbatim>\<open>utils.h\<close>: the binary search table of the linked
  objects' exception frames, merged into one \<^verbatim>\<open>.eh_frame_hdr\<close>. Signed 32-bit fields are words;
  an addition of two of them that leaves the signed range is \<^const>\<open>Undefined\<close>, as in C++.
\<close>

section \<open>Data\<close>

abbreviation (input) DW_EH_PE_absptr :: u8 where "DW_EH_PE_absptr \<equiv> 0x00"
abbreviation (input) DW_EH_PE_omit :: u8 where "DW_EH_PE_omit \<equiv> 0xff"
abbreviation (input) DW_EH_PE_uleb128 :: u8 where "DW_EH_PE_uleb128 \<equiv> 0x01"
abbreviation (input) DW_EH_PE_udata2 :: u8 where "DW_EH_PE_udata2 \<equiv> 0x02"
abbreviation (input) DW_EH_PE_udata4 :: u8 where "DW_EH_PE_udata4 \<equiv> 0x03"
abbreviation (input) DW_EH_PE_udata8 :: u8 where "DW_EH_PE_udata8 \<equiv> 0x04"
abbreviation (input) DW_EH_PE_sleb128 :: u8 where "DW_EH_PE_sleb128 \<equiv> 0x09"
abbreviation (input) DW_EH_PE_sdata2 :: u8 where "DW_EH_PE_sdata2 \<equiv> 0x0A"
abbreviation (input) DW_EH_PE_sdata4 :: u8 where "DW_EH_PE_sdata4 \<equiv> 0x0B"
abbreviation (input) DW_EH_PE_sdata8 :: u8 where "DW_EH_PE_sdata8 \<equiv> 0x0C"
abbreviation (input) DW_EH_PE_pcrel :: u8 where "DW_EH_PE_pcrel \<equiv> 0x10"
abbreviation (input) DW_EH_PE_textrel :: u8 where "DW_EH_PE_textrel \<equiv> 0x20"
abbreviation (input) DW_EH_PE_datarel :: u8 where "DW_EH_PE_datarel \<equiv> 0x30"
abbreviation (input) DW_EH_PE_funcrel :: u8 where "DW_EH_PE_funcrel \<equiv> 0x40"
abbreviation (input) DW_EH_PE_aligned :: u8 where "DW_EH_PE_aligned \<equiv> 0x50"
abbreviation (input) DW_EH_PE_indirect :: u8 where "DW_EH_PE_indirect \<equiv> 0x80"
abbreviation (input) DW_EH_PE_SOLD_DUMMY :: u8 where "DW_EH_PE_SOLD_DUMMY \<equiv> 0xee"

record FDETableEntry =
  te_initial_loc :: u32
  te_fde_ptr :: u32

record CIE =
  cie_length :: u32
  cie_CIE_id :: u32
  cie_version :: u8
  cie_aug_str :: string
  cie_FDE_encoding :: u8
  cie_LSDA_encoding :: u8

record FDE =
  fde_length :: u32
  fde_extended_length :: u64
  fde_CIE_delta :: u32
  fde_initial_loc :: u32

record EHFrameHeader =
  eh_version :: u8
  eh_frame_ptr_enc :: u8
  eh_fde_count_enc :: u8
  eh_table_enc :: u8
  eh_frame_ptr :: u32
  eh_fde_count :: u32
  eh_table :: "FDETableEntry list"
  eh_fdes :: "FDE list"
  eh_cies :: "CIE list"

section \<open>The builder\<close>

record EHFrameBuilder =
  eh_frame_header :: EHFrameHeader

definition EHFrameBuilder_new :: EHFrameBuilder where
  "EHFrameBuilder_new = \<lparr>eh_frame_header = \<lparr>
     eh_version = 1, eh_frame_ptr_enc = DW_EH_PE_sdata4 + DW_EH_PE_pcrel, eh_fde_count_enc = DW_EH_PE_udata4,
     eh_table_enc = DW_EH_PE_sdata4 OR DW_EH_PE_datarel, eh_frame_ptr = 0, eh_fde_count = 0,
     eh_table = [], eh_fdes = [], eh_cies = []\<rparr>\<rparr>"

definition enc_FDETableEntry :: "FDETableEntry \<Rightarrow> u8 list" where
  "enc_FDETableEntry te = le_bytes 4 (te_initial_loc te) @ le_bytes 4 (te_fde_ptr te)"

definition EHFrameBuilder_Emit :: "EHFrameBuilder \<Rightarrow> stream \<Rightarrow> stream res" where
  "EHFrameBuilder_Emit eb fp =
     (let h = eh_frame_header eb
      in rbind (WriteBuf (le_bytes 1 (eh_version h)) fp) (\<lambda>fp.
         rbind (WriteBuf (le_bytes 1 (eh_frame_ptr_enc h)) fp) (\<lambda>fp.
         rbind (WriteBuf (le_bytes 1 (eh_fde_count_enc h)) fp) (\<lambda>fp.
         rbind (WriteBuf (le_bytes 1 (eh_table_enc h)) fp) (\<lambda>fp.
         rbind (WriteBuf (le_bytes 4 (eh_frame_ptr h)) fp) (\<lambda>fp.
         rbind (WriteBuf (le_bytes 4 (eh_fde_count h)) fp) (\<lambda>fp.
         rfold (\<lambda>te fp.
            rbind (WriteBuf (le_bytes 4 (te_initial_loc te)) fp) (\<lambda>fp. WriteBuf (le_bytes 4 (te_fde_ptr te)) fp))
           (eh_table h) fp)))))))"

text \<open>The multiplication is of the 32-bit count with a \<^verbatim>\<open>size_t\<close>.\<close>

definition EHFrameBuilder_Size :: "EHFrameBuilder \<Rightarrow> u64" where
  "EHFrameBuilder_Size eb = 1 + 1 + 1 + 1 + 4 + 4 + ucast (eh_fde_count (eh_frame_header eb)) * (4 + 4)"

definition s32_add :: "u32 \<Rightarrow> u32 \<Rightarrow> u32 res" where
  "s32_add a b = (if - (2 ^ 31) \<le> sint a + sint b \<and> sint a + sint b < 2 ^ 31 then Inr (a + b) else Inl Undefined)"

definition rebase :: "u64 \<Rightarrow> u64 \<Rightarrow> u64 \<Rightarrow> u32 \<Rightarrow> u32 res" where
  "rebase efh_vaddr load_offset new_efh_vaddr p =
     rbind (s32_add (ucast efh_vaddr) p) (\<lambda>a.
     rbind (s32_add a (ucast load_offset)) (\<lambda>b.
     Inr (ucast ((scast b :: u64) - new_efh_vaddr))))"

definition EHFrameBuilder_Add ::
  "EHFrameHeader \<Rightarrow> u64 \<Rightarrow> u64 \<Rightarrow> u64 \<Rightarrow> EHFrameBuilder \<Rightarrow> EHFrameBuilder res" where
  "EHFrameBuilder_Add efh efh_vaddr load_offset new_efh_vaddr eb =
     (let h = eh_frame_header eb; h = h\<lparr>eh_fde_count := eh_fde_count h + eh_fde_count efh\<rparr>
      in rbind (rfold (\<lambda>te h.
            rbind (rebase efh_vaddr load_offset new_efh_vaddr (te_fde_ptr te)) (\<lambda>p.
            rbind (rebase efh_vaddr load_offset new_efh_vaddr (te_initial_loc te)) (\<lambda>l.
            Inr (h\<lparr>eh_table := eh_table h @ [\<lparr>te_initial_loc = l, te_fde_ptr = p\<rparr>]\<rparr>))))
           (eh_table efh) h)
         (\<lambda>h. Inr (eb\<lparr>eh_frame_header := h\<rparr>)))"

definition EHFrameBuilder_fde_count :: "EHFrameBuilder \<Rightarrow> u32" where
  "EHFrameBuilder_fde_count eb = eh_fde_count (eh_frame_header eb)"

section \<open>Addresses\<close>

text \<open>The address a table field refers to, when the table is at \<^verbatim>\<open>base\<close>.\<close>

definition target :: "u64 \<Rightarrow> u32 \<Rightarrow> u64" where
  "target base p = base + scast p"

definition near :: "u64 \<Rightarrow> u64 \<Rightarrow> bool" where
  "near a base \<longleftrightarrow> - (2 ^ 31) \<le> sint (a - base) \<and> sint (a - base) < 2 ^ 31"

lemma ucast_scast_32 [simp]: "ucast (scast (a :: u32) :: u64) = a"
  by (rule bit_word_eqI) (simp add: bit_simps)

lemma ucast_down_add: "ucast (x + y :: u64) = (ucast x + ucast y :: u32)"
proof -
  have "uint (ucast (x + y) :: u32) = uint (ucast x + ucast y :: u32)"
    by (simp add: unsigned_ucast_eq uint_word_ariths take_bit_eq_mod mod_simps mod_mod_cancel)
  then show ?thesis by (simp only: word_uint_eq_iff)
qed

lemma ucast_down_diff: "ucast (x - y :: u64) = (ucast x - ucast y :: u32)"
  using ucast_down_add [of "x - y" y] by (simp add: algebra_simps)

lemma scast_ucast_near:
  assumes "- (2 ^ 31) \<le> sint (x :: u64)" and "sint x < 2 ^ 31"
  shows "scast (ucast x :: u32) = x"
proof -
  have "sint (ucast x :: u32) = signed_take_bit 31 (sint x)"
    by (rule bit_eqI) (simp add: signed_ucast_eq bit_signed_take_bit_iff bit_sint_iff bit_uint_iff min_def)
  also have "\<dots> = sint x" using assms by (simp add: signed_take_bit_int_eq_self)
  finally have "sint (ucast x :: u32) = sint x" .
  moreover have "scast (ucast x :: u32) = (word_of_int (sint (ucast x :: u32)) :: u64)" by simp
  ultimately show ?thesis by simp
qed

lemma rebase_word:
  assumes "rebase efh_vaddr load_offset new_efh_vaddr p = Inr q"
  shows "q = ucast (target (efh_vaddr + load_offset) p - new_efh_vaddr)"
  using assms by (auto simp: rebase_def s32_add_def target_def ucast_down_diff ucast_down_add split: if_splits)

text \<open>A rebased field refers to the old field's address in the linked image.\<close>

lemma rebase_target:
  assumes "rebase efh_vaddr load_offset new_efh_vaddr p = Inr q"
    and "near (target (efh_vaddr + load_offset) p) new_efh_vaddr"
  shows "target new_efh_vaddr q = target (efh_vaddr + load_offset) p"
proof -
  have "scast q = target (efh_vaddr + load_offset) p - new_efh_vaddr"
    using assms(2) unfolding rebase_word [OF assms(1)] near_def by (intro scast_ucast_near) auto
  then show ?thesis by (simp add: target_def [of new_efh_vaddr])
qed

definition same_targets :: "u64 \<Rightarrow> u64 \<Rightarrow> FDETableEntry \<Rightarrow> FDETableEntry \<Rightarrow> bool" where
  "same_targets old_base new_base old new \<longleftrightarrow>
     (near (target old_base (te_initial_loc old)) new_base
        \<longrightarrow> target new_base (te_initial_loc new) = target old_base (te_initial_loc old))
     \<and> (near (target old_base (te_fde_ptr old)) new_base
        \<longrightarrow> target new_base (te_fde_ptr new) = target old_base (te_fde_ptr old))"

lemma Add_loop:
  assumes "rfold (\<lambda>te h.
            rbind (rebase efh_vaddr load_offset new_efh_vaddr (te_fde_ptr te)) (\<lambda>p.
            rbind (rebase efh_vaddr load_offset new_efh_vaddr (te_initial_loc te)) (\<lambda>l.
            Inr (h\<lparr>eh_table := eh_table h @ [\<lparr>te_initial_loc = l, te_fde_ptr = p\<rparr>]\<rparr>)))) tes h = Inr h'"
  shows "\<exists>news. h' = h\<lparr>eh_table := eh_table h @ news\<rparr>
    \<and> list_all2 (same_targets (efh_vaddr + load_offset) new_efh_vaddr) tes news"
  using assms
proof (induction tes arbitrary: h)
  case Nil
  then show ?case by (intro exI [of _ "[]"]) simp
next
  case (Cons te tes)
  let ?f = "\<lambda>te h.
            rbind (rebase efh_vaddr load_offset new_efh_vaddr (te_fde_ptr te)) (\<lambda>p.
            rbind (rebase efh_vaddr load_offset new_efh_vaddr (te_initial_loc te)) (\<lambda>l.
            Inr (h\<lparr>eh_table := eh_table h @ [\<lparr>te_initial_loc = l, te_fde_ptr = p\<rparr>]\<rparr>)))"
  from Cons.prems obtain p l where p: "rebase efh_vaddr load_offset new_efh_vaddr (te_fde_ptr te) = Inr p"
    and l: "rebase efh_vaddr load_offset new_efh_vaddr (te_initial_loc te) = Inr l"
    and rest: "rfold ?f tes (h\<lparr>eh_table := eh_table h @ [\<lparr>te_initial_loc = l, te_fde_ptr = p\<rparr>]\<rparr>) = Inr h'"
    by auto
  from Cons.IH [OF rest] obtain news where
    news: "h' = h\<lparr>eh_table := eh_table h @ \<lparr>te_initial_loc = l, te_fde_ptr = p\<rparr> # news\<rparr>"
    "list_all2 (same_targets (efh_vaddr + load_offset) new_efh_vaddr) tes news" by auto
  have "same_targets (efh_vaddr + load_offset) new_efh_vaddr te \<lparr>te_initial_loc = l, te_fde_ptr = p\<rparr>"
    using rebase_target [OF p] rebase_target [OF l] by (simp add: same_targets_def)
  with news show ?case by (intro exI [of _ "\<lparr>te_initial_loc = l, te_fde_ptr = p\<rparr> # news"]) simp
qed

text \<open>
  C20: merging an object's table. The entries before it stay, its own come behind them in their
  order, and every address they hold is, relative to the new header, the address it was relative
  to the object's header in the linked image, provided it is within 2 GiB of the new header.
\<close>
theorem EHFrameBuilder_Add_targets:
  assumes "EHFrameBuilder_Add efh efh_vaddr load_offset new_efh_vaddr eb = Inr eb'"
  shows "EHFrameBuilder_fde_count eb' = EHFrameBuilder_fde_count eb + eh_fde_count efh
    \<and> (\<exists>news. eh_table (eh_frame_header eb') = eh_table (eh_frame_header eb) @ news
        \<and> list_all2 (same_targets (efh_vaddr + load_offset) new_efh_vaddr) (eh_table efh) news)"
proof -
  let ?h = "(eh_frame_header eb)\<lparr>eh_fde_count := eh_fde_count (eh_frame_header eb) + eh_fde_count efh\<rparr>"
  from assms obtain h' where h': "rfold (\<lambda>te h.
            rbind (rebase efh_vaddr load_offset new_efh_vaddr (te_fde_ptr te)) (\<lambda>p.
            rbind (rebase efh_vaddr load_offset new_efh_vaddr (te_initial_loc te)) (\<lambda>l.
            Inr (h\<lparr>eh_table := eh_table h @ [\<lparr>te_initial_loc = l, te_fde_ptr = p\<rparr>]\<rparr>)))) (eh_table efh) ?h = Inr h'"
    "eb' = eb\<lparr>eh_frame_header := h'\<rparr>"
    by (auto simp: EHFrameBuilder_Add_def Let_def)
  from Add_loop [OF h'(1)] h'(2) show ?thesis by (auto simp: EHFrameBuilder_fde_count_def)
qed

theorem EHFrameBuilder_Add_targets_witness:
  "\<exists>eb' te. EHFrameBuilder_Add ((eh_frame_header EHFrameBuilder_new)
        \<lparr>eh_fde_count := 1, eh_table := [\<lparr>te_initial_loc = - 0x100, te_fde_ptr = 0x20\<rparr>]\<rparr>)
      0x2000 0x10000000 0x10010000 EHFrameBuilder_new = Inr eb'
    \<and> eh_table (eh_frame_header eb') = [te] \<and> target 0x10010000 (te_initial_loc te) = 0x10001f00"
proof -
  let ?efh = "(eh_frame_header EHFrameBuilder_new)
        \<lparr>eh_fde_count := 1, eh_table := [\<lparr>te_initial_loc = - 0x100, te_fde_ptr = 0x20\<rparr>]\<rparr>"
  obtain eb' where eb': "EHFrameBuilder_Add ?efh 0x2000 0x10000000 0x10010000 EHFrameBuilder_new = Inr eb'"
    by (simp add: EHFrameBuilder_Add_def rebase_def s32_add_def EHFrameBuilder_new_def Let_def)
  have t: "target (0x2000 + 0x10000000) (- 0x100) = 0x10001f00" "near 0x10001f00 0x10010000"
    by (simp_all add: target_def near_def)
  have e: "eh_table ?efh = [\<lparr>te_initial_loc = - 0x100, te_fde_ptr = 0x20\<rparr>]"
    "eh_table (eh_frame_header EHFrameBuilder_new) = []" by (simp_all add: EHFrameBuilder_new_def)
  from EHFrameBuilder_Add_targets [OF eb'] e obtain te where "eh_table (eh_frame_header eb') = [te]"
    "same_targets (0x2000 + 0x10000000) 0x10010000 \<lparr>te_initial_loc = - 0x100, te_fde_ptr = 0x20\<rparr> te"
    by (auto simp: list_all2_Cons1)
  with t eb' show ?thesis by (auto simp: same_targets_def)
qed

text \<open>The table has as many entries as the header says.\<close>

definition count_ok :: "EHFrameHeader \<Rightarrow> bool" where
  "count_ok h \<longleftrightarrow> unat (eh_fde_count h) = length (eh_table h)"

lemma count_ok_new [wf_intros]: "count_ok (eh_frame_header EHFrameBuilder_new)"
  by (simp add: count_ok_def EHFrameBuilder_new_def)

lemma count_ok_Add [wf_intros]:
  assumes "EHFrameBuilder_Add efh v l n eb = Inr eb'" and "count_ok (eh_frame_header eb)" and "count_ok efh"
    and "length (eh_table (eh_frame_header eb')) < 2 ^ 32"
  shows "count_ok (eh_frame_header eb')"
proof -
  from assms(1) obtain h' where h': "rfold (\<lambda>te h.
            rbind (rebase v l n (te_fde_ptr te)) (\<lambda>p.
            rbind (rebase v l n (te_initial_loc te)) (\<lambda>l.
            Inr (h\<lparr>eh_table := eh_table h @ [\<lparr>te_initial_loc = l, te_fde_ptr = p\<rparr>]\<rparr>)))) (eh_table efh)
       ((eh_frame_header eb)\<lparr>eh_fde_count := eh_fde_count (eh_frame_header eb) + eh_fde_count efh\<rparr>) = Inr h'"
    "eb' = eb\<lparr>eh_frame_header := h'\<rparr>"
    by (auto simp: EHFrameBuilder_Add_def Let_def)
  from Add_loop [OF h'(1)] obtain news where
    "h' = (eh_frame_header eb)\<lparr>eh_fde_count := eh_fde_count (eh_frame_header eb) + eh_fde_count efh,
        eh_table := eh_table (eh_frame_header eb) @ news\<rparr>" "length news = length (eh_table efh)"
    by (auto dest: list_all2_lengthD)
  moreover define m where "m = (2 :: nat) ^ 32"
  ultimately show ?thesis
    using assms(2-4) h'(2) by (simp add: count_ok_def unat_word_ariths flip: m_def)
qed

text \<open>
  the size the layout reserves for the merged \<^verbatim>\<open>.eh_frame_hdr\<close> is the number of bytes \<^verbatim>\<open>Emit\<close>
  writes, for every header whose count is that of its table (which \<^verbatim>\<open>Add\<close> maintains).
\<close>
theorem EHFrameBuilder_Emit_Size:
  assumes "count_ok (eh_frame_header eb)"
  shows "\<exists>bs. EHFrameBuilder_Emit eb fp = Inr (fp @ bs) \<and> length bs = unat (EHFrameBuilder_Size eb)"
proof -
  let ?h = "eh_frame_header eb"
  have loop: "rfold (\<lambda>te fp. rbind (WriteBuf (le_bytes 4 (te_initial_loc te)) fp) (\<lambda>fp. WriteBuf (le_bytes 4 (te_fde_ptr te)) fp)) tes fp
      = Inr (fp @ concat (map enc_FDETableEntry tes))" for tes fp
    by (induction tes arbitrary: fp) (auto simp: WriteBuf_def enc_FDETableEntry_def)
  have len: "length (concat (map enc_FDETableEntry tes)) = 8 * length tes" for tes
    by (induction tes) (auto simp: enc_FDETableEntry_def)
  have bound: "unat (eh_fde_count ?h) < 2 ^ 32" using unsigned_less [of "eh_fde_count ?h", where ?'a = nat] by simp
  have "unat (EHFrameBuilder_Size eb) = 12 + 8 * unat (eh_fde_count ?h)"
  proof -
    have "EHFrameBuilder_Size eb = of_nat (12 + 8 * unat (eh_fde_count ?h))"
      by (simp add: EHFrameBuilder_Size_def)
    moreover have "unat (of_nat n :: u64) = n" if "n < 2 ^ 64" for n using that by (simp add: unat_of_nat)
    moreover have "12 + 8 * unat (eh_fde_count ?h) < 2 ^ 64" using bound by simp
    ultimately show ?thesis by (simp only:)
  qed
  then have "unat (EHFrameBuilder_Size eb) = 12 + 8 * length (eh_table ?h)" using assms by (simp add: count_ok_def)
  then show ?thesis
    unfolding EHFrameBuilder_Emit_def Let_def loop
    by (simp add: WriteBuf_def len)
qed

theorem EHFrameBuilder_Emit_Size_witness:
  "\<exists>bs. EHFrameBuilder_Emit EHFrameBuilder_new [] = Inr bs \<and> length bs = 12"
  using EHFrameBuilder_Emit_Size [OF count_ok_new, of "[]"]
  by (simp add: EHFrameBuilder_Size_def EHFrameBuilder_new_def)

end
