(* ===== verification/Leb128.thy ===== *)
theory Leb128
  imports EHFrame
begin

text \<open>
  The readers of DWARF values in \<^verbatim>\<open>utils.cc\<close>: \<^verbatim>\<open>read_uleb128\<close>, \<^verbatim>\<open>read_sleb128\<close> and
  \<^verbatim>\<open>read_encoded_value_with_base\<close>. A pointer \<open>p\<close> is an offset into the mapped file; reading outside of
  it is \<^const>\<open>Bad_access\<close>. A shift by 32 or more of the 32-bit result is \<^const>\<open>Undefined\<close>, as in C++.
\<close>

section \<open>Reading bytes at a natural number offset\<close>

definition byte_at :: "image \<Rightarrow> nat \<Rightarrow> u8 res" where
  "byte_at img p = (if p < length img then Inr (img ! p) else Inl Bad_access)"

definition word_at :: "nat \<Rightarrow> image \<Rightarrow> nat \<Rightarrow> 'a::len word res" where
  "word_at n img p = (if p + n \<le> length img then Inr (le_word (take n (drop p img))) else Inl Bad_access)"

lemma byte_at_Inr [simp]: "byte_at img p = Inr b \<longleftrightarrow> p < length img \<and> img ! p = b"
  by (simp add: byte_at_def)

lemma word_at_append:
  assumes "8 * n \<ge> LENGTH('a)" and "length pre = p"
  shows "word_at n (pre @ le_bytes n w @ post) p = Inr (w :: 'a::len word)"
  using assms by (simp add: word_at_def)

section \<open>LEB128\<close>

function read_uleb128_loop :: "image \<Rightarrow> nat \<Rightarrow> nat \<Rightarrow> u32 \<Rightarrow> (nat \<times> u32) res" where
  "read_uleb128_loop img p shift result =
     rbind (byte_at img p) (\<lambda>byte.
     if shift \<ge> 32 then Inl Undefined
     else let result = result OR push_bit shift (ucast byte AND 0x7f)
          in if byte AND 0x80 \<noteq> 0 then read_uleb128_loop img (p + 1) (shift + 7) result
             else Inr (p + 1, result))"
  by pat_completeness auto
termination
  by (relation "measure (\<lambda>(img, p, shift, result). length img - p)") auto

declare read_uleb128_loop.simps [simp del]

definition read_uleb128 :: "image \<Rightarrow> nat \<Rightarrow> (nat \<times> u32) res" where
  "read_uleb128 img p = read_uleb128_loop img p 0 0"

function read_sleb128_loop :: "image \<Rightarrow> nat \<Rightarrow> nat \<Rightarrow> u32 \<Rightarrow> (nat \<times> nat \<times> u8 \<times> u32) res" where
  "read_sleb128_loop img p shift result =
     rbind (byte_at img p) (\<lambda>byte.
     if shift \<ge> 32 then Inl Undefined
     else let result = result OR push_bit shift (ucast byte AND 0x7f)
          in if byte AND 0x80 \<noteq> 0 then read_sleb128_loop img (p + 1) (shift + 7) result
             else Inr (p + 1, shift + 7, byte, result))"
  by pat_completeness auto
termination
  by (relation "measure (\<lambda>(img, p, shift, result). length img - p)") auto

declare read_sleb128_loop.simps [simp del]

text \<open>\<^verbatim>\<open>-(1L << shift)\<close>, truncated to the 32 bits of \<^verbatim>\<open>result\<close>.\<close>

definition read_sleb128 :: "image \<Rightarrow> nat \<Rightarrow> (nat \<times> u32) res" where
  "read_sleb128 img p =
     rbind (read_sleb128_loop img p 0 0) (\<lambda>(p, shift, byte, result).
     Inr (p, if shift < 8 * 4 \<and> byte AND 0x40 \<noteq> 0 then result OR - push_bit shift 1 else result))"

section \<open>Encoders as the DWARF standard gives them\<close>

fun uleb_enc :: "nat \<Rightarrow> u8 list" where
  "uleb_enc n = (if n < 128 then [of_nat n] else (of_nat (n mod 128) OR 0x80) # uleb_enc (n div 128))"

declare uleb_enc.simps [simp del]

function sleb_enc :: "int \<Rightarrow> u8 list" where
  "sleb_enc n = (if - 64 \<le> n \<and> n < 64 then [of_int n AND 0x7f] else (of_int n OR 0x80) # sleb_enc (n div 128))"
  by pat_completeness auto
termination
  by (relation "measure (\<lambda>n. nat (abs n))") auto

declare sleb_enc.simps [simp del]

section \<open>Round trips\<close>

lemma bit_of_nat_w: "bit (of_nat n :: 'a::len word) k \<longleftrightarrow> k < LENGTH('a) \<and> bit n k"
  using bit_word_of_int_iff [where ?'a = 'a, of "int n" k] by (simp add: bit_of_nat_iff_bit)

lemma b128: "bit (0x80 :: 'a::len word) k \<longleftrightarrow> k = 7 \<and> 7 < LENGTH('a)"
proof -
  have "(0x80 :: 'a word) = push_bit 7 1" by simp
  then have "bit (0x80 :: 'a word) k \<longleftrightarrow> bit (push_bit 7 (1 :: 'a word)) k" by simp
  also have "\<dots> \<longleftrightarrow> k = 7 \<and> 7 < LENGTH('a)" unfolding bit_push_bit_iff by (auto simp: bit_1_iff)
  finally show ?thesis .
qed

lemma b128i: "bit (128 :: int) k \<longleftrightarrow> k = 7"
proof -
  have "(128 :: int) = push_bit 7 1" by simp
  then have "bit (128 :: int) k \<longleftrightarrow> bit (push_bit 7 (1 :: int)) k" by simp
  also have "\<dots> \<longleftrightarrow> k = 7" unfolding bit_push_bit_iff by (auto simp: bit_1_iff)
  finally show ?thesis .
qed

lemma split7: "(of_nat (n mod 128) OR push_bit 7 (of_nat (n div 128)) :: 'a::len word) = of_nat n"
proof -
  have "n mod 128 = take_bit 7 n" "n div 128 = drop_bit 7 n" by (simp_all add: take_bit_eq_mod drop_bit_eq_div)
  then show ?thesis
    by (intro bit_word_eqI) (auto simp: bit_or_iff bit_push_bit_iff bit_take_bit_iff bit_drop_bit_eq bit_of_nat_w)
qed

lemma low7: "(ucast (of_nat m :: u8) AND 0x7f :: u32) = of_nat (m mod 128)"
proof -
  have m: "(0x7f :: u32) = mask 7" "m mod 128 = take_bit 7 m" by (simp_all add: mask_eq_exp_minus_1 take_bit_eq_mod)
  show ?thesis unfolding m 
    by (intro bit_word_eqI) (auto simp: bit_simps bit_of_nat_w b128 b128i)
qed

lemma low7c: "(ucast (of_nat m OR 0x80 :: u8) AND 0x7f :: u32) = of_nat (m mod 128)"
proof -
  have m: "(0x7f :: u32) = mask 7" "m mod 128 = take_bit 7 m" by (simp_all add: mask_eq_exp_minus_1 take_bit_eq_mod)
  show ?thesis unfolding m 
    by (intro bit_word_eqI) (auto simp: bit_simps bit_of_nat_w b128 b128i)
qed

lemma high: "(x OR 0x80 :: u8) AND 0x80 \<noteq> 0" "m < 128 \<Longrightarrow> (of_nat m :: u8) AND 0x80 = 0"
proof -
  have "(x OR 0x80 :: u8) AND 0x80 = 0x80" by (intro bit_word_eqI) (auto simp: bit_simps b128)
  then show "(x OR 0x80 :: u8) AND 0x80 \<noteq> 0" by simp
  assume "m < 128"
  then have t: "m = take_bit 7 m" by (simp add: take_bit_eq_mod)
  have "(of_nat (take_bit 7 m) :: u8) AND 0x80 = 0"
    by (intro bit_word_eqI) (auto simp: bit_simps bit_of_nat_w b128 b128i)
  then show "(of_nat m :: u8) AND 0x80 = 0" using t by simp
qed

lemma read_uleb128_loop_enc:
  assumes "0 < n \<or> s = 0" and "n * 2 ^ s < 2 ^ 32"
  shows "read_uleb128_loop (pre @ uleb_enc n @ post) (length pre) s r
    = Inr (length pre + length (uleb_enc n), r OR push_bit s (of_nat n))"
  using assms
proof (induction n arbitrary: pre s r rule: uleb_enc.induct)
  case (1 n)
  have s: "s < 32"
  proof (cases "s = 0")
    case False
    with 1(2) have "1 \<le> n" by simp
    then have "2 ^ s \<le> n * 2 ^ s" by simp
    with 1(3) have "(2::nat) ^ s < 2 ^ 32" by linarith
    then show ?thesis by (simp only: power_strict_increasing_iff)
  qed simp
  show ?case
  proof (cases "n < 128")
    case True
    then have m: "(ucast (of_nat n :: u8) AND 0x7f :: u32) = of_nat n" using low7 [of n] by simp
    have b: "byte_at (pre @ uleb_enc n @ post) (length pre) = Inr (of_nat n)"
      "length (uleb_enc n) = 1" using True by (simp_all add: uleb_enc.simps [of n])
    show ?thesis using s high(2) [OF True] b
      by (subst read_uleb128_loop.simps) (simp del: byte_at_Inr push_bit_and add: m Let_def)
  next
    case False
    define b where "b = (of_nat (n mod 128) OR 0x80 :: u8)"
    have e: "uleb_enc n = b # uleb_enc (n div 128)" using False by (simp add: uleb_enc.simps [of n] b_def)
    have bt: "byte_at (pre @ b # uleb_enc (n div 128) @ post) (length pre) = Inr b" by (simp add: byte_at_def)
    have "n div 128 * 2 ^ (s + 7) = (n div 128 * 128) * 2 ^ s" by (simp add: power_add)
    also have "\<dots> \<le> n * 2 ^ s" by (simp add: mult_le_mono1)
    finally have small: "n div 128 * 2 ^ (s + 7) < 2 ^ 32" using 1(3) by linarith
    have "read_uleb128_loop (pre @ uleb_enc n @ post) (length pre) s r
        = read_uleb128_loop ((pre @ [b]) @ uleb_enc (n div 128) @ post) (length (pre @ [b])) (s + 7)
            (r OR push_bit s (ucast b AND 0x7f))"
      using s high(1) [of "of_nat (n mod 128)", folded b_def]
      by (subst read_uleb128_loop.simps) (simp del: push_bit_and byte_at_Inr add: bt Let_def e flip: b_def)
    also have "\<dots> = Inr (length (pre @ [b]) + length (uleb_enc (n div 128)),
        (r OR push_bit s (ucast b AND 0x7f)) OR push_bit (s + 7) (of_nat (n div 128)))"
      using False small by (intro 1(1)) auto
    also have "(r OR push_bit s (ucast b AND 0x7f)) OR push_bit (s + 7) (of_nat (n div 128))
        = r OR push_bit s (of_nat (n mod 128) OR push_bit 7 (of_nat (n div 128)))"
      by (simp add: b_def low7c push_bit_or or.assoc)
    finally show ?thesis by (simp add: e split7)
  qed
qed

lemma bit_of_int_w: "bit (of_int n :: 'a::len word) k \<longleftrightarrow> k < LENGTH('a) \<and> bit n k"
  by (rule bit_word_of_int_iff)

lemma small_bits:
  assumes "- 64 \<le> n" and "n < 64" and "6 \<le> k"
  shows "bit (n :: int) k \<longleftrightarrow> n < 0"
proof -
  have n: "signed_take_bit 6 n = n" using assms by (intro signed_take_bit_int_eq_self) simp_all
  have "bit n k = bit (signed_take_bit 6 n) k" by (simp only: n)
  also have "\<dots> = bit n 6" using assms(3) by (simp add: bit_signed_take_bit_iff min_def)
  also have "\<dots> = (signed_take_bit 6 n < 0)" by simp
  finally show ?thesis by (simp only: n)
qed

lemma b64: "bit (0x40 :: u8) k \<longleftrightarrow> k = 6" "bit (64 :: int) k \<longleftrightarrow> k = 6"
proof -
  have "(0x40 :: u8) = push_bit 6 1" by simp
  then have "bit (0x40 :: u8) k \<longleftrightarrow> bit (push_bit 6 (1 :: u8)) k" by simp
  also have "\<dots> \<longleftrightarrow> k = 6" unfolding bit_push_bit_iff by (auto simp: bit_1_iff)
  finally show "bit (0x40 :: u8) k \<longleftrightarrow> k = 6" .
  have "(64 :: int) = push_bit 6 1" by simp
  then have "bit (64 :: int) k \<longleftrightarrow> bit (push_bit 6 (1 :: int)) k" by simp
  also have "\<dots> \<longleftrightarrow> k = 6" unfolding bit_push_bit_iff by (auto simp: bit_1_iff)
  finally show "bit (64 :: int) k \<longleftrightarrow> k = 6" .
qed

lemma last_byte:
  fixes n :: int
  assumes "- 64 \<le> n" and "n < 64" and s: "s \<in> {0, 7, 14, 21, 28}"
  defines "b \<equiv> of_int n AND 0x7f :: u8"
  shows "b AND 0x80 = 0"
    and "(if s + 7 < 8 * 4 \<and> b AND 0x40 \<noteq> 0
          then (r OR push_bit s (ucast b AND 0x7f)) OR - push_bit (s + 7) 1
          else r OR push_bit s (ucast b AND 0x7f)) = r OR push_bit s (of_int n :: u32)"
proof -
  have m: "(0x7f :: u8) = mask 7" "(0x7f :: u32) = mask 7" by (simp_all add: mask_eq_exp_minus_1)
  show "b AND 0x80 = 0"
    unfolding b_def m by (intro bit_word_eqI) (auto simp: bit_simps b128 b128i)
  note bits = small_bits [OF assms(1,2)]
  have neg: "b AND 0x40 \<noteq> 0 \<longleftrightarrow> n < 0"
  proof -
    have "b AND 0x40 = (if bit n 6 then 0x40 else 0)"
      unfolding b_def m by (intro bit_word_eqI) (auto simp: bit_simps b64 bit_of_int_w)
    then show ?thesis using bits [of 6] by simp
  qed
  have low: "(ucast b AND 0x7f :: u32) = take_bit 7 (of_int n)"
    unfolding b_def m by (intro bit_word_eqI) (auto simp: bit_simps bit_of_int_w)
  have full: "(r OR push_bit s (take_bit 7 (of_int n))) OR - push_bit (s + 7) 1 = r OR push_bit s (of_int n :: u32)" if "n < 0"
  proof -
    have m: "- push_bit (s + 7) 1 = (NOT (mask (s + 7)) :: u32)"
      by (simp add: minus_exp_eq_not_mask push_bit_eq_mult)
    have "push_bit s (take_bit 7 (of_int n)) OR - push_bit (s + 7) 1 = (push_bit s (of_int n) :: u32)"
      unfolding m using that by (intro bit_word_eqI) (auto simp: bit_simps bit_of_int_w bits)
    then show ?thesis by (simp add: or.assoc)
  qed
  have nonneg: "k < 7" if "bit n k" "\<not> n < 0" for k
    using that bits [of k] by (cases "6 \<le> k") auto
  have part: "push_bit s (take_bit 7 (of_int n)) = push_bit s (of_int n :: u32)" if "\<not> n < 0 \<or> 32 \<le> s + 7"
    using that by (intro bit_word_eqI) (auto simp: bit_simps bit_of_int_w dest: nonneg)
  show "(if s + 7 < 8 * 4 \<and> b AND 0x40 \<noteq> 0
          then (r OR push_bit s (ucast b AND 0x7f)) OR - push_bit (s + 7) 1
          else r OR push_bit s (ucast b AND 0x7f)) = r OR push_bit s (of_int n :: u32)"
    unfolding low neg using full part by auto
qed

lemma read_sleb128_loop_enc:
  assumes "s \<in> {0, 7, 14, 21, 28}" and "- (2 ^ (31 - s)) \<le> n" and "n < 2 ^ (31 - s)"
  shows "rbind (read_sleb128_loop (pre @ sleb_enc n @ post) (length pre) s r) (\<lambda>(p, shift, byte, result).
      Inr (p, if shift < 8 * 4 \<and> byte AND 0x40 \<noteq> 0 then result OR - push_bit shift 1 else result))
    = Inr (length pre + length (sleb_enc n), r OR push_bit s (of_int n))"
  using assms
proof (induction n arbitrary: pre s r rule: sleb_enc.induct)
  case (1 n)
  have s: "s < 32" using 1(2) by auto
  show ?case
  proof (cases "- 64 \<le> n \<and> n < 64")
    case True
    define b where "b = (of_int n AND 0x7f :: u8)"
    have e: "sleb_enc n = [b]" using True by (simp add: sleb_enc.simps [of n] b_def)
    note last = last_byte [OF conjunct1 [OF True] conjunct2 [OF True] 1(2), folded b_def]
    have bt: "byte_at (pre @ b # post) (length pre) = Inr b" by (simp add: byte_at_def)
    have "read_sleb128_loop (pre @ sleb_enc n @ post) (length pre) s r
        = Inr (length pre + 1, s + 7, b, r OR push_bit s (ucast b AND 0x7f))"
      using s last(1)
      by (subst read_sleb128_loop.simps) (simp del: push_bit_and byte_at_Inr add: bt Let_def e flip: b_def)
    then show ?thesis unfolding e by (simp only: rbind.simps prod.case last(2)) simp
  next
    case False
    define b where "b = (of_int n OR 0x80 :: u8)"
    have e: "sleb_enc n = b # sleb_enc (n div 128)" 
      unfolding b_def by (subst sleb_enc.simps) (rule if_not_P [OF False])
    have bt: "byte_at (pre @ b # sleb_enc (n div 128) @ post) (length pre) = Inr b" by (simp add: byte_at_def)
    have s7: "s + 7 \<in> {0, 7, 14, 21, 28}" and range: "- (2 ^ (31 - (s + 7))) \<le> n div 128" "n div 128 < 2 ^ (31 - (s + 7))"
      using 1(2-4) False by auto
    have step: "read_sleb128_loop (pre @ sleb_enc n @ post) (length pre) s r
        = read_sleb128_loop ((pre @ [b]) @ sleb_enc (n div 128) @ post) (length (pre @ [b])) (s + 7)
            (r OR push_bit s (ucast b AND 0x7f))"
      using s high(1) [of "of_int n", folded b_def]
      by (subst read_sleb128_loop.simps) (simp del: push_bit_and byte_at_Inr add: bt Let_def e flip: b_def)
    have comb: "(r OR push_bit s (ucast b AND 0x7f)) OR push_bit (s + 7) (of_int (n div 128)) = r OR push_bit s (of_int n :: u32)"
    proof -
      have m: "(0x7f :: u32) = mask 7" "n div 128 = drop_bit 7 n" by (simp_all add: mask_eq_exp_minus_1 drop_bit_eq_div)
      have "push_bit s (ucast b AND 0x7f) OR push_bit (s + 7) (of_int (n div 128)) = push_bit s (of_int n :: u32)"
      proof (intro bit_word_eqI)
        fix k assume "k < LENGTH(32)"
        moreover have "s + 7 \<le> k \<Longrightarrow> 7 + (k - (s + 7)) = k - s" by simp
        ultimately show "bit (push_bit s (ucast b AND 0x7f) OR push_bit (s + 7) (of_int (n div 128)) :: u32) k
            = bit (push_bit s (of_int n :: u32)) k"
          unfolding m b_def by (cases "k < s + 7") (auto simp: bit_simps bit_of_int_w b128 b128i)
      qed
      then show ?thesis by (simp only: or.assoc)
    qed
    show ?thesis unfolding step 1(1) [OF False s7 range] comb by (simp add: e)
  qed
qed

text \<open>
  C29: both readers invert the DWARF standard's encodings of every 32-bit value, wherever the bytes
  stand in the file, and return the position behind them.
\<close>
theorem leb128_roundtrip:
  assumes "n < 2 ^ 32" and "- (2 ^ 31) \<le> i" and "i < 2 ^ 31"
  shows "read_uleb128 (pre @ uleb_enc n @ post) (length pre) = Inr (length pre + length (uleb_enc n), of_nat n)
    \<and> read_sleb128 (pre @ sleb_enc i @ post) (length pre) = Inr (length pre + length (sleb_enc i), of_int i)"
  using read_uleb128_loop_enc [of n 0 pre post 0] read_sleb128_loop_enc [of 0 i pre post 0] assms
  by (simp add: read_uleb128_def read_sleb128_def)

theorem leb128_roundtrip_witness:
  "read_uleb128 ([7] @ uleb_enc 624485 @ [9]) 1 = Inr (1 + length (uleb_enc 624485), 624485)
    \<and> read_sleb128 ([7] @ sleb_enc (- 123456) @ []) 1 = Inr (1 + length (sleb_enc (- 123456)), - 123456)"
  using leb128_roundtrip [of 624485 0 "[7]" "[9]"] leb128_roundtrip [of 0 "- 123456" "[7]" "[]"] by simp

section \<open>Encoded values\<close>

text \<open>
  The union the code overlays on the bytes is read at its width; signed members are sign-extended
  to the 64-bit \<^verbatim>\<open>result\<close>. \<^verbatim>\<open>head\<close> is the address the file is mapped at: \<^verbatim>\<open>pcrel\<close> adds the address
  of the value, \<^verbatim>\<open>aligned\<close> rounds it, and \<^verbatim>\<open>indirect\<close> reads through an absolute address, which is
  \<^const>\<open>Bad_access\<close> outside of the mapping.
\<close>

definition read_encoded_value_with_base :: "u64 \<Rightarrow> image \<Rightarrow> u8 \<Rightarrow> u64 \<Rightarrow> nat \<Rightarrow> (nat \<times> u32) res" where
  "read_encoded_value_with_base head img encoding base p =
     rbind
       (if encoding = DW_EH_PE_aligned then
          (let a = head + of_nat p; a = (a + 8 - 1) AND - 8; q = unat (a - head)
           in rbind (word_at 8 img q) (\<lambda>result :: u64. Inr (q + 8, result)))
        else
          rbind
            (let e = encoding AND 0x0f
             in if e = DW_EH_PE_absptr then rbind (word_at 8 img p) (\<lambda>w :: u64. Inr (p + 8, w))
                else if e = DW_EH_PE_uleb128 then rbind (read_uleb128 img p) (\<lambda>(p, tmp). Inr (p, ucast tmp))
                else if e = DW_EH_PE_sleb128 then rbind (read_sleb128 img p) (\<lambda>(p, tmp). Inr (p, scast tmp))
                else if e = DW_EH_PE_udata2 then rbind (word_at 2 img p) (\<lambda>w :: u16. Inr (p + 2, ucast w))
                else if e = DW_EH_PE_udata4 then rbind (word_at 4 img p) (\<lambda>w :: u32. Inr (p + 4, ucast w))
                else if e = DW_EH_PE_udata8 then rbind (word_at 8 img p) (\<lambda>w :: u64. Inr (p + 8, w))
                else if e = DW_EH_PE_sdata2 then rbind (word_at 2 img p) (\<lambda>w :: u16. Inr (p + 2, scast w))
                else if e = DW_EH_PE_sdata4 then rbind (word_at 4 img p) (\<lambda>w :: u32. Inr (p + 4, scast w))
                else if e = DW_EH_PE_sdata8 then rbind (word_at 8 img p) (\<lambda>w :: u64. Inr (p + 8, w))
                else Inl LOG_FATAL)
            (\<lambda>(q, result :: u64).
             if result \<noteq> 0 then
               (let result = result + (if encoding AND 0x70 = DW_EH_PE_pcrel then head + of_nat p else base)
                in if encoding AND DW_EH_PE_indirect \<noteq> 0
                   then rbind (word_at 8 img (unat (result - head))) (\<lambda>w :: u64. Inr (q, w))
                   else Inr (q, result))
             else Inr (q, result)))
       (\<lambda>(q, result). Inr (q, ucast result))"

end
