(* ===== verification/Elf_Binary.thy ===== *)
theory Elf_Binary
  imports Leb128 Hash
begin

text \<open>
  \<^verbatim>\<open>elf_binary.h\<close> and the parsing half of \<^verbatim>\<open>elf_binary.cc\<close>: \<^verbatim>\<open>ReadELF\<close>, the constructor, the program
  headers, the dynamic section and the exception frame header of an input object. A pointer into the
  mapped file is its offset from \<^verbatim>\<open>head_\<close>, \<^verbatim>\<open>nullptr\<close> is \<^const>\<open>None\<close>; log messages are left out.
  The pointers in \<^verbatim>\<open>syms_\<close> are kept in \<open>bn_sym_ptrs\<close>, beside the symbols they point to.
\<close>

section \<open>State\<close>

record ELFBinary =
  bn_filename :: string
  bn_head :: image
  bn_filesize :: u64
  bn_mapped_size :: u64
  bn_ehdr :: Elf_Ehdr
  bn_phdrs :: "Elf_Phdr list"
  bn_loads :: "Elf_Phdr list"
  bn_tls :: "Elf_Phdr option"
  bn_gnu_stack :: "Elf_Phdr option"
  bn_gnu_relro :: "Elf_Phdr option"
  bn_strtab :: "u64 option"
  bn_symtab :: "u64 option"
  bn_eh_frame_header :: EHFrameHeader
  bn_neededs :: "string list"
  bn_soname :: string
  bn_runpath :: string
  bn_rpath :: string
  bn_rel :: "u64 option"
  bn_num_rels :: u64
  bn_plt_rel :: "u64 option"
  bn_num_plt_rels :: u64
  bn_gnu_hash :: "u64 option"
  bn_hash :: "u64 option"
  bn_init_array_offset :: "u64 option"
  bn_init_arraysz :: u64
  bn_init_array_addr :: u64
  bn_fini_array_offset :: "u64 option"
  bn_fini_array_addr :: u64
  bn_fini_arraysz :: u64
  bn_init :: u64
  bn_fini :: u64
  bn_init_array :: "u64 list"
  bn_fini_array :: "u64 list"
  bn_name :: string
  bn_syms :: "Syminfo list"
  bn_sym_ptrs :: "u64 list"
  bn_nsyms :: nat
  bn_versym :: "u64 option"
  bn_verneed :: "u64 option"
  bn_verdef :: "u64 option"
  bn_verneednum :: u64
  bn_verdefnum :: u64

definition EHFrameHeader_zero :: EHFrameHeader where
  "EHFrameHeader_zero = \<lparr>eh_version = 0, eh_frame_ptr_enc = 0, eh_fde_count_enc = 0, eh_table_enc = 0,
     eh_frame_ptr = 0, eh_fde_count = 0, eh_table = [], eh_fdes = [], eh_cies = []\<rparr>"

definition ELFBinary_init :: "string \<Rightarrow> image \<Rightarrow> u64 \<Rightarrow> u64 \<Rightarrow> Elf_Ehdr \<Rightarrow> ELFBinary" where
  "ELFBinary_init filename head mapped_size filesize ehdr = \<lparr>
     bn_filename = filename, bn_head = head, bn_filesize = filesize, bn_mapped_size = mapped_size, bn_ehdr = ehdr,
     bn_phdrs = [], bn_loads = [], bn_tls = None, bn_gnu_stack = None, bn_gnu_relro = None,
     bn_strtab = None, bn_symtab = None, bn_eh_frame_header = EHFrameHeader_zero,
     bn_neededs = [], bn_soname = [], bn_runpath = [], bn_rpath = [],
     bn_rel = None, bn_num_rels = 0, bn_plt_rel = None, bn_num_plt_rels = 0, bn_gnu_hash = None, bn_hash = None,
     bn_init_array_offset = None, bn_init_arraysz = 0, bn_init_array_addr = 0,
     bn_fini_array_offset = None, bn_fini_array_addr = 0, bn_fini_arraysz = 0, bn_init = 0, bn_fini = 0,
     bn_init_array = [], bn_fini_array = [], bn_name = [], bn_syms = [], bn_sym_ptrs = [], bn_nsyms = 0,
     bn_versym = None, bn_verneed = None, bn_verdef = None, bn_verneednum = 0, bn_verdefnum = 0\<rparr>"

section \<open>Addresses and offsets\<close>

fun find_load :: "(Elf_Phdr \<Rightarrow> bool) \<Rightarrow> Elf_Phdr list \<Rightarrow> Elf_Phdr option" where
  "find_load P [] = None"
| "find_load P (p # ps) = (if P p then Some p else find_load P ps)"

definition load_has_addr :: "u64 \<Rightarrow> Elf_Phdr \<Rightarrow> bool" where
  "load_has_addr addr p \<longleftrightarrow> p_vaddr p \<le> addr \<and> addr < p_vaddr p + p_memsz p"

definition load_has_offset :: "u64 \<Rightarrow> Elf_Phdr \<Rightarrow> bool" where
  "load_has_offset off p \<longleftrightarrow> p_offset p \<le> off \<and> off < p_offset p + p_filesz p"

definition ELFBinary_OffsetFromAddr :: "u64 \<Rightarrow> ELFBinary \<Rightarrow> u64 res" where
  "ELFBinary_OffsetFromAddr addr bn =
     (case find_load (load_has_addr addr) (bn_loads bn) of
        Some p \<Rightarrow> Inr (addr - p_vaddr p + p_offset p)
      | None \<Rightarrow>
          (case bn_tls bn of
             Some t \<Rightarrow> if p_vaddr t = addr then Inr (p_offset t) else Inl LOG_FATAL
           | None \<Rightarrow> Inl LOG_FATAL))"

definition ELFBinary_AddrFromOffset :: "u64 \<Rightarrow> ELFBinary \<Rightarrow> u64 res" where
  "ELFBinary_AddrFromOffset off bn =
     (case find_load (load_has_offset off) (bn_loads bn) of
        Some p \<Rightarrow> Inr (off - p_offset p + p_vaddr p)
      | None \<Rightarrow>
          (case bn_tls bn of
             Some t \<Rightarrow> if p_offset t = off then Inr (p_vaddr t) else Inl LOG_FATAL
           | None \<Rightarrow> Inl LOG_FATAL))"

text \<open>\<^verbatim>\<open>GetPtr\<close>, as an offset from \<^verbatim>\<open>head_\<close>.\<close>

definition ELFBinary_GetPtr :: "u64 \<Rightarrow> ELFBinary \<Rightarrow> u64 res" where
  "ELFBinary_GetPtr addr bn = ELFBinary_OffsetFromAddr addr bn"

definition ELFBinary_GetRange :: "ELFBinary \<Rightarrow> Range" where
  "ELFBinary_GetRange bn =
     fold (\<lambda>p r. \<lparr>rg_start = min (rg_start r) (p_vaddr p),
                    rg_end = max (rg_end r) (AlignNext (p_vaddr p + p_memsz p))\<rparr>)
       (bn_loads bn) \<lparr>rg_start = - 1, rg_end = 0\<rparr>"

definition ELFBinary_IsAddrInInitarray :: "u64 \<Rightarrow> ELFBinary \<Rightarrow> bool res" where
  "ELFBinary_IsAddrInInitarray addr bn =
     rbind (CHECK (bn_init_array_addr bn \<noteq> 0)) (\<lambda>_.
     Inr (bn_init_array_addr bn \<le> addr \<and> addr < bn_init_array_addr bn + bn_init_arraysz bn))"

definition ELFBinary_IsAddrInFiniarray :: "u64 \<Rightarrow> ELFBinary \<Rightarrow> bool res" where
  "ELFBinary_IsAddrInFiniarray addr bn =
     rbind (CHECK (bn_fini_array_addr bn \<noteq> 0)) (\<lambda>_.
     Inr (bn_fini_array_addr bn \<le> addr \<and> addr < bn_fini_array_addr bn + bn_fini_arraysz bn))"

definition ELFBinary_IsVaddrInTLSData :: "u64 \<Rightarrow> ELFBinary \<Rightarrow> bool" where
  "ELFBinary_IsVaddrInTLSData vaddr bn =
     (case bn_tls bn of None \<Rightarrow> False | Some t \<Rightarrow> p_vaddr t \<le> vaddr \<and> vaddr < p_vaddr t + p_filesz t)"

definition ELFBinary_IsOffsetInTLSData :: "u64 \<Rightarrow> ELFBinary \<Rightarrow> bool res" where
  "ELFBinary_IsOffsetInTLSData off bn =
     (case bn_tls bn of
        None \<Rightarrow> Inl LOG_FATAL
      | Some t \<Rightarrow> if off < p_memsz t then Inr (off < p_filesz t) else Inl LOG_FATAL)"

definition ELFBinary_IsOffsetInTLSBSS :: "u64 \<Rightarrow> ELFBinary \<Rightarrow> bool res" where
  "ELFBinary_IsOffsetInTLSBSS off bn =
     (case bn_tls bn of
        None \<Rightarrow> Inl LOG_FATAL
      | Some t \<Rightarrow> if off < p_memsz t then Inr (p_filesz t \<le> off) else Inl LOG_FATAL)"

definition ELFBinary_FindPhdr :: "u32 \<Rightarrow> ELFBinary \<Rightarrow> Elf_Phdr option" where
  "ELFBinary_FindPhdr type bn = find_load (\<lambda>p. p_type p = type) (bn_phdrs bn)"

definition ELFBinary_GetPhdr :: "u32 \<Rightarrow> ELFBinary \<Rightarrow> Elf_Phdr res" where
  "ELFBinary_GetPhdr type bn =
     (case ELFBinary_FindPhdr type bn of None \<Rightarrow> Inl CHECK_failed | Some p \<Rightarrow> Inr p)"

section \<open>The dynamic section\<close>

definition read_dyn :: "ELFBinary \<Rightarrow> u64 \<Rightarrow> nat \<Rightarrow> Elf_Dyn res" where
  "read_dyn bn off i = read_struct dec_Elf_Dyn 16 (bn_head bn) (off + of_nat (16 * i))"

text \<open>A string of \<^verbatim>\<open>strtab_\<close>; the pointer is not null when it is used.\<close>

definition ELFBinary_Str :: "u64 \<Rightarrow> ELFBinary \<Rightarrow> string res" where
  "ELFBinary_Str nm bn =
     (case bn_strtab bn of None \<Rightarrow> Inl Bad_access | Some st \<Rightarrow> read_cstr (bn_head bn) (st + nm))"

text \<open>The chain of tests of the first loop, in the code's order.\<close>

definition ParseDynamic_entry :: "Elf_Dyn \<Rightarrow> ELFBinary \<Rightarrow> ELFBinary res" where
  "ParseDynamic_entry dyn bn =
     (let tag = d_tag dyn; val = d_val dyn;
          get_ptr = (\<lambda>set. rbind (ELFBinary_GetPtr val bn) (\<lambda>ptr. Inr (set (Some ptr))))
      in if tag = DT_STRTAB then get_ptr (\<lambda>ptr. bn\<lparr>bn_strtab := ptr\<rparr>)
         else if tag = DT_SYMTAB then get_ptr (\<lambda>ptr. bn\<lparr>bn_symtab := ptr\<rparr>)
         else if tag = DT_GNU_HASH then get_ptr (\<lambda>ptr. bn\<lparr>bn_gnu_hash := ptr\<rparr>)
         else if tag = DT_HASH then get_ptr (\<lambda>ptr. bn\<lparr>bn_hash := ptr\<rparr>)
         else if tag = DT_RELA then get_ptr (\<lambda>ptr. bn\<lparr>bn_rel := ptr\<rparr>)
         else if tag = DT_RELASZ then Inr (bn\<lparr>bn_num_rels := val div 24\<rparr>)
         else if tag = DT_JMPREL then get_ptr (\<lambda>ptr. bn\<lparr>bn_plt_rel := ptr\<rparr>)
         else if tag = DT_PLTRELSZ then Inr (bn\<lparr>bn_num_plt_rels := val div 24\<rparr>)
         else if tag = DT_PLTREL then rbind (CHECK (val = DT_RELA)) (\<lambda>_. Inr bn)
         else if tag = DT_REL \<or> tag = DT_RELSZ \<or> tag = DT_RELENT then Inl CHECK_failed
         else if tag = DT_INIT_ARRAY then get_ptr (\<lambda>ptr. bn\<lparr>bn_init_array_offset := ptr\<rparr>)
         else if tag = DT_INIT_ARRAYSZ then Inr (bn\<lparr>bn_init_arraysz := val\<rparr>)
         else if tag = DT_FINI_ARRAY then get_ptr (\<lambda>ptr. bn\<lparr>bn_fini_array_offset := ptr\<rparr>)
         else if tag = DT_FINI_ARRAYSZ then Inr (bn\<lparr>bn_fini_arraysz := val\<rparr>)
         else if tag = DT_INIT then Inr (bn\<lparr>bn_init := val\<rparr>)
         else if tag = DT_FINI then Inr (bn\<lparr>bn_fini := val\<rparr>)
         else if tag = DT_VERSYM then get_ptr (\<lambda>ptr. bn\<lparr>bn_versym := ptr\<rparr>)
         else if tag = DT_VERNEED then get_ptr (\<lambda>ptr. bn\<lparr>bn_verneed := ptr\<rparr>)
         else if tag = DT_VERNEEDNUM then Inr (bn\<lparr>bn_verneednum := val\<rparr>)
         else if tag = DT_VERDEF then get_ptr (\<lambda>ptr. bn\<lparr>bn_verdef := ptr\<rparr>)
         else if tag = DT_VERDEFNUM then Inr (bn\<lparr>bn_verdefnum := val\<rparr>)
         else Inr bn)"

definition ParseDynamic_name :: "Elf_Dyn \<Rightarrow> ELFBinary \<Rightarrow> ELFBinary res" where
  "ParseDynamic_name dyn bn =
     (let tag = d_tag dyn; str = ELFBinary_Str (d_val dyn) bn
      in if tag = DT_NEEDED then rbind str (\<lambda>s. Inr (bn\<lparr>bn_neededs := bn_neededs bn @ [s]\<rparr>))
         else if tag = DT_SONAME then rbind str (\<lambda>s. Inr (bn\<lparr>bn_soname := s\<rparr>))
         else if tag = DT_RUNPATH then rbind str (\<lambda>s. Inr (bn\<lparr>bn_runpath := s\<rparr>))
         else if tag = DT_RPATH then rbind str (\<lambda>s. Inr (bn\<lparr>bn_rpath := s\<rparr>))
         else Inr bn)"

text \<open>\<^verbatim>\<open>array[i]\<close> for every \<^verbatim>\<open>i\<close> below \<^verbatim>\<open>size / 8\<close>, appended to \<^verbatim>\<open>out\<close>.\<close>

definition ELFBinary_ParseFuncArray :: "image \<Rightarrow> u64 option \<Rightarrow> u64 \<Rightarrow> u64 list \<Rightarrow> u64 list res" where
  "ELFBinary_ParseFuncArray head array sz out =
     rfold (\<lambda>i out.
        case array of
          None \<Rightarrow> Inl Bad_access
        | Some a \<Rightarrow> rbind (read_struct le_word 8 head (a + of_nat (8 * i))) (\<lambda>x. Inr (out @ [x])))
       [0..<unat sz div 8] out"

definition ELFBinary_ParseDynamic :: "u64 \<Rightarrow> u64 \<Rightarrow> ELFBinary \<Rightarrow> ELFBinary res" where
  "ELFBinary_ParseDynamic off sz bn =
     rbind (CHECK (sz mod 16 = 0)) (\<lambda>_.
     let dyns = [0..<unat sz div 16]
     in rbind (rfold (\<lambda>i bn. rbind (read_dyn bn off i) (\<lambda>dyn. ParseDynamic_entry dyn bn)) dyns bn) (\<lambda>bn.
        rbind (CHECK (bn_strtab bn \<noteq> None)) (\<lambda>_.
        rbind (ELFBinary_ParseFuncArray (bn_head bn) (bn_init_array_offset bn) (bn_init_arraysz bn) (bn_init_array bn))
          (\<lambda>ia.
        let bn = bn\<lparr>bn_init_array := ia\<rparr>
        in rbind (ELFBinary_ParseFuncArray (bn_head bn) (bn_fini_array_offset bn) (bn_fini_arraysz bn) (bn_fini_array bn))
          (\<lambda>fa.
        let bn = bn\<lparr>bn_fini_array := fa\<rparr>
        in rfold (\<lambda>i bn. rbind (read_dyn bn off i) (\<lambda>dyn. ParseDynamic_name dyn bn)) dyns bn)))))"

section \<open>The exception frame header\<close>

text \<open>The augmentation string of a CIE, after its \<^verbatim>\<open>z\<close>; \<open>off\<close> is \<^verbatim>\<open>cie_offset\<close> as a position of the file.\<close>

fun cie_augmentation :: "u64 \<Rightarrow> image \<Rightarrow> string \<Rightarrow> nat \<Rightarrow> CIE \<Rightarrow> (nat \<times> CIE) res" where
  "cie_augmentation hd_addr head [] off cie = Inr (off, cie)"
| "cie_augmentation hd_addr head (c # cs) off cie =
     (if c = CHR ''R'' then
        rbind (byte_at head off) (\<lambda>b. cie_augmentation hd_addr head cs (off + 1) (cie\<lparr>cie_FDE_encoding := b\<rparr>))
      else if c = CHR ''P'' then
        rbind (byte_at head off) (\<lambda>b.
        rbind (read_encoded_value_with_base hd_addr head (b AND 0x7F) 0 (off + 1)) (\<lambda>(off, _).
        cie_augmentation hd_addr head cs off cie))
      else if c = CHR ''L'' then
        rbind (byte_at head off) (\<lambda>b. cie_augmentation hd_addr head cs (off + 1) (cie\<lparr>cie_LSDA_encoding := b\<rparr>))
      else Inr (off, cie))"

definition parse_CIE :: "u64 \<Rightarrow> image \<Rightarrow> nat \<Rightarrow> CIE res" where
  "parse_CIE hd_addr head base =
     rbind (word_at 4 head base) (\<lambda>len.
     rbind (word_at 4 head (base + 4)) (\<lambda>cid.
     rbind (byte_at head (base + 8)) (\<lambda>ver.
     rbind (read_cstr head (of_nat (base + 9))) (\<lambda>aug.
     rbind (read_uleb128 head (base + 9 + length aug + 1)) (\<lambda>(off, _).
     rbind (read_sleb128 head off) (\<lambda>(off, _).
     rbind (read_uleb128 head off) (\<lambda>(off, _).
     let cie = \<lparr>cie_length = len, cie_CIE_id = cid, cie_version = ver, cie_aug_str = aug,
                cie_FDE_encoding = DW_EH_PE_SOLD_DUMMY, cie_LSDA_encoding = DW_EH_PE_SOLD_DUMMY\<rparr>
     in case aug of
          CHR ''z'' # cs \<Rightarrow> rbind (cie_augmentation hd_addr head cs (off + 1) cie) (\<lambda>(_, cie). Inr cie)
        | _ \<Rightarrow> Inr cie)))))))"

text \<open>One entry of the table with the FDE and the CIE it leads to.\<close>

definition ParseEHFrame_entry ::
  "u64 \<Rightarrow> u64 \<Rightarrow> nat \<Rightarrow> ELFBinary \<Rightarrow> EHFrameHeader \<Rightarrow> EHFrameHeader res" where
  "ParseEHFrame_entry hd_addr off i bn h =
     (let head = bn_head bn; efh = unat off + 12 + 8 * i
      in rbind (word_at 4 head efh) (\<lambda>loc.
         rbind (word_at 4 head (efh + 4)) (\<lambda>ptr.
         let h = h\<lparr>eh_table := eh_table h @ [\<lparr>te_initial_loc = loc, te_fde_ptr = ptr\<rparr>]\<rparr>
         in rbind (ELFBinary_AddrFromOffset off bn) (\<lambda>efh_addr.
         rbind (ELFBinary_OffsetFromAddr (efh_addr + scast (ptr :: u32)) bn) (\<lambda>fde_off.
         let fde_base = unat fde_off
         in rbind (word_at 4 head fde_base) (\<lambda>len :: u32.
         rbind (if len = 0xffffffff then rbind (word_at 8 head (fde_base + 4)) (\<lambda>ext :: u64. Inr (fde_base + 12, ext))
                else Inr (fde_base + 4, 0)) (\<lambda>(p, ext).
         rbind (word_at 4 head p) (\<lambda>delta :: u32.
         rbind (ELFBinary_AddrFromOffset (of_nat p) bn) (\<lambda>delta_addr.
         rbind (ELFBinary_OffsetFromAddr (delta_addr - scast delta) bn) (\<lambda>cie_off.
         rbind (parse_CIE hd_addr head (unat cie_off)) (\<lambda>cie.
         rbind (word_at 4 head (p + 4)) (\<lambda>iloc.
         let fde = \<lparr>fde_length = len, fde_extended_length = ext, fde_CIE_delta = delta, fde_initial_loc = iloc\<rparr>
         in rbind (CHECK (cie_FDE_encoding cie = DW_EH_PE_sdata4 OR DW_EH_PE_pcrel)) (\<lambda>_.
         rbind (CHECK (cie_LSDA_encoding cie = DW_EH_PE_sdata4 OR DW_EH_PE_pcrel
                       \<or> cie_LSDA_encoding cie = DW_EH_PE_SOLD_DUMMY)) (\<lambda>_.
         Inr (h\<lparr>eh_fdes := eh_fdes h @ [fde], eh_cies := eh_cies h @ [cie]\<rparr>)))))))))))))))"

definition ELFBinary_ParseEHFrameHeader :: "u64 \<Rightarrow> u64 \<Rightarrow> u64 \<Rightarrow> ELFBinary \<Rightarrow> ELFBinary res" where
  "ELFBinary_ParseEHFrameHeader hd_addr off sz bn =
     (let head = bn_head bn; base = unat off; h = bn_eh_frame_header bn
      in rbind (byte_at head base) (\<lambda>version.
         rbind (byte_at head (base + 1)) (\<lambda>ptr_enc.
         rbind (byte_at head (base + 2)) (\<lambda>count_enc.
         rbind (byte_at head (base + 3)) (\<lambda>table_enc.
         rbind (CHECK (version = 1)) (\<lambda>_.
         rbind (CHECK (ptr_enc = DW_EH_PE_sdata4 OR DW_EH_PE_pcrel)) (\<lambda>_.
         rbind (CHECK (count_enc = DW_EH_PE_udata4)) (\<lambda>_.
         rbind (CHECK (table_enc = DW_EH_PE_sdata4 OR DW_EH_PE_datarel)) (\<lambda>_.
         rbind (word_at 4 head (base + 4)) (\<lambda>ptr.
         rbind (word_at 4 head (base + 8)) (\<lambda>count :: u32.
         let h = h\<lparr>eh_version := version, eh_frame_ptr_enc := ptr_enc, eh_fde_count_enc := count_enc,
                    eh_table_enc := table_enc, eh_frame_ptr := ptr, eh_fde_count := count\<rparr>
         in rbind (CHECK (12 + ucast count * (4 * 2) \<le> sz)) (\<lambda>_.
         rbind (rfold (\<lambda>i h. ParseEHFrame_entry hd_addr off i bn h) [0..<unat count] h) (\<lambda>h.
         Inr (bn\<lparr>bn_eh_frame_header := h\<rparr>))))))))))))))"

section \<open>Program headers and construction\<close>

definition read_phdr :: "ELFBinary \<Rightarrow> nat \<Rightarrow> Elf_Phdr res" where
  "read_phdr bn i =
     read_struct dec_Elf_Phdr 56 (bn_head bn)
       (e_phoff (bn_ehdr bn) + of_nat (unat (e_phentsize (bn_ehdr bn)) * i))"

definition ParsePhdrs_collect :: "nat \<Rightarrow> ELFBinary \<Rightarrow> ELFBinary res" where
  "ParsePhdrs_collect i bn =
     rbind (read_phdr bn i) (\<lambda>phdr.
     let bn = bn\<lparr>bn_phdrs := bn_phdrs bn @ [phdr]\<rparr>
     in Inr (if p_type phdr = PT_LOAD then bn\<lparr>bn_loads := bn_loads bn @ [phdr]\<rparr>
             else if p_type phdr = PT_TLS then bn\<lparr>bn_tls := Some phdr\<rparr> else bn))"

definition ParsePhdrs_dispatch :: "u64 \<Rightarrow> Elf_Phdr \<Rightarrow> ELFBinary \<Rightarrow> ELFBinary res" where
  "ParsePhdrs_dispatch hd_addr phdr bn =
     (if p_type phdr = PT_DYNAMIC then ELFBinary_ParseDynamic (p_offset phdr) (p_filesz phdr) bn
      else if p_type phdr = PT_INTERP then Inr bn
      else if p_type phdr = PT_GNU_EH_FRAME then
        ELFBinary_ParseEHFrameHeader hd_addr (p_offset phdr) (p_filesz phdr) bn
      else if p_type phdr = PT_GNU_STACK then Inr (bn\<lparr>bn_gnu_stack := Some phdr\<rparr>)
      else if p_type phdr = PT_GNU_RELRO then Inr (bn\<lparr>bn_gnu_relro := Some phdr\<rparr>)
      else Inr bn)"

definition ELFBinary_ParsePhdrs :: "u64 \<Rightarrow> ELFBinary \<Rightarrow> ELFBinary res" where
  "ELFBinary_ParsePhdrs hd_addr bn =
     rbind (rfold ParsePhdrs_collect [0..<unat (e_phnum (bn_ehdr bn))] bn) (\<lambda>bn.
     rbind (rfold (ParsePhdrs_dispatch hd_addr) (bn_phdrs bn) bn) (\<lambda>bn.
     rbind (case bn_init_array_offset bn of
              None \<Rightarrow> Inr bn
            | Some off \<Rightarrow> rbind (ELFBinary_AddrFromOffset off bn) (\<lambda>a. Inr (bn\<lparr>bn_init_array_addr := a\<rparr>))) (\<lambda>bn.
     rbind (case bn_fini_array_offset bn of
              None \<Rightarrow> Inr bn
            | Some off \<Rightarrow> rbind (ELFBinary_AddrFromOffset off bn) (\<lambda>a. Inr (bn\<lparr>bn_fini_array_addr := a\<rparr>))) (\<lambda>bn.
     rbind (CHECK (bn_phdrs bn \<noteq> [])) (\<lambda>_. Inr bn)))))"

text \<open>The part of a path behind its last slash.\<close>

definition basename :: "string \<Rightarrow> string" where
  "basename filename = rev (takeWhile (\<lambda>c. c \<noteq> CHR ''/'') (rev filename))"

text \<open>
  The comma operators of the machine check leave only the two constants, so the check holds for
  every machine.
\<close>

definition ELFBinary_new :: "u64 \<Rightarrow> string \<Rightarrow> image \<Rightarrow> u64 \<Rightarrow> u64 \<Rightarrow> ELFBinary res" where
  "ELFBinary_new hd_addr filename head mapped_size filesize =
     rbind (read_struct dec_Elf_Ehdr 64 head 0) (\<lambda>ehdr.
     rbind (CHECK (e_type ehdr = ET_DYN)) (\<lambda>_.
     rbind (CHECK (head ! 5 = 1)) (\<lambda>_.
     rbind (CHECK (EM_X86_64 \<noteq> 0 \<or> EM_AARCH64 \<noteq> 0)) (\<lambda>_.
     let bn = (ELFBinary_init filename head mapped_size filesize ehdr)\<lparr>bn_name := basename filename\<rparr>
     in ELFBinary_ParsePhdrs hd_addr bn))))"

definition ELFBinary_IsELF :: "image \<Rightarrow> bool" where
  "ELFBinary_IsELF p = (take 4 p = [0x7f, 0x45, 0x4c, 0x46])"

text \<open>
  \<^verbatim>\<open>ReadELF\<close>. The file system is a parameter (\<^const>\<open>None\<close>: \<^verbatim>\<open>open\<close> fails), and so is the address
  \<^verbatim>\<open>mmap\<close> chooses. The mapping is the file with zeros up to the page's end; \<^verbatim>\<open>err\<close> exits.
\<close>

definition ReadELF :: "u64 \<Rightarrow> (string \<Rightarrow> u8 list option) \<Rightarrow> string \<Rightarrow> ELFBinary option res" where
  "ReadELF hd_addr fs filename =
     (case fs filename of
        None \<Rightarrow> Inl Exited
      | Some contents \<Rightarrow>
          (let sz = of_nat (length contents) :: u64
           in if sz < 8 + 16 then Inl Exited
              else
                (let mapped_size = (sz + 0xfff) AND NOT 0xfff;
                     p = contents @ replicate (unat mapped_size - length contents) 0
                 in if ELFBinary_IsELF p then
                      (if p ! 4 \<noteq> 2 then Inr None
                       else rbind (ELFBinary_new hd_addr filename p mapped_size sz) (\<lambda>bn. Inr (Some bn)))
                    else Inl Exited)))"

end
