(* ===== verification/Elf_Symbols.thy ===== *)
theory Elf_Symbols
  imports Elf_Binary
begin

text \<open>
  The symbol half of \<^verbatim>\<open>elf_binary.cc\<close>: which entries of \<^verbatim>\<open>.dynsym\<close> exist (from the hash tables and the
  relocations), their versions, and \<^verbatim>\<open>ReadDynSymtab\<close>. A \<^verbatim>\<open>std::set<int>\<close> is the sorted list of its
  elements.
\<close>

section \<open>Indices of symbols\<close>

definition CollectSymbolsFromReloc :: "image \<Rightarrow> u64 option \<Rightarrow> u64 \<Rightarrow> int list res" where
  "CollectSymbolsFromReloc head rels num =
     rfold (\<lambda>i indices.
        case rels of
          None \<Rightarrow> Inl Bad_access
        | Some r \<Rightarrow>
            rbind (read_struct dec_Elf_Rel 24 head (r + of_nat (24 * i))) (\<lambda>rel.
            Inr (insort_insert (sint (ucast (ELF_R_SYM (r_info rel)) :: u32)) indices)))
       [0..<unat num] []"

text \<open>The chain of one bucket; \<open>hv\<close> is the position of \<^verbatim>\<open>*hv\<close>. Past \<^verbatim>\<open>INT_MAX\<close>, \<^verbatim>\<open>++n\<close> is undefined.\<close>

function gnu_chain :: "image \<Rightarrow> nat \<Rightarrow> int \<Rightarrow> int list \<Rightarrow> int list res" where
  "gnu_chain head hv n indices =
     rbind (word_at 4 head hv) (\<lambda>h2 :: u32.
     if n \<in> set indices then Inl CHECK_failed
     else if h2 AND 1 \<noteq> 0 then Inr (insort_insert n indices)
     else if n = 0x7fffffff then Inl Undefined
     else gnu_chain head (hv + 4) (n + 1) (insort_insert n indices))"
  by pat_completeness auto
termination
  by (relation "measure (\<lambda>(head, hv, n, indices). length head - hv)") (auto simp: word_at_def split: if_splits)

declare gnu_chain.simps [simp del]

definition gnu_hash_field :: "image \<Rightarrow> u64 \<Rightarrow> nat \<Rightarrow> u32 res" where
  "gnu_hash_field head g i = word_at 4 head (unat g + 4 * i)"

definition CollectSymbolsFromGnuHash :: "image \<Rightarrow> u64 \<Rightarrow> int list res" where
  "CollectSymbolsFromGnuHash head g =
     rbind (gnu_hash_field head g 0) (\<lambda>nbuckets.
     rbind (gnu_hash_field head g 1) (\<lambda>symndx.
     rbind (gnu_hash_field head g 2) (\<lambda>maskwords.
     let buckets = unat g + 16 + 8 * unat maskwords;
         hashvals = buckets + 4 * unat nbuckets
     in rbind (rfold (\<lambda>i indices.
            rbind (word_at 4 head (buckets + 4 * i)) (\<lambda>n :: u32.
            if n = 0 then Inr indices
            else gnu_chain head (hashvals + 4 * unat (n - symndx)) (sint n) indices))
          [0..<unat nbuckets] []) (\<lambda>indices.
        Inr (fold (\<lambda>n. insort_insert (sint (of_nat n :: u32))) [0..<unat symndx] indices)))))"

text \<open>
  A chain that comes back to an index it has seen never ends, which C++ leaves undefined for a loop
  without side effects. Every index it visits selects four bytes of the file, so a chain that ends has
  fewer steps than the file has bytes, and the fuel below is never the reason a finite chain stops.
\<close>

fun elf_chain :: "nat \<Rightarrow> image \<Rightarrow> u64 \<Rightarrow> int \<Rightarrow> int list \<Rightarrow> int list res" where
  "elf_chain 0 head chns n indices = Inl Undefined"
| "elf_chain (Suc fuel) head chns n indices =
     (if n = 0 then Inr indices
      else rbind (word_at 4 head (unat (chns + of_int (4 * n)))) (\<lambda>next :: u32.
           elf_chain fuel head chns (sint next) (insort_insert n indices)))"

definition CollectSymbolsFromElfHash :: "image \<Rightarrow> u64 \<Rightarrow> int list res" where
  "CollectSymbolsFromElfHash head h =
     rbind (word_at 4 head (unat h)) (\<lambda>nbuckets :: u32.
     let buckets = h + 8; chns = buckets + 4 * ucast nbuckets
     in rfold (\<lambda>i indices.
          rbind (word_at 4 head (unat buckets + 4 * i)) (\<lambda>n :: u32.
          elf_chain (2 + length head) head chns (sint n) indices))
        [0..<unat nbuckets] [])"

definition ELFBinary_CollectSymbolsFromDynamic :: "ELFBinary \<Rightarrow> int list res" where
  "ELFBinary_CollectSymbolsFromDynamic bn =
     rbind
       (case bn_gnu_hash bn of
          Some g \<Rightarrow> CollectSymbolsFromGnuHash (bn_head bn) g
        | None \<Rightarrow>
            (case bn_hash bn of
               None \<Rightarrow> Inl CHECK_failed
             | Some h \<Rightarrow> CollectSymbolsFromElfHash (bn_head bn) h)) (\<lambda>indices.
     rbind (CollectSymbolsFromReloc (bn_head bn) (bn_rel bn) (bn_num_rels bn)) (\<lambda>rs.
     rbind (CollectSymbolsFromReloc (bn_head bn) (bn_plt_rel bn) (bn_num_plt_rels bn)) (\<lambda>ps.
     Inr (fold insort_insert ps (fold insort_insert rs indices)))))"

section \<open>Versions\<close>

definition versym_at :: "ELFBinary \<Rightarrow> u64 \<Rightarrow> int \<Rightarrow> u16 res" where
  "versym_at bn v index = word_at 2 (bn_head bn) (unat (v + of_int (2 * index)))"

fun vernaux_loop :: "image \<Rightarrow> u16 \<Rightarrow> nat \<Rightarrow> u64 \<Rightarrow> Elf_Vernaux option res" where
  "vernaux_loop head v 0 p = Inr None"
| "vernaux_loop head v (Suc n) p =
     rbind (read_struct dec_Elf_Vernaux 16 head p) (\<lambda>vna.
     if vna_other vna = v then Inr (Some vna) else vernaux_loop head v n (p + ucast (vna_next vna)))"

fun verneed_loop ::
  "ELFBinary \<Rightarrow> (string \<rightharpoonup> string) \<Rightarrow> u16 \<Rightarrow> nat \<Rightarrow> u64 \<Rightarrow> (string \<times> string) option res" where
  "verneed_loop bn filename_to_soname v 0 p = Inr None"
| "verneed_loop bn filename_to_soname v (Suc n) p =
     rbind (read_struct dec_Elf_Verneed 16 (bn_head bn) p) (\<lambda>vn.
     rbind (vernaux_loop (bn_head bn) v (unat (vn_cnt vn)) (p + ucast (vn_aux vn))) (\<lambda>found.
     case found of
       Some vna \<Rightarrow>
         rbind (ELFBinary_Str (ucast (vn_file vn)) bn) (\<lambda>filename.
         case filename_to_soname filename of
           Some soname \<Rightarrow> rbind (ELFBinary_Str (ucast (vna_name vna)) bn) (\<lambda>version. Inr (Some (soname, version)))
         | None \<Rightarrow> Inl LOG_FATAL)
     | None \<Rightarrow> verneed_loop bn filename_to_soname v n (p + ucast (vn_next vn))))"

fun verdef_loop ::
  "ELFBinary \<Rightarrow> u16 \<Rightarrow> nat \<Rightarrow> u64 \<Rightarrow> string \<Rightarrow> string \<Rightarrow> (string \<times> string) res" where
  "verdef_loop bn v 0 p soname version = Inr (soname, version)"
| "verdef_loop bn v (Suc n) p soname version =
     rbind (read_struct dec_Elf_Verdef 20 (bn_head bn) p) (\<lambda>vd.
     rbind (if vd_flags vd AND VER_FLG_BASE \<noteq> 0 \<or> vd_ndx vd = v
            then rbind (read_struct dec_Elf_Verdaux 8 (bn_head bn) (p + ucast (vd_aux vd))) (\<lambda>vda.
                 ELFBinary_Str (ucast (vda_name vda)) bn)
            else Inr []) (\<lambda>s.
     verdef_loop bn v n (p + ucast (vd_next vd))
       (if vd_flags vd AND VER_FLG_BASE \<noteq> 0 then s else soname)
       (if vd_ndx vd = v then s else version)))"

definition ELFBinary_GetVersion :: "int \<Rightarrow> (string \<rightharpoonup> string) \<Rightarrow> ELFBinary \<Rightarrow> (string \<times> string) res" where
  "ELFBinary_GetVersion index filename_to_soname bn =
     (case bn_versym bn of
        None \<Rightarrow> Inr ([], [])
      | Some vp \<Rightarrow>
          rbind (versym_at bn vp index) (\<lambda>v.
          if is_special_ver_ndx v then Inr ([], [])
          else
            rbind (case bn_verneed bn of
                     None \<Rightarrow> Inr None
                   | Some p \<Rightarrow> verneed_loop bn filename_to_soname v (unat (bn_verneednum bn)) p) (\<lambda>found.
            case found of
              Some r \<Rightarrow> Inr r
            | None \<Rightarrow>
                (case bn_verdef bn of
                   None \<Rightarrow> Inr ([], [])
                 | Some p \<Rightarrow>
                     rbind (verdef_loop bn v (unat (bn_verdefnum bn)) p [] []) (\<lambda>(soname, version).
                     if soname \<noteq> [] \<and> version \<noteq> [] then Inr (soname, version) else Inr ([], []))))))"

section \<open>The symbol table\<close>

definition sym_at :: "ELFBinary \<Rightarrow> u64 \<Rightarrow> int \<Rightarrow> Elf_Sym res" where
  "sym_at bn p idx = read_struct dec_Elf_Sym 24 (bn_head bn) (p + of_int (24 * idx))"

definition ReadDynSymtab_step ::
  "(string \<rightharpoonup> string) \<Rightarrow> u64 \<Rightarrow> int \<Rightarrow> (string \<times> string \<times> string) list \<times> ELFBinary
    \<Rightarrow> ((string \<times> string \<times> string) list \<times> ELFBinary) res" where
  "ReadDynSymtab_step filename_to_soname symtab idx = (\<lambda>(duplicate_check, bn).
     rbind (sym_at bn symtab idx) (\<lambda>s.
     if st_name s = 0 then Inr (duplicate_check, bn)
     else
       rbind (ELFBinary_Str (ucast (st_name s)) bn) (\<lambda>symname.
       rbind (ELFBinary_GetVersion idx filename_to_soname bn) (\<lambda>(soname, version).
       rbind (case bn_versym bn of None \<Rightarrow> Inr NO_VERSION_INFO | Some vp \<Rightarrow> versym_at bn vp idx) (\<lambda>v.
       rbind (CHECK ((symname, soname, version) \<notin> set duplicate_check)) (\<lambda>_.
       Inr ((symname, soname, version) # duplicate_check,
            bn\<lparr>bn_nsyms := bn_nsyms bn + 1,
               bn_sym_ptrs := bn_sym_ptrs bn @ [symtab + of_int (24 * idx)],
               bn_syms := bn_syms bn @ [\<lparr>si_name = symname, si_soname = soname, si_version = version,
                                          si_versym = v, si_sym = Some s\<rparr>]\<rparr>)))))))"

definition ELFBinary_ReadDynSymtab :: "(string \<rightharpoonup> string) \<Rightarrow> ELFBinary \<Rightarrow> ELFBinary res" where
  "ELFBinary_ReadDynSymtab filename_to_soname bn =
     (case bn_symtab bn of
        None \<Rightarrow> Inl CHECK_failed
      | Some symtab \<Rightarrow>
          rbind (ELFBinary_CollectSymbolsFromDynamic bn) (\<lambda>indices.
          rbind (rfold (ReadDynSymtab_step filename_to_soname symtab) indices ([], bn)) (\<lambda>(_, bn). Inr bn)))"

end
