(* ===== verification/Library_Search.thy ===== *)
theory Library_Search
  imports Elf_Binary
begin

text \<open>
  Which shared objects are linked: \<^verbatim>\<open>ldsoconf.cc\<close>, and of \<^verbatim>\<open>sold.cc\<close> and \<^verbatim>\<open>sold.h\<close> the search for
  libraries (\<^verbatim>\<open>InitLdLibraryPaths\<close>, \<^verbatim>\<open>ResolveRunPathVariables\<close>, \<^verbatim>\<open>GetLibraryPaths\<close>, \<^verbatim>\<open>Exists\<close>,
  \<^verbatim>\<open>ShouldLink\<close>, \<^verbatim>\<open>ResolveLibraryPaths\<close>) with \<^verbatim>\<open>TopologicalSort\<close>.

  An \<^verbatim>\<open>ELFBinary*\<close> is an index into the list of the objects read so far; 0 is \<^verbatim>\<open>main_binary_\<close>.
  What the operating system answers is the record \<open>world\<close>. Loops that may run forever are partial
  functions whose value is \<^const>\<open>None\<close> when they do.
\<close>

section \<open>Results of code that may not return\<close>

type_synonym 'a run = "'a res option"

definition dbind :: "'a run \<Rightarrow> ('a \<Rightarrow> 'b run) \<Rightarrow> 'b run" where
  "dbind m f = (case m of None \<Rightarrow> None | Some (Inl e) \<Rightarrow> Some (Inl e) | Some (Inr x) \<Rightarrow> f x)"

fun dfold :: "('a \<Rightarrow> 's \<Rightarrow> 's run) \<Rightarrow> 'a list \<Rightarrow> 's \<Rightarrow> 's run" where
  "dfold f [] s = Some (Inr s)"
| "dfold f (x # xs) s = dbind (f x s) (dfold f xs)"

lemma dbind_simps [simp]:
  "dbind None f = None" "dbind (Some (Inl e)) f = Some (Inl e)" "dbind (Some (Inr x)) f = f x"
  by (simp_all add: dbind_def)

lemma dbind_Inr_iff [simp]: "dbind m f = Some (Inr y) \<longleftrightarrow> (\<exists>x. m = Some (Inr x) \<and> f x = Some (Inr y))"
  by (auto simp: dbind_def split: option.splits sum.splits)

lemma dbind_None_iff: "dbind m f = None \<longleftrightarrow> m = None \<or> (\<exists>x. m = Some (Inr x) \<and> f x = None)"
  by (auto simp: dbind_def split: option.splits sum.splits)

section \<open>The operating system\<close>

text \<open>
  The contents of the files, their \<^verbatim>\<open>st_mode\<close> (\<^const>\<open>None\<close>: \<^verbatim>\<open>stat\<close> fails), where \<^verbatim>\<open>mmap\<close> puts a file,
  the variable \<^verbatim>\<open>LD_LIBRARY_PATH\<close>, and the matches of a \<^verbatim>\<open>glob\<close> pattern.
\<close>

record world =
  w_files :: "string \<Rightarrow> u8 list option"
  w_mode :: "string \<Rightarrow> u32 option"
  w_mmap :: "string \<Rightarrow> u64"
  w_ld_library_path :: "string option"
  w_glob :: "string \<Rightarrow> string list"

section \<open>ld.so.conf\<close>

text \<open>Formatted input of a string: white space is skipped, then characters up to the next white space.\<close>

definition is_space :: "char \<Rightarrow> bool" where
  "is_space c \<longleftrightarrow> c \<in> {CHR '' '', CHR 0x09, CHR 0x0A, CHR 0x0B, CHR 0x0C, CHR 0x0D}"

definition skip_space :: "string \<Rightarrow> string" where
  "skip_space f = dropWhile is_space f"

definition get_word :: "string \<Rightarrow> string \<times> string" where
  "get_word f = (takeWhile (\<lambda>c. \<not> is_space c) (skip_space f), dropWhile (\<lambda>c. \<not> is_space c) (skip_space f))"

definition rest_of_line :: "string \<Rightarrow> string" where
  "rest_of_line f = tl (dropWhile (\<lambda>c. c \<noteq> CHR 0x0A) f)"

lemma length_get_word: "length (snd (get_word f)) \<le> length f"
  by (simp add: get_word_def skip_space_def) (meson length_dropWhile_le order_trans)

lemma length_rest_of_line: "length (rest_of_line f) \<le> length f"
  by (simp add: rest_of_line_def) (meson diff_le_self le_trans length_dropWhile_le)

lemma length_get_word_less: "fst (get_word f) \<noteq> [] \<Longrightarrow> length (snd (get_word f)) < length f"
proof -
  assume a: "fst (get_word f) \<noteq> []"
  let ?t = "skip_space f"
  have "length (takeWhile (\<lambda>c. \<not> is_space c) ?t) + length (dropWhile (\<lambda>c. \<not> is_space c) ?t) = length ?t"
    by (metis length_append takeWhile_dropWhile_id)
  moreover have "length ?t \<le> length f" by (simp add: skip_space_def length_dropWhile_le)
  moreover have "0 < length (takeWhile (\<lambda>c. \<not> is_space c) ?t)" using a by (simp add: get_word_def)
  ultimately have "length (dropWhile (\<lambda>c. \<not> is_space c) ?t) < length f" by linarith
  then show ?thesis by (simp add: get_word_def)
qed

text \<open>
  \<^verbatim>\<open>read_ldsoconf_dfs\<close>, with the depth of nested includes bounded by the fuel: \<^const>\<open>None\<close> is a deeper
  nesting (the code would exhaust its stack when a file includes itself). The second function is the
  \<^verbatim>\<open>while\<close> loop over the rest of one file.
\<close>

function (sequential) read_ldsoconf_dfs :: "nat \<Rightarrow> world \<Rightarrow> string \<Rightarrow> string list \<Rightarrow> string list option"
  and ldsoconf_loop :: "nat \<Rightarrow> world \<Rightarrow> string \<Rightarrow> string list \<Rightarrow> string list option"
  and ldsoconf_include :: "nat \<Rightarrow> world \<Rightarrow> string list \<Rightarrow> string list \<Rightarrow> string list option" where
  "read_ldsoconf_dfs 0 w filename res = None"
| "read_ldsoconf_dfs (Suc fuel) w filename res =
     (case w_files w filename of
        None \<Rightarrow> Some res
      | Some contents \<Rightarrow> ldsoconf_loop fuel w (map char_of_u8 contents) res)"
| "ldsoconf_loop fuel w f res =
     (let head = fst (get_word f); f' = snd (get_word f)
      in if head = [] then Some res
         else if take 1 head = ''#'' then ldsoconf_loop fuel w (rest_of_line f') res
         else if head = ''include'' then
           (let descendants = fst (get_word f'); f'' = snd (get_word f')
            in Option.bind (ldsoconf_include fuel w (w_glob w descendants) res) (ldsoconf_loop fuel w f''))
         else ldsoconf_loop fuel w f' (res @ [head]))"
| "ldsoconf_include fuel w [] res = Some res"
| "ldsoconf_include fuel w (path # paths) res =
     Option.bind (read_ldsoconf_dfs fuel w path res) (ldsoconf_include fuel w paths)"
  by pat_completeness auto
termination
proof (relation "inv_image (less_than <*lex*> less_than)
    (\<lambda>x. case x of Inl (fuel, w, filename, res) \<Rightarrow> (3 * fuel, 0)
         | Inr (Inl (fuel, w, f, res)) \<Rightarrow> (3 * fuel + 2, length f)
         | Inr (Inr (fuel, w, paths, res)) \<Rightarrow> (3 * fuel + 1, length paths))", goal_cases)
  case (3 fuel w f res head f')
  then show ?case
    using length_get_word_less [of f] length_rest_of_line [of "snd (get_word f)"] by simp
next
  case (5 fuel w f res head f' descendants f'')
  then show ?case
    using length_get_word_less [of f] length_get_word [of "snd (get_word f)"] by simp
next
  case (6 fuel w f res head f')
  then show ?case using length_get_word_less [of f] by simp
qed auto

declare ldsoconf_loop.simps [simp del]

definition read_ldsoconf :: "nat \<Rightarrow> world \<Rightarrow> string list option" where
  "read_ldsoconf fuel w = read_ldsoconf_dfs fuel w ''/etc/ld.so.conf'' []"

section \<open>Search paths\<close>

text \<open>
  The objects read so far and what \<^verbatim>\<open>Sold\<close> keeps about them. \<^verbatim>\<open>libraries_\<close> maps the name of a
  \<^verbatim>\<open>DT_NEEDED\<close> entry to the object it stands for.
\<close>

record SoldSearch =
  so_bins :: "ELFBinary list"
  so_ld_library_paths :: "string list"
  so_exclude_sos :: "string list"
  so_exclude_finis :: "string list"
  so_custome_library_path :: "string list"
  so_libraries :: "(string \<times> nat) list"
  so_link_binaries :: "nat list"
  so_filename_to_soname :: "string \<rightharpoonup> string"
  so_soname_to_filename :: "string \<rightharpoonup> string"

definition InitLdLibraryPaths :: "world \<Rightarrow> 'z SoldSearch_scheme \<Rightarrow> 'z SoldSearch_scheme res" where
  "InitLdLibraryPaths w so =
     (case w_ld_library_path w of
        None \<Rightarrow> Inr so
      | Some paths \<Rightarrow>
          rbind (SplitString paths '':'') (\<lambda>ps.
          Inr (so\<lparr>so_ld_library_paths := so_ld_library_paths so @ ps\<rparr>)))"

text \<open>The libc function: the path without its last component and the slashes before it.\<close>

definition dirname :: "string \<Rightarrow> string" where
  "dirname path =
     (let strip = (\<lambda>s. rev (dropWhile (\<lambda>c. c = CHR ''/'') (rev s)));
          body = strip path
      in if path = [] then ''.''
         else if body = [] then ''/''
         else if CHR ''/'' \<notin> set body then ''.''
         else (let d = strip (rev (dropWhile (\<lambda>c. c \<noteq> CHR ''/'') (rev body)))
               in if d = [] then ''/'' else d))"

text \<open>The \<^verbatim>\<open>while\<close> loop of \<^verbatim>\<open>replace\<close>, which looks for the next match from the start of the string.\<close>

partial_function (option) replace_loop :: "string \<Rightarrow> string \<Rightarrow> string \<Rightarrow> string option" where
  "replace_loop f t s =
     (case str_find s f 0 of
        None \<Rightarrow> Some s
      | Some found \<Rightarrow> replace_loop f t (take found s @ t @ drop (found + length f) s))"

definition ResolveRunPathVariables :: "ELFBinary \<Rightarrow> string \<Rightarrow> string run" where
  "ResolveRunPathVariables binary runpath =
     (let origin = dirname (bn_filename binary)
      in Option.bind (replace_loop ''$ORIGIN'' origin runpath) (\<lambda>out.
         Option.bind (replace_loop ''${ORIGIN}'' origin out) (\<lambda>out.
         Some (if str_find out ''$'' 0 \<noteq> None then Inl Aborted else Inr out))))"

definition push_resolved :: "ELFBinary \<Rightarrow> string \<Rightarrow> string list \<Rightarrow> string list run" where
  "push_resolved binary searchpath library_paths =
     dbind (Some (SplitString searchpath '':'')) (\<lambda>ps.
     dfold (\<lambda>path out. dbind (ResolveRunPathVariables binary path) (\<lambda>p. Some (Inr (out @ [p])))) ps library_paths)"

definition GetLibraryPaths :: "nat \<Rightarrow> world \<Rightarrow> 'z SoldSearch_scheme \<Rightarrow> ELFBinary \<Rightarrow> string list run" where
  "GetLibraryPaths fuel w so binary =
     (let runpath = bn_runpath binary; rpath = bn_rpath binary
      in dbind (if so_custome_library_path so = [] \<and> runpath = [] \<and> rpath \<noteq> []
                then push_resolved binary rpath [] else Some (Inr [])) (\<lambda>ps.
         let ps = ps @ so_ld_library_paths so
         in dbind (if runpath \<noteq> [] then push_resolved binary runpath ps else Some (Inr ps)) (\<lambda>ps.
            dbind (if so_custome_library_path so = []
                   then Option.bind (read_ldsoconf fuel w) (\<lambda>ldsoconfs.
                        Some (Inr (ps @ ldsoconfs @ [''/lib'', ''/usr/lib'', ''/usr/lib64''])))
                   else Some (Inr ps)) (\<lambda>ps.
            Some (Inr (ps @ so_custome_library_path so))))))"

text \<open>\<^verbatim>\<open>S_IFMT\<close> and \<^verbatim>\<open>S_IFREG\<close> are \<^verbatim>\<open>0170000\<close> and \<^verbatim>\<open>0100000\<close>.\<close>

definition Exists :: "world \<Rightarrow> string \<Rightarrow> bool" where
  "Exists w filename =
     (case w_mode w filename of None \<Rightarrow> False | Some m \<Rightarrow> (m AND 0xf000) AND 0x8000 \<noteq> 0)"

definition EXCLUDE_SHARED_OBJECTS :: "string list" where
  "EXCLUDE_SHARED_OBJECTS =
     [''libc.so'', ''libm.so'', ''libdl.so'', ''librt.so'', ''libpthread.so'', ''ld-linux'', ''libutil.so'',
      ''libgcc_s.so'', ''libstdc++.so'', ''libgomp.so'', ''libgfortran.so'', ''libquadmath.so'', ''libudev.so'',
      ''libnuma.so'', ''libltdl.so'', ''libcuda.so'', ''libopenblas.so'']"

definition ShouldLink :: "string \<Rightarrow> 'z SoldSearch_scheme \<Rightarrow> bool" where
  "ShouldLink soname so \<longleftrightarrow>
     \<not> list_ex (HasPrefix soname) EXCLUDE_SHARED_OBJECTS \<and> \<not> list_ex (HasPrefix soname) (so_exclude_sos so)"

section \<open>The order of the linked objects\<close>

text \<open>
  \<^verbatim>\<open>buf\<close> is the part before \<^verbatim>\<open>i_it\<close>, which the loop no longer touches, and the list from \<^verbatim>\<open>i_it\<close> on.
  \<^verbatim>\<open>k_it\<close> runs backwards over the objects behind \<^verbatim>\<open>i_it\<close>; which of them needs \<^verbatim>\<open>i_it\<close> does not matter.
\<close>

type_synonym named_bin = "string \<times> nat"

definition needed_behind :: "(nat \<Rightarrow> string list) \<Rightarrow> string \<Rightarrow> (named_bin \<times> int) list \<Rightarrow> bool" where
  "needed_behind neededs name rest = list_ex (\<lambda>k. name \<in> set (neededs (snd (fst k)))) rest"

definition clear_seen :: "(named_bin \<times> int) list \<Rightarrow> (named_bin \<times> int) list" where
  "clear_seen rest = map (\<lambda>k. (fst k, 0)) rest"

definition head_seen :: "(named_bin \<times> int) list \<Rightarrow> int" where
  "head_seen rest = snd (hd rest)"

definition toposort_measure :: "int \<Rightarrow> (named_bin \<times> int) list \<Rightarrow> nat" where
  "toposort_measure n_rest rest =
     sum_list (map (\<lambda>k. nat (n_rest + 1 - snd k)) rest) + (if rest \<noteq> [] \<and> head_seen rest > n_rest then 1 else 0)"

function TopologicalSort_loop ::
  "(nat \<Rightarrow> string list) \<Rightarrow> int \<Rightarrow> named_bin list \<Rightarrow> (named_bin \<times> int) list \<Rightarrow> named_bin list"
where
  "TopologicalSort_loop neededs n_rest done [] = done"
| "TopologicalSort_loop neededs n_rest done (((name, bin), seen) # rest) =
     (if needed_behind neededs name rest then
        (let rest = rest @ [((name, bin), seen + 1)]
         in if head_seen rest > n_rest
            then TopologicalSort_loop neededs n_rest (done @ [fst (hd rest)]) (clear_seen (tl rest))
            else TopologicalSort_loop neededs n_rest done rest)
      else TopologicalSort_loop neededs n_rest (done @ [(name, bin)]) (clear_seen rest))"
  by pat_completeness auto
termination
  by (relation "inv_image (less_than <*lex*> less_than)
      (\<lambda>(neededs, n_rest, done, rest). (length rest, toposort_measure n_rest rest))")
    (auto simp: clear_seen_def toposort_measure_def head_seen_def)

declare TopologicalSort_loop.simps(2) [simp del]

definition TopologicalSort :: "(nat \<Rightarrow> string list) \<Rightarrow> named_bin list \<Rightarrow> nat list" where
  "TopologicalSort neededs link_binaries_buf =
     map snd (TopologicalSort_loop neededs (int (length link_binaries_buf)) [] (map (\<lambda>p. (p, 0)) link_binaries_buf))"

section \<open>The search\<close>

text \<open>The loop over the search paths; \<^const>\<open>None\<close> is \<^verbatim>\<open>!library\<close>.\<close>

fun find_library :: "world \<Rightarrow> string \<Rightarrow> string list \<Rightarrow> ELFBinary option res" where
  "find_library w needed [] = Inr None"
| "find_library w needed (path # paths) =
     (let filename = path @ ''/'' @ needed
      in if Exists w filename then
           rbind (ReadELF (w_mmap w filename) (w_files w) filename) (\<lambda>library.
           if library \<noteq> None then Inr library else find_library w needed paths)
         else find_library w needed paths)"

type_synonym 'z search = "nat list \<times> named_bin list \<times> 'z SoldSearch_scheme"

definition resolve_needed :: "world \<Rightarrow> string list \<Rightarrow> string \<Rightarrow> 'z search \<Rightarrow> 'z search res" where
  "resolve_needed w library_paths needed = (\<lambda>(bfs_queue, link_binaries_buf, so).
     if map_of (so_libraries so) needed \<noteq> None then Inr (bfs_queue, link_binaries_buf, so)
     else
       rbind (find_library w needed library_paths) (\<lambda>found.
       case found of
         None \<Rightarrow> Inl LOG_FATAL
       | Some library \<Rightarrow>
           if bn_name library \<noteq> [] \<and> bn_soname library \<noteq> [] then
             (let id = length (so_bins so);
                  so = so\<lparr>so_filename_to_soname := (so_filename_to_soname so)(bn_name library \<mapsto> bn_soname library),
                          so_soname_to_filename := (so_soname_to_filename so)(bn_soname library \<mapsto> bn_name library)\<rparr>;
                  link_binaries_buf =
                    (if ShouldLink (bn_soname library) so then link_binaries_buf @ [(needed, id)] else link_binaries_buf);
                  so = so\<lparr>so_bins := so_bins so @ [library],
                          so_libraries := omap_put needed id (so_libraries so)\<rparr>
              in Inr (bfs_queue @ [id], link_binaries_buf, so))
           else Inl LOG_FATAL))"

definition bfs_step :: "nat \<Rightarrow> world \<Rightarrow> 'z search \<Rightarrow> 'z search run" where
  "bfs_step fuel w = (\<lambda>(bfs_queue, link_binaries_buf, so).
     (let binary = so_bins so ! hd bfs_queue
      in dbind (GetLibraryPaths fuel w so binary) (\<lambda>library_paths.
         Some (rfold (resolve_needed w library_paths) (bn_neededs binary) (tl bfs_queue, link_binaries_buf, so)))))"

partial_function (option) bfs_loop :: "nat \<Rightarrow> world \<Rightarrow> 'z search \<Rightarrow> 'z search run" where
  "bfs_loop fuel w st =
     (if fst st = [] then Some (Inr st)
      else case bfs_step fuel w st of
             None \<Rightarrow> None
           | Some (Inl e) \<Rightarrow> Some (Inl e)
           | Some (Inr st') \<Rightarrow> bfs_loop fuel w st')"

definition ResolveLibraryPaths :: "nat \<Rightarrow> world \<Rightarrow> 'z SoldSearch_scheme \<Rightarrow> 'z SoldSearch_scheme run" where
  "ResolveLibraryPaths fuel w so =
     dbind (bfs_loop fuel w ([0], [([], 0)], so)) (\<lambda>(_, link_binaries_buf, so).
     Some (Inr (so\<lparr>so_link_binaries := TopologicalSort (\<lambda>b. bn_neededs (so_bins so ! b)) link_binaries_buf\<rparr>)))"

end
