(* ===== verification/Sold_State.thy ===== *)
theory Sold_State
  imports Library_Search Symtab Mprotect Shdr EHFrame Elf_Symbols
begin

text \<open>
  The class \<^verbatim>\<open>Sold\<close>: its members, the sizes and offsets of the parts of the output file (\<^verbatim>\<open>sold.h\<close>),
  its constructor and the placement of the objects in memory (\<^verbatim>\<open>DecideMemOffset\<close>).
\<close>

section \<open>State\<close>

text \<open>\<^verbatim>\<open>struct TLS\<close>; the start of a template is an offset into its object's file.\<close>

record TLS_Data =
  td_bin :: nat
  td_start :: u64
  td_size :: u64
  td_file_offset :: u64
  td_bss_offset :: u64

record TLS =
  tls_data :: "TLS_Data list"
  tls_bin_to_index :: "nat \<rightharpoonup> nat"
  tls_filesz :: u64
  tls_memsz :: u64

record Load =
  ld_bin :: nat
  ld_orig :: Elf_Phdr
  ld_emit :: Elf_Phdr

text \<open>
  The three function-local \<^verbatim>\<open>static\<close> variables of \<^verbatim>\<open>TLSFileSize\<close>, \<^verbatim>\<open>EHFrameSize\<close> and \<^verbatim>\<open>TLSMemSize\<close>
  belong to the process: a second \<^verbatim>\<open>Sold\<close> object starts with the values the first one left.
\<close>

record statics =
  sc_TLSFileSize :: u64
  sc_EHFrameSize :: u64
  sc_TLSMemSize :: u64

record Sold = SoldSearch +
  so_statics :: statics
  so_machine_type :: u16
  so_offsets :: "nat \<rightharpoonup> u64"
  so_tls_file_offset :: u64
  so_ehframe_file_offset :: u64
  so_mprotect_file_offset :: u64
  so_tls_offset :: u64
  so_ehframe_offset :: u64
  so_mprotect_offset :: u64
  so_is_executable :: bool
  so_emit_section_header :: bool
  so_interp_offset :: u64
  so_syms :: SymtabBuilder
  so_rels :: "Elf_Rel list"
  so_strtab :: StrtabBuilder
  so_version :: VersionBuilder
  so_ehframe_builder :: EHFrameBuilder
  so_memprotect_builder :: MprotectBuilder
  so_shdr :: ShdrBuilder
  so_ehdr :: Elf_Ehdr
  so_loads :: "Load list"
  so_dynamic :: "Elf_Dyn list"
  so_init_array :: "u64 list"
  so_fini_array :: "u64 list"
  so_bin_to_init_array_offset :: "nat \<rightharpoonup> u64"
  so_bin_to_fini_array_offset :: "nat \<rightharpoonup> u64"
  so_tls :: TLS

definition binary :: "'z SoldSearch_scheme \<Rightarrow> nat \<Rightarrow> ELFBinary" where
  "binary so b = so_bins so ! b"

abbreviation main_binary :: "'z SoldSearch_scheme \<Rightarrow> ELFBinary" where
  "main_binary so \<equiv> binary so 0"

text \<open>\<^verbatim>\<open>offsets_[bin]\<close>, which is 0 for an object without an entry.\<close>

definition load_offset :: "Sold \<Rightarrow> nat \<Rightarrow> u64" where
  "load_offset so b = (case so_offsets so b of None \<Rightarrow> 0 | Some off \<Rightarrow> off)"

text \<open>
  The loops over \<^verbatim>\<open>link_binaries_\<close> and their \<^verbatim>\<open>phdrs()\<close> of one type: the headers in the order they
  are visited, each with its object.
\<close>

definition linked_phdrs :: "u32 \<Rightarrow> 'z SoldSearch_scheme \<Rightarrow> (nat \<times> Elf_Phdr) list" where
  "linked_phdrs type so =
     concat (map (\<lambda>b. map (Pair b) (filter (\<lambda>p. p_type p = type) (bn_phdrs (binary so b)))) (so_link_binaries so))"

section \<open>Sizes and offsets\<close>

definition Sold_CountPhdrs :: "Sold \<Rightarrow> u64" where
  "Sold_CountPhdrs so =
     (let n = 2 :: u64;
          n = (if so_is_executable so then n + 2 else n);
          n = (if tls_memsz (so_tls so) \<noteq> 0 then n + 2 else n)
      in foldl (\<lambda>n b. n + of_nat (length (bn_loads (binary so b)))) (n + 2 + 1 + 1) (so_link_binaries so))"

definition Sold_InitArrayOffset :: "Sold \<Rightarrow> u64" where
  "Sold_InitArrayOffset so = AlignNext_mask (64 + 56 * Sold_CountPhdrs so) 7"

definition Sold_InitArraySize :: "Sold \<Rightarrow> u64" where
  "Sold_InitArraySize so = 8 * of_nat (length (so_init_array so))"

definition Sold_FiniArrayOffset :: "Sold \<Rightarrow> u64" where
  "Sold_FiniArrayOffset so = Sold_InitArrayOffset so + Sold_InitArraySize so"

definition Sold_FiniArraySize :: "Sold \<Rightarrow> u64" where
  "Sold_FiniArraySize so = 8 * of_nat (length (so_fini_array so))"

definition Sold_GnuHashOffset :: "Sold \<Rightarrow> u64" where
  "Sold_GnuHashOffset so = Sold_FiniArrayOffset so + Sold_FiniArraySize so"

definition Sold_GnuHashSize :: "Sold \<Rightarrow> u64 res" where
  "Sold_GnuHashSize so = SymtabBuilder_GnuHashSize (so_syms so)"

definition Sold_SymtabOffset :: "Sold \<Rightarrow> u64 res" where
  "Sold_SymtabOffset so = rbind (Sold_GnuHashSize so) (\<lambda>s. Inr (Sold_GnuHashOffset so + s))"

definition Sold_SymtabSize :: "Sold \<Rightarrow> u64" where
  "Sold_SymtabSize so = of_nat (SymtabBuilder_size (so_syms so)) * 24"

definition Sold_VersymOffset :: "Sold \<Rightarrow> u64 res" where
  "Sold_VersymOffset so = rbind (Sold_SymtabOffset so) (\<lambda>o'. Inr (o' + Sold_SymtabSize so))"

definition Sold_VersymSize :: "Sold \<Rightarrow> u64" where
  "Sold_VersymSize so = of_nat (VersionBuilder_SizeVersym (so_version so))"

definition Sold_VerneedOffset :: "Sold \<Rightarrow> u64 res" where
  "Sold_VerneedOffset so = rbind (Sold_VersymOffset so) (\<lambda>o'. Inr (o' + Sold_VersymSize so))"

definition Sold_VerneedSize :: "Sold \<Rightarrow> u64" where
  "Sold_VerneedSize so = of_nat (VersionBuilder_SizeVerneed (so_version so))"

definition Sold_RelOffset :: "Sold \<Rightarrow> u64 res" where
  "Sold_RelOffset so = rbind (Sold_VerneedOffset so) (\<lambda>o'. Inr (o' + Sold_VerneedSize so))"

definition Sold_RelSize :: "Sold \<Rightarrow> u64" where
  "Sold_RelSize so = of_nat (length (so_rels so)) * 24"

definition Sold_StrtabOffset :: "Sold \<Rightarrow> u64 res" where
  "Sold_StrtabOffset so = rbind (Sold_RelOffset so) (\<lambda>o'. Inr (o' + Sold_RelSize so))"

definition Sold_StrtabSize :: "Sold \<Rightarrow> u64" where
  "Sold_StrtabSize so = StrtabBuilder_size (so_strtab so)"

definition Sold_DynamicOffset :: "Sold \<Rightarrow> u64 res" where
  "Sold_DynamicOffset so = rbind (Sold_StrtabOffset so) (\<lambda>o'. Inr (o' + Sold_StrtabSize so))"

definition Sold_DynamicSize :: "Sold \<Rightarrow> u64" where
  "Sold_DynamicSize so = 16 * of_nat (length (so_dynamic so))"

definition Sold_ShstrtabOffset :: "Sold \<Rightarrow> u64 res" where
  "Sold_ShstrtabOffset so = rbind (Sold_DynamicOffset so) (\<lambda>o'. Inr (o' + Sold_DynamicSize so))"

definition Sold_ShstrtabSize :: u64 where
  "Sold_ShstrtabSize = of_nat ShdrBuilder_ShstrtabSize"

definition Sold_CodeOffset :: "Sold \<Rightarrow> u64 res" where
  "Sold_CodeOffset so = rbind (Sold_ShstrtabOffset so) (\<lambda>o'. Inr (AlignNext (o' + Sold_ShstrtabSize)))"

definition Sold_CodeSize :: "Sold \<Rightarrow> u64" where
  "Sold_CodeSize so = foldl (\<lambda>p ld. p + (p_offset (ld_emit ld) + p_filesz (ld_orig ld))) 0 (so_loads so)"

definition Sold_TLSOffset :: "Sold \<Rightarrow> u64" where
  "Sold_TLSOffset so = so_tls_file_offset so"

text \<open>The sums behind the cached sizes.\<close>

definition sum_TLSFileSize :: "Sold \<Rightarrow> u64" where
  "sum_TLSFileSize so = foldl (\<lambda>s bp. s + p_filesz (snd bp)) 0 (linked_phdrs PT_TLS so)"

definition sum_TLSMemSize :: "Sold \<Rightarrow> u64" where
  "sum_TLSMemSize so = foldl (\<lambda>s bp. s + p_memsz (snd bp)) 0 (linked_phdrs PT_TLS so)"

definition sum_EHFrameSize :: "Sold \<Rightarrow> u64" where
  "sum_EHFrameSize so =
     (let n_fdes = foldl (\<lambda>n bp. n + eh_fde_count (bn_eh_frame_header (binary so (fst bp)))) 0
                     (linked_phdrs PT_GNU_EH_FRAME so) :: u32
      in 12 + scast n_fdes * (4 + 4))"

text \<open>
  The value of the functions with a \<^verbatim>\<open>static\<close> cache; \<open>cache_\<close> is their effect on it, written down at
  the first call of a run (all later calls of the run return the cached value).
\<close>

definition Sold_TLSFileSize :: "Sold \<Rightarrow> u64" where
  "Sold_TLSFileSize so =
     (if sc_TLSFileSize (so_statics so) \<noteq> 0 then sc_TLSFileSize (so_statics so) else sum_TLSFileSize so)"

definition Sold_TLSMemSize :: "Sold \<Rightarrow> u64" where
  "Sold_TLSMemSize so =
     (if sc_TLSMemSize (so_statics so) \<noteq> 0 then sc_TLSMemSize (so_statics so) else sum_TLSMemSize so)"

definition Sold_EHFrameSize :: "Sold \<Rightarrow> u64" where
  "Sold_EHFrameSize so =
     (if sc_EHFrameSize (so_statics so) \<noteq> 0 then sc_EHFrameSize (so_statics so) else sum_EHFrameSize so)"

definition cache_TLSFileSize :: "Sold \<Rightarrow> Sold" where
  "cache_TLSFileSize so = so\<lparr>so_statics := so_statics so\<lparr>sc_TLSFileSize := Sold_TLSFileSize so\<rparr>\<rparr>"

definition cache_TLSMemSize :: "Sold \<Rightarrow> Sold" where
  "cache_TLSMemSize so = so\<lparr>so_statics := so_statics so\<lparr>sc_TLSMemSize := Sold_TLSMemSize so\<rparr>\<rparr>"

definition cache_EHFrameSize :: "Sold \<Rightarrow> Sold" where
  "cache_EHFrameSize so = so\<lparr>so_statics := so_statics so\<lparr>sc_EHFrameSize := Sold_EHFrameSize so\<rparr>\<rparr>"

definition Sold_EHFrameOffset :: "Sold \<Rightarrow> u64" where
  "Sold_EHFrameOffset so = AlignNext (Sold_TLSOffset so + Sold_TLSFileSize so)"

definition Sold_MemprotectOffset :: "Sold \<Rightarrow> u64" where
  "Sold_MemprotectOffset so = so_mprotect_file_offset so"

definition Sold_MprotectSize :: "Sold \<Rightarrow> u64 res" where
  "Sold_MprotectSize so =
     (let n_memprotect = of_nat (length (linked_phdrs PT_GNU_RELRO so)) :: u64
      in if so_machine_type so = EM_X86_64 then
           Inr (of_nat (length memprotect_body_code_x86_64) * n_memprotect + of_nat (length memprotect_end_code_x86_64))
         else if so_machine_type so = EM_AARCH64 then
           Inr (of_nat body_code_length_aarch64 * n_memprotect + of_nat ret_code_length_aarch64)
         else Inl CHECK_failed)"

definition Sold_ShdrOffset :: "Sold \<Rightarrow> u64 res" where
  "Sold_ShdrOffset so = rbind (Sold_MprotectSize so) (\<lambda>s. Inr (Sold_MemprotectOffset so + s))"

section \<open>Construction\<close>

text \<open>
  The members before the body of the constructor runs. \<^verbatim>\<open>interp_offset_\<close> and \<^verbatim>\<open>ehdr_\<close> are not
  initialised; they are written before they are read.
\<close>

definition Sold_init ::
  "statics \<Rightarrow> ELFBinary \<Rightarrow> string list \<Rightarrow> string list \<Rightarrow> string list \<Rightarrow> bool \<Rightarrow> SymtabBuilder \<Rightarrow> MprotectBuilder \<Rightarrow> Sold"
where
  "Sold_init sc bn exclude_sos exclude_finis custome_library_path emit_section_header sm mb =
     \<lparr>so_bins = [bn], so_ld_library_paths = [], so_exclude_sos = exclude_sos, so_exclude_finis = exclude_finis,
      so_custome_library_path = custome_library_path, so_libraries = [], so_link_binaries = [],
      so_filename_to_soname = Map.empty, so_soname_to_filename = Map.empty,
      so_statics = sc, so_machine_type = e_machine (bn_ehdr bn), so_offsets = Map.empty,
      so_tls_file_offset = 0, so_ehframe_file_offset = 0, so_mprotect_file_offset = 0,
      so_tls_offset = 0, so_ehframe_offset = 0, so_mprotect_offset = 0,
      so_is_executable = (ELFBinary_FindPhdr PT_INTERP bn \<noteq> None),
      so_emit_section_header = emit_section_header, so_interp_offset = 0,
      so_syms = sm, so_rels = [], so_strtab = StrtabBuilder_new Map.empty, so_version = VersionBuilder_new,
      so_ehframe_builder = EHFrameBuilder_new, so_memprotect_builder = mb,
      so_shdr = ShdrBuilder_new, so_ehdr = bn_ehdr bn, so_loads = [], so_dynamic = [],
      so_init_array = [], so_fini_array = [], so_bin_to_init_array_offset = Map.empty,
      so_bin_to_fini_array_offset = Map.empty,
      so_tls = \<lparr>tls_data = [], tls_bin_to_index = Map.empty, tls_filesz = 0, tls_memsz = 0\<rparr>\<rparr>"

definition Sold_new ::
  "nat \<Rightarrow> world \<Rightarrow> statics \<Rightarrow> string \<Rightarrow> string list \<Rightarrow> string list \<Rightarrow> string list \<Rightarrow> bool \<Rightarrow> Sold run"
where
  "Sold_new fuel w sc elf_filename exclude_sos exclude_finis custome_library_path emit_section_header =
     dbind (Some (ReadELF (w_mmap w elf_filename) (w_files w) elf_filename)) (\<lambda>main.
     case main of
       None \<Rightarrow> Some (Inl Bad_access)
     | Some bn \<Rightarrow>
         dbind (Some SymtabBuilder_new) (\<lambda>sm.
         dbind (Some (MprotectBuilder_SetMachineType (e_machine (bn_ehdr bn))
                        \<lparr>mb_machine_type = 0, mb_offsets = [], mb_sizes = []\<rparr>)) (\<lambda>mb.
         let so = Sold_init sc bn exclude_sos exclude_finis custome_library_path emit_section_header sm mb;
             so = (if bn_name bn \<noteq> [] \<and> bn_soname bn \<noteq> [] then
                     so\<lparr>so_filename_to_soname := [bn_name bn \<mapsto> bn_soname bn],
                        so_soname_to_filename := [bn_soname bn \<mapsto> bn_name bn]\<rparr> else so)
         in dbind (Some (InitLdLibraryPaths w so)) (\<lambda>so.
            dbind (ResolveLibraryPaths fuel w so) (\<lambda>so.
            Some (Inr (so\<lparr>so_version :=
              VersionBuilder_SetSonameToFilename (so_soname_to_filename so) (so_version so)\<rparr>)))))))"

section \<open>Addresses\<close>

definition DecideMemOffset_step :: "nat \<Rightarrow> u64 \<times> Sold \<Rightarrow> (u64 \<times> Sold) res" where
  "DecideMemOffset_step b = (\<lambda>(offset, so).
     (let r = Range_add (ELFBinary_GetRange (binary so b)) offset
      in rbind (CHECK (rg_start r = offset)) (\<lambda>_.
         Inr (rg_end r,
              so\<lparr>so_offsets := (if so_offsets so b = None then (so_offsets so)(b \<mapsto> rg_start r) else so_offsets so)\<rparr>))))"

definition Sold_DecideMemOffset :: "Sold \<Rightarrow> Sold res" where
  "Sold_DecideMemOffset so =
     rbind (rfold DecideMemOffset_step (so_link_binaries so) (0x10000000, so)) (\<lambda>(offset, so).
     let so = so\<lparr>so_tls_offset := offset\<rparr>;
         offset = AlignNext (offset + Sold_TLSMemSize so);
         so = (cache_TLSMemSize so)\<lparr>so_ehframe_offset := offset\<rparr>;
         offset = AlignNext (offset + Sold_EHFrameSize so);
         so = (cache_EHFrameSize so)\<lparr>so_mprotect_offset := offset\<rparr>
     in rbind (Sold_MprotectSize so) (\<lambda>_. Inr so))"

end
