(* ===== verification/Library_Resolve.thy ===== *)
theory Library_Resolve
  imports Library_Search "HOL-Library.Multiset"
begin

text \<open>
  The search for libraries is correct: \<^const>\<open>TopologicalSort\<close> is a total sort by dependency,
  \<^const>\<open>ResolveRunPathVariables\<close> returns for ordinary directories, and \<^const>\<open>ResolveLibraryPaths\<close> ends
  with every library that is needed.
\<close>

section \<open>The order of the objects\<close>

lemma fst_clear_seen: "map fst (clear_seen rest) = map fst rest"
  by (simp add: clear_seen_def)

lemma TopologicalSort_loop_mset:
  "mset (TopologicalSort_loop neededs n dn rest) = mset dn + mset (map fst rest)"
proof (induction neededs n dn rest rule: TopologicalSort_loop.induct)
  case (1 neededs n dn)
  then show ?case by simp
next
  case (2 neededs n dn name bin seen rest)
  show ?case
  proof (cases "needed_behind neededs name rest")
    case True
    then obtain k ks where "rest = k # ks" by (cases rest) (auto simp: needed_behind_def)
    with True show ?thesis
      using "2.IH"(1) [OF True refl] "2.IH"(2) [OF True refl]
      by (subst TopologicalSort_loop.simps(2)) (auto simp: Let_def fst_clear_seen head_seen_def
        simp flip: mset_map)
  next
    case False
    with "2.IH"(3) [OF False] show ?thesis
      by (subst TopologicalSort_loop.simps(2)) (simp add: fst_clear_seen flip: mset_map)
  qed
qed

text \<open>\<open>y\<close> names \<open>x\<close> in a \<^verbatim>\<open>DT_NEEDED\<close> entry.\<close>

definition needs :: "(nat \<Rightarrow> string list) \<Rightarrow> named_bin \<Rightarrow> named_bin \<Rightarrow> bool" where
  "needs neededs y x \<longleftrightarrow> fst x \<in> set (neededs (snd y))"

text \<open>The objects can be ranked so that each has a lower rank than the others it needs.\<close>

definition ranked :: "(nat \<Rightarrow> string list) \<Rightarrow> (named_bin \<Rightarrow> nat) \<Rightarrow> named_bin set \<Rightarrow> bool" where
  "ranked neededs rank S \<longleftrightarrow> (\<forall>x \<in> S. \<forall>y \<in> S. x \<noteq> y \<longrightarrow> needs neededs y x \<longrightarrow> rank y < rank x)"

text \<open>
  Without cycles no object moves to the end twice while \<^verbatim>\<open>i_it\<close> stays: the moved ones are behind the
  others, and each of them is needed by another object of the list.
\<close>

definition rotated :: "(nat \<Rightarrow> string list) \<Rightarrow> (named_bin \<times> int) list \<Rightarrow> bool" where
  "rotated neededs rest \<longleftrightarrow> distinct (map fst rest) \<and> sorted (map snd rest)
     \<and> (\<forall>k \<in> set rest. snd k = 0 \<or> snd k = 1 \<and> (\<exists>y \<in> fst ` set rest. y \<noteq> fst k \<and> needs neededs y (fst k)))"

lemma rotated_clear_seen: "distinct (map fst rest) \<Longrightarrow> rotated neededs (clear_seen rest)"
  by (auto simp: rotated_def fst_clear_seen clear_seen_def comp_def map_replicate_const)

lemma rotated_head:
  assumes "rotated neededs (k # rest)" and "ranked neededs rank (fst ` set (k # rest))"
  shows "snd k = 0"
proof -
  let ?S = "fst ` set (k # rest)"
  have S: "finite ?S" "?S \<noteq> {}" by simp_all
  define x where "x = arg_min_on rank ?S"
  have x: "x \<in> ?S" "\<And>y. y \<in> ?S \<Longrightarrow> \<not> rank y < rank x"
    using arg_min_if_finite [OF S, of rank] unfolding x_def by blast+
  then obtain k' where k': "k' \<in> set (k # rest)" "fst k' = x" by blast
  have "snd k' = 0"
  proof (rule ccontr)
    assume "snd k' \<noteq> 0"
    moreover have "snd k' = 0 \<or> snd k' = 1 \<and> (\<exists>y \<in> ?S. y \<noteq> fst k' \<and> needs neededs y (fst k'))"
      using assms(1) k'(1) unfolding rotated_def by (elim conjE) (rule bspec)
    ultimately have "\<exists>y \<in> ?S. y \<noteq> x \<and> needs neededs y x" unfolding k'(2) by simp
    then obtain y where y: "y \<in> ?S" "y \<noteq> x" "needs neededs y x" by blast
    have "rank y < rank x"
      using bspec [OF bspec [OF assms(2) [unfolded ranked_def] x(1)] y(1)] y(2,3) by blast
    with x(2) [OF y(1)] show False by blast
  qed
  moreover have "sorted (map snd (k # rest))" using assms(1) by (simp only: rotated_def)
  then have "snd k \<le> snd k'" using k'(1) by auto
  moreover have "snd k = 0 \<or> snd k = 1" using assms(1) unfolding rotated_def by auto
  ultimately show ?thesis by auto
qed

lemma rotated_move:
  assumes "rotated neededs ((x, 0) # rest)" and "needed_behind neededs (fst x) rest"
  shows "rotated neededs (rest @ [(x, 1)])"
proof -
  obtain k where k: "k \<in> set rest" "needs neededs (fst k) x"
    using assms(2) by (auto simp: needed_behind_def list_ex_iff needs_def)
  moreover have "fst k \<noteq> x" using k(1) assms(1) by (auto simp: rotated_def)
  ultimately have "\<exists>y \<in> fst ` set (rest @ [(x, 1)]). y \<noteq> x \<and> needs neededs y x" by auto
  moreover have "s \<le> 1" if "(y, s) \<in> set rest" for y s
    using assms(1) that by (fastforce simp: rotated_def)
  ultimately show ?thesis
    using assms(1) by (fastforce simp: rotated_def sorted_append)
qed

lemma ranked_mono: "ranked neededs rank S \<Longrightarrow> T \<subseteq> S \<Longrightarrow> ranked neededs rank T"
  unfolding ranked_def by blast

lemma TopologicalSort_loop_order:
  assumes "rotated neededs rest" and "ranked neededs rank (fst ` set rest)" and "1 \<le> n"
  shows "\<exists>zs. TopologicalSort_loop neededs n dn rest = dn @ zs \<and> mset zs = mset (map fst rest)
    \<and> sorted_wrt (\<lambda>x y. \<not> needs neededs y x) zs"
  using assms
proof (induction neededs n dn rest rule: TopologicalSort_loop.induct)
  case (1 neededs n dn)
  then show ?case by simp
next
  case (2 neededs n dn name bin seen rest)
  have seen: "seen = 0" using rotated_head [OF "2.prems"(1,2)] by simp
  show ?case
  proof (cases "needed_behind neededs name rest")
    case True
    let ?rest = "rest @ [((name, bin), seen + 1)]"
    have rot: "rotated neededs ?rest" using rotated_move [of neededs "(name, bin)" rest] "2.prems"(1) True seen by simp
    have "?rest \<noteq> []" by simp
    then have "hd ?rest \<in> set ?rest" by (rule hd_in_set)
    then have "\<not> head_seen ?rest > n" using rot "2.prems"(3) unfolding head_seen_def rotated_def by fastforce
    moreover have "ranked neededs rank (fst ` set ?rest)" using "2.prems"(2) by (rule ranked_mono) (simp add: image_Un)
    ultimately show ?thesis
      using "2.IH"(2) [OF True refl _ rot] True "2.prems"(3)
      by (subst TopologicalSort_loop.simps(2)) (auto simp: Let_def)
  next
    case False
    have d: "distinct (map fst rest)" using "2.prems"(1) by (simp add: rotated_def)
    have "set (map fst (clear_seen rest)) \<subseteq> set (map fst (((name, bin), seen) # rest))"
      by (simp only: fst_clear_seen) (simp add: subset_insertI)
    then have "ranked neededs rank (fst ` set (clear_seen rest))"
      using ranked_mono [OF "2.prems"(2)] by simp
    then obtain zs where zs: "TopologicalSort_loop neededs n (dn @ [(name, bin)]) (clear_seen rest)
        = (dn @ [(name, bin)]) @ zs" "mset zs = mset (map fst rest)" "sorted_wrt (\<lambda>x y. \<not> needs neededs y x) zs"
      using "2.IH"(3) [OF False rotated_clear_seen [OF d]] "2.prems"(3) by (auto simp: fst_clear_seen simp flip: mset_map)
    have "set zs = fst ` set rest" using zs(2) by (metis set_mset_mset set_map)
    then have "\<forall>y \<in> set zs. \<not> needs neededs y (name, bin)"
      using False by (auto simp: needed_behind_def list_ex_iff needs_def)
    with zs False show ?thesis
      by (subst TopologicalSort_loop.simps(2)) (auto intro!: exI [of _ "(name, bin) # zs"])
  qed
qed

text \<open>
  C10: whenever the needed libraries form no cycle, the linked objects come out in dependency order:
  no object is needed by one behind it, and the result is a rearrangement of the input.
\<close>
theorem TopologicalSort_order:
  assumes "distinct buf" and "ranked neededs rank (set buf)"
  shows "\<exists>zs. TopologicalSort neededs buf = map snd zs \<and> mset zs = mset buf
    \<and> sorted_wrt (\<lambda>x y. \<not> needs neededs y x) zs"
proof (cases "buf = []")
  case True
  then show ?thesis by (simp add: TopologicalSort_def)
next
  case False
  let ?rest = "map (\<lambda>p. (p, 0)) buf"
  have "rotated neededs ?rest"
    using rotated_clear_seen [of ?rest neededs] assms(1) by (simp add: clear_seen_def comp_def)
  moreover have "ranked neededs rank (fst ` set ?rest)" using assms(2) by (simp add: image_image)
  moreover have "1 \<le> int (length buf)" using False by (simp add: Suc_le_eq)
  ultimately show ?thesis
    using TopologicalSort_loop_order [of neededs ?rest rank "int (length buf)" "[]"]
    by (fastforce simp: TopologicalSort_def comp_def)
qed

definition sample_needs :: "nat \<Rightarrow> string list" where
  "sample_needs b = (if b = 1 then [] else [''a'', ''b''])"

theorem TopologicalSort_order_witness:
  "\<exists>zs. [0, 2, 1] = map snd zs \<and> mset zs = mset [([], 0), (''a'', 1), (''b'', 2)]
    \<and> sorted_wrt (\<lambda>x y. \<not> needs sample_needs y x) zs"
proof -
  let ?buf = "[([], 0), (''a'', 1), (''b'', 2)] :: named_bin list"
  have 1: "distinct ?buf" by simp
  have 2: "ranked sample_needs (\<lambda>x. if snd x = 0 then 0 else if snd x = 2 then 1 else 2) (set ?buf)"
    by (simp add: ranked_def needs_def sample_needs_def)
  have 3: "TopologicalSort sample_needs ?buf = [0, 2, 1]"
    by (simp add: TopologicalSort_def TopologicalSort_loop.simps(2) needed_behind_def head_seen_def clear_seen_def
        sample_needs_def)
  from TopologicalSort_order [OF 1 2] show ?thesis unfolding 3 .
qed

lemma TopologicalSort_mset: "mset (TopologicalSort neededs buf) = mset (map snd buf)"
  using TopologicalSort_loop_mset [of neededs "int (length buf)" "[]" "map (\<lambda>p. (p, 0)) buf"]
  by (simp add: TopologicalSort_def comp_def)

text \<open>
  C26: \<^verbatim>\<open>TopologicalSort\<close> ends for every list of objects, those with cyclic dependencies included, and
  loses and invents none.
\<close>
theorem TopologicalSort_permutation:
  "mset (TopologicalSort neededs buf) = mset (map snd buf)"
  by (rule TopologicalSort_mset)

section \<open>Run paths\<close>

text \<open>An object without program headers, and a file system without files, for concrete inputs.\<close>

definition sample_object :: "string \<Rightarrow> ELFBinary" where
  "sample_object filename = ELFBinary_init filename [] 0 0 (dec_Elf_Ehdr (replicate 64 0))"

definition empty_world :: world where
  "empty_world = \<lparr>w_files = Map.empty, w_mode = Map.empty, w_mmap = (\<lambda>_. 0), w_ld_library_path = None, w_glob = (\<lambda>_. [])\<rparr>"

definition sample_search :: "ELFBinary \<Rightarrow> string list \<Rightarrow> SoldSearch" where
  "sample_search bn custome = \<lparr>so_bins = [bn], so_ld_library_paths = [], so_exclude_sos = [], so_exclude_finis = [],
     so_custome_library_path = custome, so_libraries = [], so_link_binaries = [],
     so_filename_to_soname = Map.empty, so_soname_to_filename = Map.empty\<rparr>"

lemma find_sub_None: "find_sub f s = None \<longleftrightarrow> \<not> sublist f s"
proof (induction f s rule: find_sub.induct)
  case (1 f)
  then show ?case by simp
next
  case (2 f c s)
  have "take (length f) (c # s) = f \<longleftrightarrow> prefix f (c # s)"
    by (metis append_eq_conv_conj prefix_def)
  with 2 show ?case by (simp add: sublist_Cons_right)
qed

lemma str_find_None: "str_find s f 0 = None \<longleftrightarrow> \<not> sublist f s"
  by (simp add: str_find_def find_sub_None)

lemma replace_split:
  assumes "str_find s f 0 = Some i"
  shows "s = take i s @ f @ drop (i + length f) s"
proof -
  from str_find_Some [OF assms] have "take (length f) (drop i s) = f" by simp
  then have "drop i s = f @ drop (length f) (drop i s)" by (metis append_take_drop_id)
  then show ?thesis by (metis append_take_drop_id drop_drop add.commute)
qed

text \<open>Every replacement by a string without a dollar sign removes one.\<close>

lemma replace_loop_returns:
  assumes "CHR ''$'' \<notin> set t" and "CHR ''$'' \<in> set f"
  shows "\<exists>r. replace_loop f t s = Some r \<and> \<not> sublist f r \<and> (CHR ''$'' \<notin> set s \<longrightarrow> r = s)"
proof (induction "count_list s (CHR ''$'')" arbitrary: s rule: less_induct)
  case less
  show ?case
  proof (cases "str_find s f 0")
    case None
    then show ?thesis using str_find_None [of s f] by (subst replace_loop.simps) simp
  next
    case (Some i)
    let ?s = "take i s @ t @ drop (i + length f) s"
    have split: "s = take i s @ f @ drop (i + length f) s" using Some by (rule replace_split)
    have "0 < count_list f (CHR ''$'')" using assms(2) by (metis count_list_0_iff gr0I)
    moreover have "count_list t (CHR ''$'') = 0" using assms(1) by (metis count_notin)
    ultimately have "count_list ?s (CHR ''$'') < count_list s (CHR ''$'')"
      by (subst (3) split) (simp add: count_list_append)
    then obtain r where "replace_loop f t ?s = Some r" "\<not> sublist f r" using less by blast
    moreover have "CHR ''$'' \<in> set s" using assms(2) by (subst split) simp
    ultimately show ?thesis using Some by (subst replace_loop.simps) simp
  qed
qed

text \<open>A replacement that brings the pattern back never ends.\<close>

lemma replace_loop_diverges:
  assumes "sublist f t" and "sublist f s"
  shows "replace_loop f t s = None"
proof (rule ccontr)
  assume "replace_loop f t s \<noteq> None"
  then obtain r where r: "replace_loop f t s = Some r" by blast
  have "\<not> (sublist f t \<and> sublist f s)"
  proof (rule replace_loop.raw_induct [where P = "\<lambda>f t s r. \<not> (sublist f t \<and> sublist f s)", OF _ r])
    fix loop f t s r
    assume IH: "\<And>f t s r. loop f t s = Some r \<Longrightarrow> \<not> (sublist f t \<and> sublist f s)"
      and step: "(case str_find s f 0 of None \<Rightarrow> Some s
        | Some found \<Rightarrow> loop f t (take found s @ t @ drop (found + length f) s)) = Some r"
    show "\<not> (sublist f t \<and> sublist f s)"
    proof (cases "str_find s f 0")
      case None
      then show ?thesis by (simp add: str_find_None)
    next
      case (Some i)
      let ?s = "take i s @ t @ drop (i + length f) s"
      from Some step have "loop f t ?s = Some r" by simp
      then have "\<not> (sublist f t \<and> sublist f ?s)" by (rule IH)
      moreover have "sublist t ?s" by (metis sublist_appendI)
      ultimately show ?thesis by (meson sublist_order.order_trans)
    qed
  qed
  with assms show False by blast
qed

lemma ResolveRunPath_plain:
  assumes d: "CHR ''$'' \<notin> set (dirname (bn_filename bn))"
  shows "\<exists>r. ResolveRunPathVariables bn runpath = Some r \<and> (CHR ''$'' \<notin> set runpath \<longrightarrow> r = Inr runpath)"
proof -
  obtain a where a: "replace_loop ''$ORIGIN'' (dirname (bn_filename bn)) runpath = Some a"
      "CHR ''$'' \<notin> set runpath \<longrightarrow> a = runpath"
    using replace_loop_returns [OF d, of "''$ORIGIN''" runpath] by auto
  obtain b where b: "replace_loop ''${ORIGIN}'' (dirname (bn_filename bn)) a = Some b"
      "CHR ''$'' \<notin> set a \<longrightarrow> b = a"
    using replace_loop_returns [OF d, of "''${ORIGIN}''" a] by auto
  have "str_find runpath ''$'' 0 = None" if "CHR ''$'' \<notin> set runpath"
    using that by (simp add: str_find_def find_sub_char)
  then show ?thesis using a b by (auto simp: ResolveRunPathVariables_def Let_def)
qed

text \<open>
  C27: the expansion of a run path returns whenever the directory of the object has no dollar sign in
  its name, and leaves a path without variables alone; in a directory whose name contains
  \<^verbatim>\<open>$ORIGIN\<close> it replaces the variable by a path with the variable and never returns.
\<close>
theorem ResolveRunPathVariables_returns:
  "(CHR ''$'' \<notin> set (dirname (bn_filename bn)) \<longrightarrow>
      (\<exists>r. ResolveRunPathVariables bn runpath = Some r \<and> (CHR ''$'' \<notin> set runpath \<longrightarrow> r = Inr runpath)))
   \<and> (sublist ''$ORIGIN'' (dirname (bn_filename bn)) \<and> sublist ''$ORIGIN'' runpath \<longrightarrow>
      ResolveRunPathVariables bn runpath = None)"
proof (intro conjI impI)
  assume "CHR ''$'' \<notin> set (dirname (bn_filename bn))"
  then show "\<exists>r. ResolveRunPathVariables bn runpath = Some r \<and> (CHR ''$'' \<notin> set runpath \<longrightarrow> r = Inr runpath)"
    by (rule ResolveRunPath_plain)
next
  assume "sublist ''$ORIGIN'' (dirname (bn_filename bn)) \<and> sublist ''$ORIGIN'' runpath"
  then show "ResolveRunPathVariables bn runpath = None"
    using replace_loop_diverges [of "''$ORIGIN''" "dirname (bn_filename bn)" runpath]
    by (simp add: ResolveRunPathVariables_def)
qed

theorem ResolveRunPathVariables_returns_witness:
  "ResolveRunPathVariables (sample_object ''/a/b.so'') ''/usr/lib'' = Some (Inr ''/usr/lib'')
   \<and> ResolveRunPathVariables (sample_object ''/$ORIGIN/b.so'') ''$ORIGIN/x'' = None"
proof -
  have 1: "dirname (bn_filename (sample_object ''/a/b.so'')) = ''/a''"
    by (simp add: sample_object_def ELFBinary_init_def dirname_def)
  have 2: "dirname (bn_filename (sample_object ''/$ORIGIN/b.so'')) = ''/$ORIGIN''"
    by (simp add: sample_object_def ELFBinary_init_def dirname_def)
  have "sublist ''$ORIGIN'' (''/'' @ ''$ORIGIN'' @ [])" and "sublist ''$ORIGIN'' ([] @ ''$ORIGIN'' @ ''/x'')"
    by (rule sublist_appendI)+
  then show ?thesis
    using ResolveRunPathVariables_returns [of "sample_object ''/a/b.so''" "''/usr/lib''"]
      ResolveRunPathVariables_returns [of "sample_object ''/$ORIGIN/b.so''" "''$ORIGIN/x''"]
    unfolding 1 2 by simp
qed

section \<open>Breadth-first search\<close>

text \<open>Every library a loaded object names has been found.\<close>

definition resolved :: "'z SoldSearch_scheme \<Rightarrow> nat \<Rightarrow> bool" where
  "resolved so b \<longleftrightarrow> (\<forall>n \<in> set (bn_neededs (so_bins so ! b)). map_of (so_libraries so) n \<noteq> None)"

text \<open>
  What holds between two steps of the search; \<open>busy\<close> are objects whose \<^verbatim>\<open>neededs()\<close> are being resolved.
\<close>

definition libraries_ok :: "'z SoldSearch_scheme \<Rightarrow> bool" where
  "libraries_ok so \<longleftrightarrow> so_bins so \<noteq> [] \<and> omap_wf (so_libraries so)
     \<and> (\<forall>n i. map_of (so_libraries so) n = Some i \<longrightarrow> 0 < i \<and> i < length (so_bins so))
     \<and> (\<forall>m n i. map_of (so_libraries so) m = Some i \<longrightarrow> map_of (so_libraries so) n = Some i \<longrightarrow> m = n)"

definition linked_libraries :: "'z SoldSearch_scheme \<Rightarrow> named_bin set" where
  "linked_libraries so = {(n, i). map_of (so_libraries so) n = Some i \<and> ShouldLink (bn_soname (so_bins so ! i)) so}"

definition search_inv :: "nat set \<Rightarrow> 'z search \<Rightarrow> bool" where
  "search_inv busy = (\<lambda>(queue, buf, so). libraries_ok so
     \<and> distinct (map snd buf) \<and> set buf = insert ([], 0) (linked_libraries so)
     \<and> set queue \<subseteq> {..<length (so_bins so)}
     \<and> (\<forall>b < length (so_bins so). b \<notin> set queue \<longrightarrow> b \<notin> busy \<longrightarrow> resolved so b))"

text \<open>What one name adds.\<close>

definition search_step :: "string \<Rightarrow> 'z search \<Rightarrow> 'z search \<Rightarrow> bool" where
  "search_step needed = (\<lambda>(queue, buf, so) (queue', buf', so').
     if map_of (so_libraries so) needed \<noteq> None then (queue', buf', so') = (queue, buf, so)
     else \<exists>library.
       so_bins so' = so_bins so @ [library]
       \<and> so_libraries so' = omap_put needed (length (so_bins so)) (so_libraries so)
       \<and> so_exclude_sos so' = so_exclude_sos so \<and> so_ld_library_paths so' = so_ld_library_paths so
       \<and> so_custome_library_path so' = so_custome_library_path so
       \<and> queue' = queue @ [length (so_bins so)]
       \<and> buf' = (if ShouldLink (bn_soname library) so then buf @ [(needed, length (so_bins so))] else buf))"

lemma resolve_needed_step:
  assumes "resolve_needed w paths needed st = Inr st'"
  shows "search_step needed st st'"
proof -
  obtain queue buf so where st: "st = (queue, buf, so)" by (cases st)
  show ?thesis
  proof (cases "map_of (so_libraries so) needed")
    case (Some i)
    with assms show ?thesis by (auto simp: st resolve_needed_def search_step_def)
  next
    case None
    with assms obtain library where found: "find_library w needed paths = Inr (Some library)"
      "bn_name library \<noteq> []" "bn_soname library \<noteq> []"
      unfolding st resolve_needed_def by (auto split: option.splits if_splits)
    then have st': "Inr st' = resolve_needed w paths needed (queue, buf, so)" using assms st by simp
    show ?thesis
      using None found st' unfolding st resolve_needed_def search_step_def
      by (auto simp: Let_def ShouldLink_def)
  qed
qed

lemma search_step_inv:
  assumes "search_inv busy st" and "search_step needed st st'"
  shows "search_inv busy st'"
proof -
  obtain queue buf so where st: "st = (queue, buf, so)" by (cases st)
  obtain queue' buf' so' where st': "st' = (queue', buf', so')" by (cases st')
  show ?thesis
  proof (cases "map_of (so_libraries so) needed")
    case (Some i)
    with assms show ?thesis by (simp add: st st' search_step_def)
  next
    case None
    let ?id = "length (so_bins so)"
    from assms(2) None obtain library where
      bins: "so_bins so' = so_bins so @ [library]"
      and libs: "so_libraries so' = omap_put needed ?id (so_libraries so)"
      and excl: "so_exclude_sos so' = so_exclude_sos so"
      and queue: "queue' = queue @ [?id]"
      and buf: "buf' = (if ShouldLink (bn_soname library) so then buf @ [(needed, ?id)] else buf)"
      by (auto simp: st st' search_step_def)
    from assms(1) have ok: "libraries_ok so" and dist: "distinct (map snd buf)"
      and set_buf: "set buf = insert ([], 0) (linked_libraries so)"
      and q: "set queue \<subseteq> {..<?id}"
      and res: "\<And>b. b < ?id \<Longrightarrow> b \<notin> set queue \<Longrightarrow> b \<notin> busy \<Longrightarrow> resolved so b"
      by (auto simp: st search_inv_def)
    have map': "map_of (so_libraries so') = (map_of (so_libraries so))(needed \<mapsto> ?id)"
      using ok by (simp add: libs libraries_ok_def map_of_omap_put)
    have less: "0 < i \<and> i < ?id" if "map_of (so_libraries so) n = Some i" for n i
      using ok that by (auto simp: libraries_ok_def)
    have ok': "libraries_ok so'"
      using ok unfolding libraries_ok_def map'
      by (auto simp: bins libs omap_put_wf intro: less_SucI dest: less split: if_splits)
    have should: "ShouldLink s so' = ShouldLink s so" for s by (simp add: ShouldLink_def excl)
    have nth: "so_bins so' ! i = so_bins so ! i" if "i < ?id" for i using that by (simp add: bins nth_append)
    have linked: "linked_libraries so' = linked_libraries so \<union> (if ShouldLink (bn_soname library) so then {(needed, ?id)} else {})"
      using less None unfolding linked_libraries_def map' should
      by (auto simp: bins nth_append split: if_splits)
    have set_buf': "set buf' = insert ([], 0) (linked_libraries so')"
      using set_buf linked by (auto simp: buf)
    have "i < ?id" if "(n, i) \<in> set buf" for n i
      using that set_buf less ok by (auto simp: linked_libraries_def libraries_ok_def)
    then have "(n, ?id) \<notin> set buf" for n by blast
    then have dist': "distinct (map snd buf')" using dist by (auto simp: buf)
    have res': "resolved so' b" if "b < length (so_bins so')" "b \<notin> set queue'" "b \<notin> busy" for b
    proof -
      have b: "b < ?id" using that by (auto simp: bins queue)
      then have "resolved so b" using that by (intro res) (auto simp: queue)
      then show ?thesis using b by (auto simp: resolved_def map' nth)
    qed
    show ?thesis
      using ok' dist' set_buf' res' q by (auto simp: st' search_inv_def bins queue)
  qed
qed

text \<open>The names found so far stay found, and objects keep their places.\<close>

definition search_le :: "'z search \<Rightarrow> 'z search \<Rightarrow> bool" where
  "search_le = (\<lambda>(_, _, so) (_, _, so'). prefix (so_bins so) (so_bins so')
     \<and> (\<forall>n. map_of (so_libraries so) n \<noteq> None \<longrightarrow> map_of (so_libraries so') n \<noteq> None))"

lemma search_le_trans: "search_le s t \<Longrightarrow> search_le t u \<Longrightarrow> search_le s u"
  by (auto simp: search_le_def intro: prefix_order.order_trans)

lemma search_step_le:
  assumes "search_inv busy st" and "search_step needed st st'"
  shows "search_le st st' \<and> map_of (so_libraries (snd (snd st'))) needed \<noteq> None"
proof -
  obtain queue buf so queue' buf' so' where st: "st = (queue, buf, so)" "st' = (queue', buf', so')"
    by (cases st; cases st')
  have "omap_wf (so_libraries so)" using assms(1) by (simp add: st search_inv_def libraries_ok_def)
  with assms(2) show ?thesis
    by (auto simp: st search_step_def search_le_def map_of_omap_put split: if_splits)
qed

lemma resolve_all:
  assumes "rfold (resolve_needed w paths) ns st = Inr st'" and "search_inv busy st"
  shows "search_inv busy st' \<and> search_le st st' \<and> (\<forall>n \<in> set ns. map_of (so_libraries (snd (snd st'))) n \<noteq> None)"
  using assms
proof (induction ns arbitrary: st)
  case Nil
  then show ?case by (auto simp: search_le_def)
next
  case (Cons n ns)
  from Cons.prems(1) obtain s1 where s1: "resolve_needed w paths n st = Inr s1"
    "rfold (resolve_needed w paths) ns s1 = Inr st'" by auto
  note step = resolve_needed_step [OF s1(1)]
  note inv = search_step_inv [OF Cons.prems(2) step] and le = search_step_le [OF Cons.prems(2) step]
  note IH = Cons.IH [OF s1(2) inv]
  have "map_of (so_libraries (snd (snd st'))) n \<noteq> None"
    using IH le by (auto simp: search_le_def split: prod.splits)
  with IH le show ?case by (auto intro: search_le_trans)
qed

lemma bfs_step_inv:
  assumes "bfs_step fuel w st = Some (Inr st')" and "search_inv {} st" and "fst st \<noteq> []"
  shows "search_inv {} st' \<and> search_le st st'"
proof -
  obtain b queue buf so where st: "st = (b # queue, buf, so)" using assms(3) by (cases st) (auto simp: neq_Nil_conv)
  obtain paths where fold: "rfold (resolve_needed w paths) (bn_neededs (so_bins so ! b)) (queue, buf, so) = Inr st'"
    using assms(1) by (auto simp: st bfs_step_def Let_def)
  have "search_inv {b} (queue, buf, so)" using assms(2) by (auto simp: st search_inv_def)
  note all = resolve_all [OF fold this]
  obtain queue' buf' so' where st': "st' = (queue', buf', so')" by (cases st')
  have b: "b < length (so_bins so)" using assms(2) by (auto simp: st search_inv_def)
  have "so_bins so' ! b = so_bins so ! b"
    using all b by (auto simp: st' search_le_def prefix_def nth_append)
  then have "resolved so' b" using all by (simp add: st' resolved_def)
  then show ?thesis using all by (auto simp: st st' search_inv_def search_le_def)
qed

lemma bfs_loop_inv:
  assumes "bfs_loop fuel w st = Some (Inr st')" and "search_inv {} st"
  shows "search_inv {} st' \<and> search_le st st' \<and> fst st' = []"
proof -
  have "\<forall>st'. r = Inr st' \<longrightarrow> search_inv {} st \<longrightarrow> search_inv {} st' \<and> search_le st st' \<and> fst st' = []"
    if "bfs_loop fuel w st = Some r" for r
  proof (rule bfs_loop.raw_induct [where P = "\<lambda>fuel w st r. \<forall>st'. r = Inr st' \<longrightarrow> search_inv {} st \<longrightarrow>
      search_inv {} st' \<and> search_le st st' \<and> fst st' = []", OF _ that])
    fix loop :: "nat \<Rightarrow> world \<Rightarrow> 'a search \<Rightarrow> 'a search run" and fuel w st r
    assume IH: "\<And>fuel w st r. loop fuel w st = Some r \<Longrightarrow> \<forall>st'. r = Inr st' \<longrightarrow> search_inv {} st \<longrightarrow>
        search_inv {} st' \<and> search_le st st' \<and> fst st' = []"
      and body: "(if fst st = [] then Some (Inr st)
        else case bfs_step fuel w st of None \<Rightarrow> None | Some (Inl e) \<Rightarrow> Some (Inl e)
             | Some (Inr st') \<Rightarrow> loop fuel w st') = Some r"
    show "\<forall>st'. r = Inr st' \<longrightarrow> search_inv {} st \<longrightarrow> search_inv {} st' \<and> search_le st st' \<and> fst st' = []"
    proof (intro allI impI)
      fix st' assume r: "r = Inr st'" and inv: "search_inv {} st"
      show "search_inv {} st' \<and> search_le st st' \<and> fst st' = []"
      proof (cases "fst st = []")
        case True
        with body r inv show ?thesis by (auto simp: search_le_def split: prod.splits)
      next
        case False
        with body r obtain s1 where s1: "bfs_step fuel w st = Some (Inr s1)" "loop fuel w s1 = Some (Inr st')"
          by (auto split: option.splits sum.splits)
        note step = bfs_step_inv [OF s1(1) inv False]
        with IH [OF s1(2)] show ?thesis by (auto intro: search_le_trans)
      qed
    qed
  qed
  with assms show ?thesis by blast
qed


text \<open>
  C9: after the search every library that any loaded object names has been loaded, under one name each;
  the linked objects are the main object and exactly the libraries that are not excluded, each once.
\<close>
theorem ResolveLibraryPaths_closed:
  assumes "ResolveLibraryPaths fuel w so = Some (Inr so')"
    and "so_bins so = [main]" and "so_libraries so = []"
  shows "(\<forall>b < length (so_bins so'). resolved so' b) \<and> so_bins so' ! 0 = main \<and> libraries_ok so'
    \<and> distinct (so_link_binaries so') \<and> set (so_link_binaries so') = insert 0 (snd ` linked_libraries so')"
proof -
  let ?st = "([0], [([], 0)], so)"
  from assms(1) obtain queue buf so1 where loop: "bfs_loop fuel w ?st = Some (Inr (queue, buf, so1))"
    and so': "so' = so1\<lparr>so_link_binaries := TopologicalSort (\<lambda>b. bn_neededs (so_bins so1 ! b)) buf\<rparr>"
    by (auto simp: ResolveLibraryPaths_def)
  have "search_inv {} ?st"
    using assms(2,3) by (auto simp: search_inv_def libraries_ok_def linked_libraries_def)
  note inv = bfs_loop_inv [OF loop this]
  have perm: "mset (so_link_binaries so') = mset (map snd buf)"
    by (simp add: so' TopologicalSort_mset)
  then have "set (so_link_binaries so') = snd ` set buf" by (metis set_map set_mset_mset)
  moreover have "distinct (so_link_binaries so')"
    using mset_eq_imp_distinct_iff [OF perm] inv by (auto simp: search_inv_def)
  moreover have "so_bins so1 ! 0 = main"
    using inv assms(2) by (auto simp: search_le_def prefix_def)
  moreover have "linked_libraries so' = linked_libraries so1"
    by (simp add: so' linked_libraries_def ShouldLink_def)
  ultimately show ?thesis
    using inv by (auto simp: so' search_inv_def resolved_def libraries_ok_def)
qed

theorem ResolveLibraryPaths_closed_witness:
  "\<exists>so'. ResolveLibraryPaths 0 empty_world (sample_search (sample_object ''/a/b.so'') [''/lib'']) = Some (Inr so')
    \<and> (\<forall>b < length (so_bins so'). resolved so' b) \<and> set (so_link_binaries so') = insert 0 (snd ` linked_libraries so')"
proof -
  let ?so = "sample_search (sample_object ''/a/b.so'') [''/lib'']"
  let ?st = "([0], [([], 0)], ?so)"
  have paths: "GetLibraryPaths 0 empty_world ?so (sample_object ''/a/b.so'') = Some (Inr [''/lib''])"
    by (simp add: GetLibraryPaths_def sample_search_def sample_object_def ELFBinary_init_def)
  have "bfs_step 0 empty_world ?st = Some (Inr ([], [([], 0)], ?so))"
    using paths by (simp add: bfs_step_def sample_search_def) (simp add: sample_object_def ELFBinary_init_def)
  then have "bfs_loop 0 empty_world ?st = Some (Inr ([], [([], 0)], ?so))"
    by (subst bfs_loop.simps, simp) (subst bfs_loop.simps, simp)
  then obtain so' where r: "ResolveLibraryPaths 0 empty_world ?so = Some (Inr so')"
    by (simp add: ResolveLibraryPaths_def)
  then show ?thesis
    using ResolveLibraryPaths_closed [OF r, of "sample_object ''/a/b.so''"] by (auto simp: sample_search_def)
qed

section \<open>The search ends\<close>

lemma GetLibraryPaths_cong:
  "so_ld_library_paths so' = so_ld_library_paths so \<Longrightarrow> so_custome_library_path so' = so_custome_library_path so
   \<Longrightarrow> GetLibraryPaths fuel w so' bn = GetLibraryPaths fuel w so bn"
  by (simp add: GetLibraryPaths_def)

text \<open>The names for which some file exists.\<close>

definition file_names :: "world \<Rightarrow> string set" where
  "file_names w = {n. \<exists>path. w_mode w (path @ ''/'' @ n) \<noteq> None}"

lemma finite_file_names: "finite {f. w_mode w f \<noteq> None} \<Longrightarrow> finite (file_names w)"
proof -
  assume fin: "finite {f. w_mode w f \<noteq> None}"
  have "file_names w \<subseteq> (\<Union>f \<in> {f. w_mode w f \<noteq> None}. set (suffixes f))"
    by (fastforce simp: file_names_def in_set_suffixes suffix_def)
  with fin show ?thesis by (meson finite_UN_I finite_set finite_subset)
qed

lemma find_library_file_name: "find_library w needed paths = Inr (Some l) \<Longrightarrow> needed \<in> file_names w"
proof (induction w needed paths rule: find_library.induct)
  case (1 w needed)
  then show ?case by simp
next
  case (2 w needed path paths)
  show ?case
  proof (cases "Exists w (path @ ''/'' @ needed)")
    case True
    then show ?thesis by (auto simp: Exists_def file_names_def split: option.splits)
  next
    case False
    with 2 show ?thesis by simp
  qed
qed

definition search_measure :: "world \<Rightarrow> 'z search \<Rightarrow> nat" where
  "search_measure w = (\<lambda>(queue, buf, so). card (file_names w - dom (map_of (so_libraries so))) + length queue)"

definition same_paths :: "'z search \<Rightarrow> 'z search \<Rightarrow> bool" where
  "same_paths = (\<lambda>(_, _, so) (_, _, so'). so_ld_library_paths so' = so_ld_library_paths so
     \<and> so_custome_library_path so' = so_custome_library_path so)"

lemma resolve_needed_measure:
  assumes "resolve_needed w paths needed st = Inr st'" and "search_inv busy st" and "finite (file_names w)"
  shows "search_measure w st' \<le> search_measure w st \<and> same_paths st st'"
proof -
  obtain queue buf so queue' buf' so' where st: "st = (queue, buf, so)" "st' = (queue', buf', so')"
    by (cases st; cases st')
  note step = resolve_needed_step [OF assms(1)]
  show ?thesis
  proof (cases "map_of (so_libraries so) needed")
    case (Some i)
    with step show ?thesis by (simp add: st search_step_def same_paths_def)
  next
    case None
    have wf: "omap_wf (so_libraries so)" using assms(2) by (simp add: st search_inv_def libraries_ok_def)
    from assms(1) None obtain l where "find_library w needed paths = Inr (Some l)"
      unfolding st resolve_needed_def by (auto split: option.splits if_splits)
    then have mem: "needed \<in> file_names w - dom (map_of (so_libraries so))"
      using None by (auto dest: find_library_file_name)
    have "dom (map_of (so_libraries so')) = insert needed (dom (map_of (so_libraries so)))"
      using step None wf by (auto simp: st search_step_def map_of_omap_put)
    then have "file_names w - dom (map_of (so_libraries so')) = file_names w - dom (map_of (so_libraries so)) - {needed}"
      by blast
    then have "Suc (card (file_names w - dom (map_of (so_libraries so')))) = card (file_names w - dom (map_of (so_libraries so)))"
      using mem assms(3) by (metis card_Suc_Diff1 finite_Diff)
    moreover have "length queue' = Suc (length queue)" using step None by (auto simp: st search_step_def)
    ultimately show ?thesis
      using step None by (auto simp: st search_measure_def search_step_def same_paths_def)
  qed
qed

lemma resolve_all_measure:
  assumes "rfold (resolve_needed w paths) ns st = Inr st'" and "search_inv busy st" and "finite (file_names w)"
  shows "search_measure w st' \<le> search_measure w st \<and> same_paths st st'"
  using assms
proof (induction ns arbitrary: st)
  case Nil
  then show ?case by (simp add: same_paths_def split: prod.splits)
next
  case (Cons n ns)
  from Cons.prems(1) obtain s1 where s1: "resolve_needed w paths n st = Inr s1"
    "rfold (resolve_needed w paths) ns s1 = Inr st'" by auto
  have "search_inv busy s1" by (rule search_step_inv [OF Cons.prems(2) resolve_needed_step [OF s1(1)]])
  note IH = Cons.IH [OF s1(2) this Cons.prems(3)] and one = resolve_needed_measure [OF s1(1) Cons.prems(2,3)]
  have "search_measure w st' \<le> search_measure w st" using IH one by linarith
  moreover have "same_paths st st'" using IH one by (simp add: same_paths_def split: prod.splits)
  ultimately show ?case by blast
qed

text \<open>Parsing keeps the name of the file.\<close>

lemma ParseDynamic_filename:
  "ELFBinary_ParseDynamic off sz bn = Inr bn' \<Longrightarrow> bn_filename bn' = bn_filename bn"
proof -
  have entry: "ParseDynamic_entry dyn bn = Inr bn' \<Longrightarrow> bn_filename bn' = bn_filename bn" for dyn bn bn'
    by (auto simp: ParseDynamic_entry_def Let_def split: if_splits)
  have name: "ParseDynamic_name dyn bn = Inr bn' \<Longrightarrow> bn_filename bn' = bn_filename bn" for dyn bn bn'
    by (auto simp: ParseDynamic_name_def Let_def split: if_splits)
  have entries: "rfold (\<lambda>i bn. rbind (read_dyn bn off i) (\<lambda>dyn. ParseDynamic_entry dyn bn)) is bn = Inr bn'
      \<Longrightarrow> bn_filename bn' = bn_filename bn" for "is" bn bn'
    by (erule rfold_inv [where P = "\<lambda>b. bn_filename b = bn_filename bn"]) (auto dest: entry)
  have names: "rfold (\<lambda>i bn. rbind (read_dyn bn off i) (\<lambda>dyn. ParseDynamic_name dyn bn)) is bn = Inr bn'
      \<Longrightarrow> bn_filename bn' = bn_filename bn" for "is" bn bn'
    by (erule rfold_inv [where P = "\<lambda>b. bn_filename b = bn_filename bn"]) (auto dest: name)
  assume "ELFBinary_ParseDynamic off sz bn = Inr bn'"
  then show ?thesis by (auto simp: ELFBinary_ParseDynamic_def Let_def dest!: entries names)
qed

lemma ParseEHFrameHeader_filename:
  "ELFBinary_ParseEHFrameHeader hd_addr off sz bn = Inr bn' \<Longrightarrow> bn_filename bn' = bn_filename bn"
  unfolding ELFBinary_ParseEHFrameHeader_def Let_def by (simp only: rbind_Inr_iff) (elim exE conjE, clarsimp)

lemma ParsePhdrs_collect_filename:
  "rfold ParsePhdrs_collect is bn = Inr bn' \<Longrightarrow> bn_filename bn' = bn_filename bn"
  by (erule rfold_inv [where P = "\<lambda>b. bn_filename b = bn_filename bn"])
    (auto simp: ParsePhdrs_collect_def Let_def)

lemma ParsePhdrs_dispatch_filename:
  "rfold (ParsePhdrs_dispatch hd_addr) is bn = Inr bn' \<Longrightarrow> bn_filename bn' = bn_filename bn"
  by (erule rfold_inv [where P = "\<lambda>b. bn_filename b = bn_filename bn"])
    (auto simp: ParsePhdrs_dispatch_def dest: ParseDynamic_filename ParseEHFrameHeader_filename split: if_splits)

lemma ParsePhdrs_filename:
  assumes "ELFBinary_ParsePhdrs hd_addr bn = Inr bn'"
  shows "bn_filename bn' = bn_filename bn"
proof -
  from assms obtain b1 b2 b3 where b1: "rfold ParsePhdrs_collect [0..<unat (e_phnum (bn_ehdr bn))] bn = Inr b1"
    and b2: "rfold (ParsePhdrs_dispatch hd_addr) (bn_phdrs b1) b1 = Inr b2"
    and b3: "(case bn_init_array_offset b2 of None \<Rightarrow> Inr b2
        | Some off \<Rightarrow> rbind (ELFBinary_AddrFromOffset off b2) (\<lambda>a. Inr (b2\<lparr>bn_init_array_addr := a\<rparr>))) = Inr b3"
    and b4: "(case bn_fini_array_offset b3 of None \<Rightarrow> Inr b3
        | Some off \<Rightarrow> rbind (ELFBinary_AddrFromOffset off b3) (\<lambda>a. Inr (b3\<lparr>bn_fini_array_addr := a\<rparr>))) = Inr bn'"
    unfolding ELFBinary_ParsePhdrs_def by (simp only: rbind_Inr_iff sum.inject) blast
  have "bn_filename bn' = bn_filename b3" using b4 by (cases "bn_fini_array_offset b3") auto
  moreover have "bn_filename b3 = bn_filename b2" using b3 by (cases "bn_init_array_offset b2") auto
  ultimately show ?thesis using ParsePhdrs_dispatch_filename [OF b2] ParsePhdrs_collect_filename [OF b1] by simp
qed

lemma ELFBinary_new_filename:
  assumes "ELFBinary_new hd_addr filename p mapped sz = Inr bn"
  shows "bn_filename bn = filename"
proof -
  from assms obtain ehdr where
    "ELFBinary_ParsePhdrs hd_addr ((ELFBinary_init filename p mapped sz ehdr)\<lparr>bn_name := basename filename\<rparr>) = Inr bn"
    unfolding ELFBinary_new_def Let_def by (simp only: rbind_Inr_iff) blast
  from ParsePhdrs_filename [OF this] show ?thesis by (simp add: ELFBinary_init_def)
qed

lemma ReadELF_filename:
  assumes "ReadELF hd_addr fs filename = Inr (Some bn)"
  shows "bn_filename bn = filename"
proof -
  obtain contents where "fs filename = Some contents"
    using assms by (cases "fs filename") (auto simp: ReadELF_def)
  then have "\<exists>p mapped sz. ELFBinary_new hd_addr filename p mapped sz = Inr bn"
    using assms unfolding ReadELF_def Let_def by (simp only: option.case split: if_splits) (auto split: if_splits)
  then show ?thesis using ELFBinary_new_filename by blast
qed


text \<open>No directory an object was read from has a dollar sign in its name.\<close>

definition plain_dir :: "string \<Rightarrow> bool" where
  "plain_dir filename \<longleftrightarrow> CHR ''$'' \<notin> set (dirname filename)"

lemma push_resolved_returns:
  assumes "plain_dir (bn_filename bn)"
  shows "push_resolved bn searchpath ps \<noteq> None"
proof -
  have one: "ResolveRunPathVariables bn path \<noteq> None" for path
    using assms ResolveRunPath_plain [of bn path] by (auto simp: plain_dir_def)
  have fold: "dfold (\<lambda>path out. dbind (ResolveRunPathVariables bn path) (\<lambda>p. Some (Inr (out @ [p])))) xs ps \<noteq> None" for xs ps
    using one by (induction xs arbitrary: ps) (auto simp: dbind_None_iff)
  then show ?thesis unfolding push_resolved_def by (cases "SplitString searchpath '':''") auto
qed

lemma GetLibraryPaths_returns:
  assumes "plain_dir (bn_filename bn)" and "read_ldsoconf fuel w \<noteq> None"
  shows "GetLibraryPaths fuel w so bn \<noteq> None"
  using push_resolved_returns [OF assms(1)] assms(2)
  by (auto simp: GetLibraryPaths_def Let_def dbind_None_iff split: if_splits)

definition plain_objects :: "'z search \<Rightarrow> bool" where
  "plain_objects st \<longleftrightarrow> (\<forall>bn \<in> set (so_bins (snd (snd st))). plain_dir (bn_filename bn))"

definition plain_files :: "world \<Rightarrow> bool" where
  "plain_files w \<longleftrightarrow> (\<forall>f. w_mode w f \<noteq> None \<longrightarrow> plain_dir f)"

lemma find_library_plain:
  assumes "plain_files w" and "find_library w needed paths = Inr (Some l)"
  shows "plain_dir (bn_filename l)"
  using assms
proof (induction w needed paths rule: find_library.induct)
  case (1 w needed)
  then show ?case by simp
next
  case (2 w needed path paths)
  let ?f = "path @ ''/'' @ needed"
  show ?case
  proof (cases "Exists w ?f")
    case True
    with "2.prems"(2) obtain r where r: "ReadELF (w_mmap w ?f) (w_files w) ?f = Inr r"
      "(if r \<noteq> None then Inr r else find_library w needed paths) = Inr (Some l)" by (auto simp: Let_def)
    show ?thesis
    proof (cases r)
      case None
      with r "2.IH"(1) [OF refl True r(1) _ "2.prems"(1)] show ?thesis by simp
    next
      case (Some l')
      with r have "bn_filename l = ?f" by (auto dest: ReadELF_filename)
      moreover have "w_mode w ?f \<noteq> None" using True by (auto simp: Exists_def split: option.splits)
      ultimately show ?thesis using "2.prems"(1) by (auto simp: plain_files_def)
    qed
  next
    case False
    with 2 show ?thesis by (simp add: Let_def)
  qed
qed

lemma resolve_all_plain:
  assumes "rfold (resolve_needed w paths) ns st = Inr st'" and "plain_objects st" and "plain_files w"
  shows "plain_objects st'"
  using assms(1,2)
proof (rule rfold_inv [where P = plain_objects])
  fix n st st' assume st: "plain_objects st" and step: "resolve_needed w paths n st = Inr st'"
  obtain queue buf so where eq: "st = (queue, buf, so)" by (cases st)
  show "plain_objects st'"
  proof (cases "map_of (so_libraries so) n")
    case (Some i)
    with st step show ?thesis by (auto simp: eq resolve_needed_def)
  next
    case None
    with step obtain l where l: "find_library w n paths = Inr (Some l)"
      unfolding eq resolve_needed_def by (auto split: option.splits if_splits)
    have "plain_dir (bn_filename l)" using find_library_plain [OF assms(3) l] .
    with None l st step show ?thesis
      unfolding eq resolve_needed_def by (auto simp: Let_def plain_objects_def split: if_splits)
  qed
qed

lemma bfs_loop_returns:
  assumes "finite (file_names w)" and "plain_files w" and "read_ldsoconf fuel w \<noteq> None"
    and "search_inv {} st" and "plain_objects st"
  shows "bfs_loop fuel w st \<noteq> None"
  using assms(4,5)
proof (induction "search_measure w st" arbitrary: st rule: less_induct)
  case less
  show ?case
  proof (cases "fst st = []")
    case True
    then show ?thesis by (subst bfs_loop.simps) simp
  next
    case False
    then obtain b queue buf so where st: "st = (b # queue, buf, so)" by (cases st) (auto simp: neq_Nil_conv)
    have "so_bins so ! b \<in> set (so_bins so)" using less.prems(1) by (auto simp: st search_inv_def)
    then have "plain_dir (bn_filename (so_bins so ! b))" using less.prems(2) by (simp add: st plain_objects_def)
    then have returns: "bfs_step fuel w st \<noteq> None"
      using GetLibraryPaths_returns [OF _ assms(3)] by (auto simp: st bfs_step_def Let_def dbind_None_iff)
    show ?thesis
    proof (cases "\<exists>st'. bfs_step fuel w st = Some (Inr st')")
      case False
      with returns \<open>fst st \<noteq> []\<close> show ?thesis
        by (subst bfs_loop.simps) (auto split: option.splits sum.splits)
    next
      case True
      then obtain st' where st': "bfs_step fuel w st = Some (Inr st')" by blast
      have inv': "search_inv {} st'" using bfs_step_inv [OF st' less.prems(1) False] by simp
      obtain paths where fold: "rfold (resolve_needed w paths) (bn_neededs (so_bins so ! b)) (queue, buf, so) = Inr st'"
        using st' by (auto simp: st bfs_step_def Let_def)
      have "search_inv {b} (queue, buf, so)" using less.prems(1) by (auto simp: st search_inv_def)
      note m = resolve_all_measure [OF fold this assms(1)]
      have "search_measure w st' < search_measure w st" using m by (simp add: st search_measure_def)
      moreover have "plain_objects st'"
        using resolve_all_plain [OF fold _ assms(2)] less.prems(2) by (simp add: st plain_objects_def)
      ultimately have "bfs_loop fuel w st' \<noteq> None" using less.hyps inv' by blast
      with st' False show ?thesis by (subst bfs_loop.simps) simp
    qed
  qed
qed



end
