(* ===== verification/Collect.thy ===== *)
theory Collect
  imports Sold_State
begin

text \<open>
  What \<^verbatim>\<open>Sold::Link\<close> gathers from the linked objects before it relocates them: the TLS templates
  (\<^verbatim>\<open>CollectTLS\<close>, \<^verbatim>\<open>RemapTLS\<close>), the initialisation arrays (\<^verbatim>\<open>CollectArrays\<close>) and the symbols
  (\<^verbatim>\<open>LoadDynSymtab\<close>, \<^verbatim>\<open>CollectSymbols\<close>, \<^verbatim>\<open>CopyPublicSymbols\<close>).
\<close>

section \<open>Thread-local storage\<close>

definition CollectTLS_step :: "nat \<times> Elf_Phdr \<Rightarrow> u64 \<times> Sold \<Rightarrow> (u64 \<times> Sold) res" where
  "CollectTLS_step = (\<lambda>(b, phdr) (bss_offset, so).
     (let tls = so_tls so
      in rbind (ELFBinary_GetPtr (p_vaddr phdr) (binary so b)) (\<lambda>start.
         let sz = p_filesz phdr; file_offset = tls_filesz tls
         in rbind (CHECK (tls_bin_to_index tls b = None)) (\<lambda>_.
            Inr (bss_offset + (p_memsz phdr - sz),
                 so\<lparr>so_tls := \<lparr>
                   tls_data = tls_data tls @ [\<lparr>td_bin = b, td_start = start, td_size = sz,
                                               td_file_offset = file_offset, td_bss_offset = bss_offset\<rparr>],
                   tls_bin_to_index = (tls_bin_to_index tls)(b \<mapsto> length (tls_data tls)),
                   tls_filesz = tls_filesz tls + sz,
                   tls_memsz = tls_memsz tls + p_memsz phdr\<rparr>\<rparr>)))))"

definition Sold_CollectTLS :: "Sold \<Rightarrow> Sold res" where
  "Sold_CollectTLS so =
     rbind (rfold CollectTLS_step (linked_phdrs PT_TLS so) (0, so)) (\<lambda>(_, so).
     rbind (CHECK (tls_memsz (so_tls so) = Sold_TLSMemSize so)) (\<lambda>_.
     let tls = so_tls so
     in Inr (so\<lparr>so_tls := tls\<lparr>tls_data :=
          map (\<lambda>d. d\<lparr>td_bss_offset := td_bss_offset d + tls_filesz tls\<rparr>) (tls_data tls)\<rparr>\<rparr>)))"

definition Sold_RemapTLS :: "nat \<Rightarrow> u64 \<Rightarrow> Sold \<Rightarrow> u64 res" where
  "Sold_RemapTLS b off so =
     (case bn_tls (binary so b) of
        None \<Rightarrow> Inl CHECK_failed
      | Some tls \<Rightarrow>
          rbind (CHECK (tls_data (so_tls so) \<noteq> [])) (\<lambda>_.
          case tls_bin_to_index (so_tls so) b of
            None \<Rightarrow> Inl CHECK_failed
          | Some i \<Rightarrow>
              (let entry = tls_data (so_tls so) ! i
               in if off < p_filesz tls then Inr (off + td_file_offset entry)
                  else Inr (off + td_bss_offset entry))))"

section \<open>Initialisation and termination functions\<close>

definition CollectArrays_init :: "nat \<Rightarrow> Sold \<Rightarrow> Sold" where
  "CollectArrays_init b so =
     (let offset = load_offset so b;
          so = so\<lparr>so_bin_to_init_array_offset := (so_bin_to_init_array_offset so)
                    (b \<mapsto> Sold_InitArrayOffset so + 8 * of_nat (length (so_init_array so)))\<rparr>
      in so\<lparr>so_init_array := so_init_array so @ map (\<lambda>ptr. ptr + offset) (bn_init_array (binary so b))\<rparr>)"

definition excluded_from_fini :: "Sold \<Rightarrow> nat \<Rightarrow> bool" where
  "excluded_from_fini so b = list_ex (HasPrefix (bn_soname (binary so b))) (so_exclude_finis so)"

definition CollectArrays_fini :: "nat \<Rightarrow> Sold \<Rightarrow> Sold" where
  "CollectArrays_fini b so =
     (let offset = load_offset so b
      in if excluded_from_fini so b then so
         else
           (let so = so\<lparr>so_bin_to_fini_array_offset := (so_bin_to_fini_array_offset so)
                         (b \<mapsto> Sold_FiniArrayOffset so + 8 * of_nat (length (so_fini_array so)))\<rparr>
            in so\<lparr>so_fini_array := so_fini_array so @ map (\<lambda>ptr. ptr + offset) (bn_fini_array (binary so b))\<rparr>))"

definition Sold_CollectArrays :: "Sold \<Rightarrow> Sold" where
  "Sold_CollectArrays so =
     (let so = so\<lparr>so_init_array := so_init_array so @ [so_mprotect_offset so]\<rparr>;
          so = fold CollectArrays_init (rev (so_link_binaries so)) so
      in fold CollectArrays_fini (so_link_binaries so) so)"

section \<open>Symbols\<close>

text \<open>Writing \<^verbatim>\<open>st_value\<close> through a pointer of \<^verbatim>\<open>syms_\<close> changes the image of the object as well.\<close>

definition set_binary :: "nat \<Rightarrow> ELFBinary \<Rightarrow> Sold \<Rightarrow> Sold" where
  "set_binary b bn so = so\<lparr>so_bins := (so_bins so)[b := bn]\<rparr>"

definition set_st_value :: "nat \<Rightarrow> nat \<Rightarrow> u64 \<Rightarrow> Sold \<Rightarrow> Sold res" where
  "set_st_value b i v so =
     (let bn = binary so b; s = bn_syms bn ! i
      in rbind (write_bytes (bn_head bn) (bn_sym_ptrs bn ! i + 8) (le_bytes 8 v)) (\<lambda>head.
         Inr (set_binary b (bn\<lparr>bn_head := head,
           bn_syms := (bn_syms bn)[i := s\<lparr>si_sym := map_option (\<lambda>e. e\<lparr>st_value := v\<rparr>) (si_sym s)\<rparr>]\<rparr>) so)))"

text \<open>How strongly a symbol defines its name.\<close>

definition prio :: "Elf_Sym \<Rightarrow> nat" where
  "prio s = (if IsDefined s then 2 else if ELF_ST_BIND (st_info s) = STB_WEAK then 1 else 0)"

fun find_symbol :: "Syminfo list \<Rightarrow> Syminfo \<Rightarrow> nat option" where
  "find_symbol [] p = None"
| "find_symbol (s # ss) p =
     (if si_name s = si_name p \<and> si_soname s = si_soname p \<and> si_version s = si_version p then Some 0
      else map_option Suc (find_symbol ss p))"

definition add_symbol :: "Syminfo \<Rightarrow> Syminfo list \<Rightarrow> Syminfo list" where
  "add_symbol p symtab =
     (case find_symbol symtab p of
        None \<Rightarrow> symtab @ [p]
      | Some i \<Rightarrow>
          if prio (the (si_sym p)) > prio (the (si_sym (symtab ! i)))
          then symtab[i := (symtab ! i)\<lparr>si_sym := si_sym p\<rparr>] else symtab)"

definition LoadDynSymtab_value :: "nat \<Rightarrow> u64 \<Rightarrow> Elf_Sym \<Rightarrow> Sold \<Rightarrow> u64 option res" where
  "LoadDynSymtab_value b offset s so =
     (if IsTLS s \<and> st_shndx s \<noteq> SHN_UNDEF then rbind (Sold_RemapTLS b (st_value s) so) (\<lambda>v. Inr (Some v))
      else if st_value s \<noteq> 0 then Inr (Some (st_value s + offset))
      else Inr None)"

definition LoadDynSymtab_step :: "nat \<Rightarrow> u64 \<Rightarrow> nat \<Rightarrow> Syminfo list \<times> Sold \<Rightarrow> (Syminfo list \<times> Sold) res" where
  "LoadDynSymtab_step b offset i = (\<lambda>(symtab, so).
     rbind (LoadDynSymtab_value b offset (the (si_sym (bn_syms (binary so b) ! i))) so) (\<lambda>v.
     rbind (case v of None \<Rightarrow> Inr so | Some v \<Rightarrow> set_st_value b i v so) (\<lambda>so.
     Inr (add_symbol (bn_syms (binary so b) ! i) symtab, so))))"

definition Sold_LoadDynSymtab :: "nat \<Rightarrow> Syminfo list \<times> Sold \<Rightarrow> (Syminfo list \<times> Sold) res" where
  "Sold_LoadDynSymtab b = (\<lambda>(symtab, so).
     rbind (ELFBinary_ReadDynSymtab (so_filename_to_soname so) (binary so b)) (\<lambda>bn.
     let so = set_binary b bn so; offset = load_offset so b
     in rfold (LoadDynSymtab_step b offset) [0..<length (bn_syms bn)] (symtab, so)))"

definition Sold_CollectSymbols :: "Sold \<Rightarrow> Sold res" where
  "Sold_CollectSymbols so =
     rbind (rfold Sold_LoadDynSymtab (so_link_binaries so) ([], so)) (\<lambda>(syms, so).
     Inr (so\<lparr>so_syms := SymtabBuilder_SetSrcSyms syms (so_syms so)\<rparr>))"

definition public_symbol :: "Syminfo \<Rightarrow> bool" where
  "public_symbol p =
     (let s = the (si_sym p)
      in (ELF_ST_BIND (st_info s) = STB_GLOBAL \<or> ELF_ST_BIND (st_info s) = STB_WEAK) \<and> IsDefined s)"

definition Sold_CopyPublicSymbols :: "Sold \<Rightarrow> Sold" where
  "Sold_CopyPublicSymbols so =
     (let publics = filter public_symbol (bn_syms (main_binary so))
            @ concat (map (\<lambda>b. if b = 0 then [] else filter (\<lambda>p. IsTLS (the (si_sym p))) (bn_syms (binary so b)))
                (so_link_binaries so))
      in so\<lparr>so_syms := fold SymtabBuilder_AddPublicSymbol publics (so_syms so)\<rparr>)"

end
