(* ===== verification/Relocate.thy ===== *)
theory Relocate
  imports Collect
begin

text \<open>
  The new relocation table: \<^verbatim>\<open>Relocate\<close>, \<^verbatim>\<open>RelocateBinary\<close>, \<^verbatim>\<open>RelocateSymbols\<close> (\<^verbatim>\<open>sold.h\<close>) and
  \<^verbatim>\<open>RelocateSymbol_x86_64\<close>, \<^verbatim>\<open>RelocateSymbol_aarch64\<close> (\<^verbatim>\<open>sold.cc\<close>).
\<close>

definition read_rel :: "ELFBinary \<Rightarrow> u64 \<Rightarrow> nat \<Rightarrow> Elf_Rel res" where
  "read_rel bn rels i = read_struct dec_Elf_Rel 24 (bn_head bn) (rels + of_nat (24 * i))"

text \<open>The symbol of a relocation and its version.\<close>

definition rel_symbol :: "nat \<Rightarrow> Elf_Rel \<Rightarrow> Sold \<Rightarrow> (Elf_Sym \<times> string \<times> string) res" where
  "rel_symbol b rel so =
     (let bn = binary so b; n = ELF_R_SYM (r_info rel)
      in case bn_symtab bn of
           None \<Rightarrow> Inl Bad_access
         | Some p \<Rightarrow>
             rbind (sym_at bn p (uint n)) (\<lambda>s.
             rbind (ELFBinary_GetVersion (sint (ucast n :: u32)) (so_filename_to_soname so) bn) (\<lambda>(soname, version).
             Inr (s, soname, version))))"

text \<open>
  The places a relocation applies to in the output: the relocated word itself, and the copy of the word
  in the new \<^verbatim>\<open>.init_array\<close> or \<^verbatim>\<open>.fini_array\<close>.
\<close>

definition rel_in_image :: "nat \<Rightarrow> Elf_Rel \<Rightarrow> u64 \<Rightarrow> Sold \<Rightarrow> Elf_Rel res" where
  "rel_in_image b rel offset so =
     (let bn = binary so b
      in if ELFBinary_IsVaddrInTLSData (r_offset rel) bn then
           (case bn_tls bn of
              None \<Rightarrow> Inl CHECK_failed
            | Some tls \<Rightarrow>
                rbind (Sold_RemapTLS b (r_offset rel - p_vaddr tls) so) (\<lambda>off.
                Inr (rel\<lparr>r_offset := off + so_tls_offset so\<rparr>)))
         else Inr (rel\<lparr>r_offset := r_offset rel + offset\<rparr>))"

definition rel_in_arrays :: "nat \<Rightarrow> Elf_Rel \<Rightarrow> Sold \<Rightarrow> Elf_Rel list res" where
  "rel_in_arrays b rel so =
     (let bn = binary so b
      in rbind (ELFBinary_IsAddrInInitarray (r_offset rel) bn) (\<lambda>in_init.
         if in_init then
           (case so_bin_to_init_array_offset so b of
              None \<Rightarrow> Inl CHECK_failed
            | Some off \<Rightarrow> Inr [rel\<lparr>r_offset := r_offset rel - bn_init_array_addr bn + off\<rparr>])
         else
           rbind (ELFBinary_IsAddrInFiniarray (r_offset rel) bn) (\<lambda>in_fini.
           if in_fini then
             (case so_bin_to_fini_array_offset so b of
                None \<Rightarrow> Inl CHECK_failed
              | Some off \<Rightarrow> Inr [rel\<lparr>r_offset := r_offset rel - bn_fini_array_addr bn + off\<rparr>])
           else Inr [])))"

definition newrels :: "nat \<Rightarrow> Elf_Rel \<Rightarrow> u64 \<Rightarrow> Sold \<Rightarrow> Elf_Rel list res" where
  "newrels b rel offset so =
     rbind (rel_in_image b rel offset so) (\<lambda>r.
     rbind (rel_in_arrays b rel so) (\<lambda>rs. Inr (r # rs)))"

text \<open>The cases of the two switches, each for one entry of \<^verbatim>\<open>newrels\<close>.\<close>

definition rel_name :: "nat \<Rightarrow> Elf_Sym \<Rightarrow> Sold \<Rightarrow> string res" where
  "rel_name b s so = ELFBinary_Str (ucast (st_name s)) (binary so b)"

text \<open>\<open>keep\<close> holds for the types whose addend is added to the value of a resolved symbol.\<close>

definition reloc_resolve ::
  "bool \<Rightarrow> u32 \<Rightarrow> u32 \<Rightarrow> nat \<Rightarrow> Elf_Sym \<Rightarrow> string \<Rightarrow> string \<Rightarrow> Elf_Rel \<Rightarrow> Sold \<Rightarrow> (Elf_Rel \<times> Sold) res" where
  "reloc_resolve keep relative type b s soname version newrel so =
     rbind (rel_name b s so) (\<lambda>name.
     rbind (SymtabBuilder_Resolve name soname version (so_syms so)) (\<lambda>((defined, val_or_index), sm).
     let so = so\<lparr>so_syms := sm\<rparr>
     in Inr (if defined then newrel\<lparr>r_info := ELF_R_INFO 0 relative,
                                    r_addend := (if keep then r_addend newrel else 0) + val_or_index\<rparr>
             else newrel\<lparr>r_info := ELF_R_INFO val_or_index type\<rparr>, so)))"

definition reloc_copy ::
  "u32 \<Rightarrow> nat \<Rightarrow> Elf_Sym \<Rightarrow> string \<Rightarrow> string \<Rightarrow> Elf_Rel \<Rightarrow> Sold \<Rightarrow> (string \<times> Elf_Rel \<times> Sold) res" where
  "reloc_copy type b s soname version newrel so =
     rbind (rel_name b s so) (\<lambda>name.
     rbind (SymtabBuilder_ResolveCopy name soname version (so_syms so)) (\<lambda>(index, sm).
     Inr (name, newrel\<lparr>r_info := ELF_R_INFO index type\<rparr>, so\<lparr>so_syms := sm\<rparr>)))"

text \<open>\<^verbatim>\<open>tls_.data[tls_.bin_to_index[bin]]\<close>; the index of an object without an entry is 0.\<close>

definition tls_entry :: "nat \<Rightarrow> Sold \<Rightarrow> TLS_Data res" where
  "tls_entry b so =
     (let i = (case tls_bin_to_index (so_tls so) b of None \<Rightarrow> 0 | Some i \<Rightarrow> i)
      in if i < length (tls_data (so_tls so)) then Inr (tls_data (so_tls so) ! i) else Inl Undefined)"

definition tls_shift :: "bool \<Rightarrow> nat \<Rightarrow> Sold \<Rightarrow> u64 res" where
  "tls_shift is_bss b so =
     rbind (tls_entry b so) (\<lambda>entry.
     if is_bss then
       (case bn_tls (binary so b) of
          None \<Rightarrow> Inl Bad_access
        | Some tls \<Rightarrow> Inr (td_bss_offset entry - p_filesz tls))
     else Inr (td_file_offset entry))"

text \<open>The types of the relocations that write the word behind the one of \<open>rel\<close>.\<close>

definition rewrite_rel_types :: "ELFBinary \<Rightarrow> Elf_Rel \<Rightarrow> u32 list res" where
  "rewrite_rel_types bn rel =
     rfold (\<lambda>i types.
       case bn_rel bn of
         None \<Rightarrow> Inl Bad_access
       | Some rels \<Rightarrow>
           rbind (read_rel bn rels i) (\<lambda>r.
           Inr (if r_offset rel + 8 \<le> r_offset r \<and> r_offset r < r_offset rel + 8 + 8
                then types @ [ELF_R_TYPE (r_info r)] else types)))
       [0..<unat (bn_num_rels bn)] []"

definition reloc_DTPMOD64 ::
  "nat \<Rightarrow> Elf_Rel \<Rightarrow> Elf_Sym \<Rightarrow> string \<Rightarrow> string \<Rightarrow> Elf_Rel \<Rightarrow> Sold \<Rightarrow> (Elf_Rel \<times> Sold) res" where
  "reloc_DTPMOD64 b rel s soname version newrel so =
     rbind (reloc_copy R_X86_64_DTPMOD64 b s soname version newrel so) (\<lambda>(name, newrel, so).
     let bn = binary so b
     in if bn_tls bn = None then Inr (newrel, so)
        else
          rbind (ELFBinary_OffsetFromAddr (r_offset rel) bn) (\<lambda>mod_on_got.
          let offset_on_got = mod_on_got + 8
          in rbind (read_struct le_word 8 (bn_head bn) offset_on_got) (\<lambda>value.
             rbind (ELFBinary_IsOffsetInTLSBSS value bn) (\<lambda>is_bss.
             rbind (rewrite_rel_types bn rel) (\<lambda>types.
             rbind (CHECK (length types = 0 \<or> length types = 1 \<and> types ! 0 = R_X86_64_DTPOFF64)) (\<lambda>_.
             if length types = 1 then Inr (newrel, so)
             else
               rbind (CHECK (name = [])) (\<lambda>_.
               rbind (tls_shift is_bss b so) (\<lambda>shift.
               rbind (write_bytes (bn_head bn) offset_on_got (le_bytes 8 (value + shift))) (\<lambda>head.
               Inr (newrel, set_binary b (bn\<lparr>bn_head := head\<rparr>) so))))))))))"

definition reloc_entry_x86_64 ::
  "nat \<Rightarrow> Elf_Rel \<Rightarrow> u64 \<Rightarrow> Elf_Sym \<Rightarrow> string \<Rightarrow> string \<Rightarrow> Elf_Rel \<Rightarrow> Sold \<Rightarrow> (Elf_Rel \<times> Sold) res" where
  "reloc_entry_x86_64 b rel offset s soname version newrel so =
     (let type = ELF_R_TYPE (r_info rel)
      in if type = R_X86_64_RELATIVE then Inr (newrel\<lparr>r_addend := r_addend newrel + offset\<rparr>, so)
         else if type = R_X86_64_GLOB_DAT \<or> type = R_X86_64_JUMP_SLOT then
           reloc_resolve False R_X86_64_RELATIVE type b s soname version newrel so
         else if type = R_X86_64_64 then reloc_resolve True R_X86_64_RELATIVE type b s soname version newrel so
         else if type = R_X86_64_DTPMOD64 then reloc_DTPMOD64 b rel s soname version newrel so
         else if type = R_X86_64_DTPOFF64 \<or> type = R_X86_64_TPOFF64 \<or> type = R_X86_64_COPY then
           rbind (reloc_copy type b s soname version newrel so) (\<lambda>(_, newrel, so). Inr (newrel, so))
         else Inl LOG_FATAL)"

definition reloc_TLSDESC ::
  "nat \<Rightarrow> Elf_Sym \<Rightarrow> string \<Rightarrow> string \<Rightarrow> Elf_Rel \<Rightarrow> Sold \<Rightarrow> (Elf_Rel \<times> Sold) res" where
  "reloc_TLSDESC b s soname version newrel so =
     rbind (reloc_copy R_AARCH64_TLSDESC b s soname version newrel so) (\<lambda>(name, newrel, so).
     if name = [] then
       rbind (ELFBinary_IsOffsetInTLSBSS (r_addend newrel) (binary so b)) (\<lambda>is_bss.
       rbind (tls_shift is_bss b so) (\<lambda>shift.
       Inr (newrel\<lparr>r_addend := r_addend newrel + shift\<rparr>, so)))
     else Inr (newrel, so))"

definition reloc_entry_aarch64 ::
  "nat \<Rightarrow> Elf_Rel \<Rightarrow> u64 \<Rightarrow> Elf_Sym \<Rightarrow> string \<Rightarrow> string \<Rightarrow> Elf_Rel \<Rightarrow> Sold \<Rightarrow> (Elf_Rel \<times> Sold) res" where
  "reloc_entry_aarch64 b rel offset s soname version newrel so =
     (let type = ELF_R_TYPE (r_info rel)
      in if type = R_AARCH64_RELATIVE then Inr (newrel\<lparr>r_addend := r_addend newrel + offset\<rparr>, so)
         else if type = R_AARCH64_GLOB_DAT \<or> type = R_AARCH64_JUMP_SLOT then
           reloc_resolve False R_AARCH64_RELATIVE type b s soname version newrel so
         else if type = R_AARCH64_ABS64 then reloc_resolve True R_AARCH64_RELATIVE type b s soname version newrel so
         else if type = R_AARCH64_TLSDESC then reloc_TLSDESC b s soname version newrel so
         else if type = R_AARCH64_COPY then
           rbind (reloc_copy type b s soname version newrel so) (\<lambda>(_, newrel, so). Inr (newrel, so))
         else Inl LOG_FATAL)"

definition relocate_entries ::
  "(Elf_Rel \<Rightarrow> Sold \<Rightarrow> (Elf_Rel \<times> Sold) res) \<Rightarrow> Elf_Rel list \<Rightarrow> Sold \<Rightarrow> Sold res" where
  "relocate_entries entry nrels so =
     rfold (\<lambda>newrel so. rbind (entry newrel so) (\<lambda>(newrel, so). Inr (so\<lparr>so_rels := so_rels so @ [newrel]\<rparr>))) nrels so"

definition Sold_RelocateSymbol_x86_64 :: "nat \<Rightarrow> Elf_Rel \<Rightarrow> u64 \<Rightarrow> Sold \<Rightarrow> Sold res" where
  "Sold_RelocateSymbol_x86_64 b rel offset so =
     rbind (rel_symbol b rel so) (\<lambda>(s, soname, version).
     rbind (newrels b rel offset so) (\<lambda>nrels.
     relocate_entries (reloc_entry_x86_64 b rel offset s soname version) nrels so))"

definition Sold_RelocateSymbol_aarch64 :: "nat \<Rightarrow> Elf_Rel \<Rightarrow> u64 \<Rightarrow> Sold \<Rightarrow> Sold res" where
  "Sold_RelocateSymbol_aarch64 b rel offset so =
     rbind (rel_symbol b rel so) (\<lambda>(s, soname, version).
     rbind (newrels b rel offset so) (\<lambda>nrels.
     relocate_entries (reloc_entry_aarch64 b rel offset s soname version) nrels so))"

definition Sold_RelocateSymbols :: "nat \<Rightarrow> u64 option \<Rightarrow> u64 \<Rightarrow> Sold \<Rightarrow> Sold res" where
  "Sold_RelocateSymbols b rels num so =
     rbind (CHECK (rels \<noteq> None \<or> num = 0)) (\<lambda>_.
     let offset = load_offset so b; machine = e_machine (bn_ehdr (binary so b));
         each = (\<lambda>reloc. rfold (\<lambda>i so.
           case rels of
             None \<Rightarrow> Inl Bad_access
           | Some p \<Rightarrow> rbind (read_rel (binary so b) p i) (\<lambda>rel. reloc b rel offset so)) [0..<unat num] so)
     in if machine = EM_X86_64 then each Sold_RelocateSymbol_x86_64
        else if machine = EM_AARCH64 then each Sold_RelocateSymbol_aarch64
        else Inl CHECK_failed)"

definition Sold_RelocateBinary :: "nat \<Rightarrow> Sold \<Rightarrow> Sold res" where
  "Sold_RelocateBinary b so =
     (let bn = binary so b
      in rbind (CHECK (bn_symtab bn \<noteq> None)) (\<lambda>_.
         rbind (Sold_RelocateSymbols b (bn_rel bn) (bn_num_rels bn) so) (\<lambda>so.
         Sold_RelocateSymbols b (bn_plt_rel bn) (bn_num_plt_rels bn) so)))"

definition Sold_Relocate :: "Sold \<Rightarrow> Sold res" where
  "Sold_Relocate so = rfold Sold_RelocateBinary (so_link_binaries so) so"

end
