(* ===== verification/Output.thy ===== *)
theory Output
  imports Relocate
begin

text \<open>
  The second half of \<^verbatim>\<open>Sold::Link\<close>: building the dynamic section, the loads and the headers of the
  output (\<^verbatim>\<open>Build...\<close>), writing it (\<^verbatim>\<open>Emit...\<close>), and \<^verbatim>\<open>Link\<close> itself; then the command line of
  \<^verbatim>\<open>sold_main.cc\<close>. The output file can always be created, written and made executable.
\<close>

section \<open>Building\<close>

definition Sold_AddStr :: "string \<Rightarrow> Sold \<Rightarrow> (u64 \<times> Sold) res" where
  "Sold_AddStr s so = rbind (StrtabBuilder_Add s (so_strtab so)) (\<lambda>(pos, st). Inr (pos, so\<lparr>so_strtab := st\<rparr>))"

definition Sold_BuildInterp :: "Sold \<Rightarrow> Sold res" where
  "Sold_BuildInterp so =
     rbind (ELFBinary_GetPhdr PT_INTERP (main_binary so)) (\<lambda>phdr.
     rbind (read_cstr (bn_head (main_binary so)) (p_offset phdr)) (\<lambda>interp.
     rbind (Sold_AddStr interp so) (\<lambda>(pos, so). Inr (so\<lparr>so_interp_offset := pos\<rparr>))))"

definition relative_type :: "u16 \<Rightarrow> u32 res" where
  "relative_type machine =
     (if machine = EM_X86_64 then Inr R_X86_64_RELATIVE
      else if machine = EM_AARCH64 then Inr R_AARCH64_RELATIVE else Inl CHECK_failed)"

definition Sold_BuildArrays :: "Sold \<Rightarrow> Sold res" where
  "Sold_BuildArrays so =
     rbind (CHECK (length (so_init_array so) \<ge> 1)) (\<lambda>_.
     rbind (relative_type (so_machine_type so)) (\<lambda>relative.
     Inr (so\<lparr>so_rels := so_rels so @ [\<lparr>r_offset = Sold_InitArrayOffset so, r_info = ELF_R_INFO 0 relative,
                                     r_addend = so_init_array so ! 0\<rparr>]\<rparr>)))"

definition Sold_MakeDyn :: "u64 \<Rightarrow> u64 \<Rightarrow> Sold \<Rightarrow> Sold" where
  "Sold_MakeDyn tag ptr so = so\<lparr>so_dynamic := so_dynamic so @ [\<lparr>d_tag = tag, d_val = ptr\<rparr>]\<rparr>"

definition dyn_string :: "u64 \<Rightarrow> string \<Rightarrow> Sold \<Rightarrow> Sold res" where
  "dyn_string tag s so = rbind (Sold_AddStr s so) (\<lambda>(pos, so). Inr (Sold_MakeDyn tag pos so))"

text \<open>The names of the libraries that stay separate, in the order of \<^verbatim>\<open>std::set\<close>.\<close>

definition dynamic_neededs :: "Sold \<Rightarrow> string list" where
  "dynamic_neededs so =
     fold (\<lambda>p neededs. if snd p \<in> set (so_link_binaries so) then neededs
                       else insort_insert (bn_name (binary so (snd p))) neededs) (so_libraries so) []"

text \<open>The entries whose values are offsets and sizes of the layout.\<close>

definition BuildDynamic_layout :: "Sold \<Rightarrow> Elf_Dyn list res" where
  "BuildDynamic_layout so =
     (let dyn = Elf_Dyn.make
      in rbind (Sold_StrtabOffset so) (\<lambda>strtab_offset.
         rbind (Sold_SymtabOffset so) (\<lambda>symtab_offset.
         rbind (if VersionBuilder_NumVerneed (so_version so) > 0 then
                  rbind (Sold_VersymOffset so) (\<lambda>versym.
                  rbind (Sold_VerneedOffset so) (\<lambda>verneed.
                  Inr [dyn DT_VERSYM versym,
                       dyn DT_VERNEEDNUM (of_nat (VersionBuilder_NumVerneed (so_version so))),
                       dyn DT_VERNEED verneed]))
                else Inr []) (\<lambda>versions.
         rbind (Sold_RelOffset so) (\<lambda>rel_offset.
         Inr ([dyn DT_INIT_ARRAY (Sold_InitArrayOffset so),
               dyn DT_INIT_ARRAYSZ (of_nat (length (so_init_array so)) * 8),
               dyn DT_FINI_ARRAY (Sold_FiniArrayOffset so),
               dyn DT_FINI_ARRAYSZ (of_nat (length (so_fini_array so)) * 8),
               dyn DT_GNU_HASH (Sold_GnuHashOffset so),
               dyn DT_STRTAB strtab_offset,
               dyn DT_STRSZ (StrtabBuilder_size (so_strtab so)),
               dyn DT_SYMTAB symtab_offset,
               dyn DT_SYMENT 24]
              @ versions @
              [dyn DT_RELA rel_offset,
               dyn DT_RELAENT 24,
               dyn DT_RELASZ (of_nat (length (so_rels so)) * 24),
               dyn DT_NULL 0]))))))"

definition Sold_BuildDynamic :: "Sold \<Rightarrow> Sold res" where
  "Sold_BuildDynamic so =
     (let string_entry = (\<lambda>tag s so. if s \<noteq> [] then dyn_string tag s so else Inr so);
          address_entry = (\<lambda>tag ptr so. if ptr \<noteq> 0 then Sold_MakeDyn tag (ptr + load_offset so 0) so else so);
          main = main_binary so
      in rbind (rfold (dyn_string DT_NEEDED) (dynamic_neededs so) so) (\<lambda>so.
         rbind (string_entry DT_SONAME (bn_soname main) so) (\<lambda>so.
         rbind (string_entry DT_RPATH (bn_rpath main) so) (\<lambda>so.
         rbind (string_entry DT_RUNPATH (bn_runpath main) so) (\<lambda>so.
         let so = address_entry DT_INIT (bn_init main) so;
             so = address_entry DT_FINI (bn_fini main) so
         in rbind (BuildDynamic_layout so) (\<lambda>entries.
            Inr (so\<lparr>so_dynamic := so_dynamic so @ entries\<rparr>)))))))"

definition Sold_BuildMprotect :: "Sold \<Rightarrow> Sold" where
  "Sold_BuildMprotect so =
     fold (\<lambda>b so. case bn_gnu_relro (binary so b) of
             None \<Rightarrow> so
           | Some r \<Rightarrow> so\<lparr>so_memprotect_builder :=
               MprotectBuilder_Add (p_vaddr r + load_offset so b) (p_memsz r) (so_memprotect_builder so)\<rparr>)
       (so_link_binaries so) so"

definition BuildLoads_step :: "u64 \<Rightarrow> nat \<Rightarrow> Elf_Phdr \<Rightarrow> u64 \<times> Load list \<Rightarrow> u64 \<times> Load list" where
  "BuildLoads_step offset b phdr = (\<lambda>(file_offset, loads).
     (let file_offset = file_offset + (p_vaddr phdr AND 0xfff);
          emit = phdr\<lparr>p_offset := file_offset, p_vaddr := p_vaddr phdr + offset, p_paddr := p_paddr phdr + offset,
                      p_flags := p_flags phdr OR PF_W,
                      p_align := (if p_align phdr > 0x1000 then 0x1000 else p_align phdr)\<rparr>
      in (AlignNext (file_offset + p_filesz phdr), loads @ [\<lparr>ld_bin = b, ld_orig = phdr, ld_emit = emit\<rparr>])))"

definition Sold_BuildLoads :: "Sold \<Rightarrow> Sold res" where
  "Sold_BuildLoads so =
     rbind (Sold_CodeOffset so) (\<lambda>file_offset.
     rbind (CHECK (file_offset < load_offset so 0)) (\<lambda>_.
     let (file_offset, loads) =
           fold (\<lambda>b. fold (BuildLoads_step (load_offset so b) b) (bn_loads (binary so b)))
             (so_link_binaries so) (file_offset, so_loads so);
         so = so\<lparr>so_loads := loads, so_tls_file_offset := file_offset\<rparr>;
         file_offset = AlignNext (file_offset + Sold_TLSFileSize so);
         so = (cache_TLSFileSize so)\<lparr>so_ehframe_file_offset := file_offset\<rparr>;
         file_offset = AlignNext (file_offset + Sold_EHFrameSize so)
     in Inr (so\<lparr>so_mprotect_file_offset := file_offset\<rparr>)))"

definition BuildEHFrameHeader_step :: "nat \<times> Elf_Phdr \<Rightarrow> Sold \<Rightarrow> Sold res" where
  "BuildEHFrameHeader_step = (\<lambda>(b, phdr) so.
     (let bn = binary so b
      in rbind (ELFBinary_AddrFromOffset (p_offset phdr) bn) (\<lambda>efh_vaddr.
         rbind (EHFrameBuilder_Add (bn_eh_frame_header bn) efh_vaddr (load_offset so b) (so_ehframe_offset so)
                  (so_ehframe_builder so)) (\<lambda>eb.
         Inr (so\<lparr>so_ehframe_builder := eb\<rparr>)))))"

definition Sold_BuildEHFrameHeader :: "Sold \<Rightarrow> Sold res" where
  "Sold_BuildEHFrameHeader so =
     rbind (rfold BuildEHFrameHeader_step (linked_phdrs PT_GNU_EH_FRAME so) so) (\<lambda>so.
     rbind (CHECK (Sold_EHFrameSize so = EHFrameBuilder_Size (so_ehframe_builder so))) (\<lambda>_. Inr so))"

definition Sold_BuildEhdr :: "Sold \<Rightarrow> Sold res" where
  "Sold_BuildEhdr so =
     rbind (Sold_ShdrOffset so) (\<lambda>shoff.
     Inr (so\<lparr>so_ehdr := (bn_ehdr (main_binary so))\<lparr>
       e_entry := e_entry (bn_ehdr (main_binary so)) + load_offset so 0, e_shoff := shoff,
       e_shnum := ShdrBuilder_CountShdrs (so_shdr so), e_shstrndx := ShdrBuilder_Shstrndx (so_shdr so),
       e_phnum := ucast (Sold_CountPhdrs so)\<rparr>\<rparr>))"

section \<open>Emitting\<close>

definition check_pos :: "u64 \<Rightarrow> stream \<Rightarrow> unit res" where
  "check_pos pos fp = CHECK (ftell fp = pos)"

definition segment :: "u32 \<Rightarrow> u32 \<Rightarrow> u64 \<Rightarrow> u64 \<Rightarrow> u64 \<Rightarrow> u64 \<Rightarrow> Elf_Phdr" where
  "segment type flags off addr filesz memsz =
     \<lparr>p_type = type, p_flags = flags, p_offset = off, p_vaddr = addr, p_paddr = addr,
      p_filesz = filesz, p_memsz = memsz, p_align = 0x1000\<rparr>"

definition output_phdrs :: "Sold \<Rightarrow> Elf_Phdr list res" where
  "output_phdrs so =
     rbind (CHECK (length (bn_phdrs (main_binary so)) > 2)) (\<lambda>_.
     rbind (if so_is_executable so then
              rbind (ELFBinary_GetPhdr PT_PHDR (main_binary so)) (\<lambda>phdr.
              rbind (ELFBinary_GetPhdr PT_INTERP (main_binary so)) (\<lambda>interp.
              rbind (Sold_StrtabOffset so) (\<lambda>strtab_offset.
              let pos = strtab_offset + so_interp_offset so
              in Inr [phdr, interp\<lparr>p_offset := pos, p_vaddr := pos, p_paddr := pos\<rparr>])))
            else Inr []) (\<lambda>executable.
     rbind (Sold_DynamicOffset so) (\<lambda>dyn_start.
     let dyn_size = 16 * of_nat (length (so_dynamic so)); seg_start = AlignNext (dyn_start + dyn_size)
     in rbind (ELFBinary_GetPhdr PT_LOAD (main_binary so)) (\<lambda>load_phdr.
        rbind (ELFBinary_GetPhdr PT_DYNAMIC (main_binary so)) (\<lambda>dynamic_phdr.
        rbind (Sold_MprotectSize so) (\<lambda>mprotect_size.
        let tls = so_tls so;
            header = load_phdr\<lparr>p_offset := 0, p_flags := PF_R OR PF_W, p_vaddr := 0, p_paddr := 0,
                               p_filesz := seg_start, p_memsz := seg_start\<rparr>;
            dynamic = dynamic_phdr\<lparr>p_offset := dyn_start, p_flags := PF_R OR PF_W, p_vaddr := dyn_start,
                                   p_paddr := dyn_start, p_filesz := dyn_size, p_memsz := dyn_size\<rparr>;
            tls_seg = (\<lambda>type flags. segment type flags (so_tls_file_offset so) (so_tls_offset so)
                                      (tls_filesz tls) (tls_memsz tls));
            eh_size = EHFrameBuilder_Size (so_ehframe_builder so);
            eh_seg = (\<lambda>type flags. segment type flags (so_ehframe_file_offset so) (so_ehframe_offset so)
                                     eh_size eh_size);
            stack_flags = foldl (\<lambda>flags b. case bn_gnu_stack (binary so b) of
                                   None \<Rightarrow> flags | Some p \<Rightarrow> flags OR p_flags p)
                            (PF_R OR PF_W) (so_link_binaries so)
        in Inr (executable @ [header, dynamic] @ map ld_emit (so_loads so)
             @ (if tls_memsz tls \<noteq> 0 then [tls_seg PT_TLS PF_R, tls_seg PT_LOAD (PF_R OR PF_W)] else [])
             @ [eh_seg PT_GNU_EH_FRAME PF_R, eh_seg PT_LOAD (PF_R OR PF_W)]
             @ [segment PT_LOAD (PF_R OR PF_X) (so_mprotect_file_offset so) (so_mprotect_offset so)
                  mprotect_size mprotect_size]
             @ [(segment PT_GNU_STACK stack_flags 0 0 0 0)\<lparr>p_align := 0x10\<rparr>])))))))"

definition Sold_EmitPhdrs :: "Sold \<Rightarrow> stream \<Rightarrow> stream res" where
  "Sold_EmitPhdrs so fp =
     rbind (output_phdrs so) (\<lambda>phdrs.
     rbind (CHECK (of_nat (length phdrs) = Sold_CountPhdrs so)) (\<lambda>_.
     rfold (\<lambda>phdr. WriteBuf (enc_Elf_Phdr phdr)) phdrs fp))"

definition Sold_EmitArrays :: "Sold \<Rightarrow> stream \<Rightarrow> stream res" where
  "Sold_EmitArrays so fp =
     rbind (EmitPad (Sold_InitArrayOffset so) fp) (\<lambda>fp.
     rbind (rfold (\<lambda>ptr. WriteBuf (le_bytes 8 ptr)) (so_init_array so) fp) (\<lambda>fp.
     rbind (check_pos (Sold_FiniArrayOffset so) fp) (\<lambda>_.
     rfold (\<lambda>ptr. WriteBuf (le_bytes 8 ptr)) (so_fini_array so) fp)))"

text \<open>The words behind the header: one for each exposed symbol from \<^verbatim>\<open>symndx\<close> on.\<close>

definition gnu_hash_word :: "Syminfo list \<Rightarrow> nat \<Rightarrow> u32" where
  "gnu_hash_word exposed_syms i =
     (let h = CalcGnuHash (si_name (exposed_syms ! i)) AND NOT 1
      in if i = length exposed_syms - 1 then h OR 1 else h)"

definition Sold_EmitGnuHash :: "Sold \<Rightarrow> stream \<Rightarrow> stream res" where
  "Sold_EmitGnuHash so fp =
     rbind (check_pos (Sold_GnuHashOffset so) fp) (\<lambda>_.
     let gh = sm_gnu_hash (so_syms so); exposed_syms = sm_exposed_syms (so_syms so);
         bucket = (if length exposed_syms > unat (gh_symndx gh) then gh_symndx gh else 0)
     in rbind (WriteBuf (le_bytes 4 (gh_nbuckets gh)) fp) (\<lambda>fp.
        rbind (WriteBuf (le_bytes 4 (gh_symndx gh)) fp) (\<lambda>fp.
        rbind (WriteBuf (le_bytes 4 (gh_maskwords gh)) fp) (\<lambda>fp.
        rbind (WriteBuf (le_bytes 4 (gh_shift2 gh)) fp) (\<lambda>fp.
        rbind (WriteBuf (le_bytes 8 (- 1 :: u64)) fp) (\<lambda>fp.
        rbind (WriteBuf (le_bytes 4 bucket) fp) (\<lambda>fp.
        rfold (\<lambda>i. WriteBuf (le_bytes 4 (gnu_hash_word exposed_syms i)))
          [unat (gh_symndx gh)..<length exposed_syms] fp)))))))"

definition Sold_EmitSymtab :: "Sold \<Rightarrow> stream \<Rightarrow> stream res" where
  "Sold_EmitSymtab so fp =
     rbind (Sold_SymtabOffset so) (\<lambda>pos. rbind (check_pos pos fp) (\<lambda>_.
     rfold (\<lambda>s. WriteBuf (enc_Elf_Sym s)) (sm_symtab (so_syms so)) fp))"

definition Sold_EmitVersym :: "Sold \<Rightarrow> stream \<Rightarrow> stream res" where
  "Sold_EmitVersym so fp =
     rbind (Sold_VersymOffset so) (\<lambda>pos. rbind (check_pos pos fp) (\<lambda>_.
     VersionBuilder_EmitVersym (so_version so) fp))"

definition Sold_EmitVerneed :: "Sold \<Rightarrow> stream \<Rightarrow> stream res" where
  "Sold_EmitVerneed so fp =
     rbind (Sold_VerneedOffset so) (\<lambda>pos. rbind (check_pos pos fp) (\<lambda>_.
     VersionBuilder_EmitVerneed (so_strtab so) (so_version so) fp))"

definition Sold_EmitRel :: "Sold \<Rightarrow> stream \<Rightarrow> stream res" where
  "Sold_EmitRel so fp =
     rbind (Sold_RelOffset so) (\<lambda>pos. rbind (check_pos pos fp) (\<lambda>_.
     rfold (\<lambda>rel. WriteBuf (enc_Elf_Rel rel)) (so_rels so) fp))"

definition Sold_EmitStrtab :: "Sold \<Rightarrow> stream \<Rightarrow> stream res" where
  "Sold_EmitStrtab so fp =
     rbind (Sold_StrtabOffset so) (\<lambda>pos. rbind (check_pos pos fp) (\<lambda>_.
     WriteBuf (StrtabBuilder_data (so_strtab so)) fp))"

definition Sold_EmitDynamic :: "Sold \<Rightarrow> stream \<Rightarrow> stream res" where
  "Sold_EmitDynamic so fp =
     rbind (Sold_DynamicOffset so) (\<lambda>pos. rbind (check_pos pos fp) (\<lambda>_.
     rfold (\<lambda>dyn. WriteBuf (enc_Elf_Dyn dyn)) (so_dynamic so) fp))"

definition Sold_EmitShstrtab :: "Sold \<Rightarrow> stream \<Rightarrow> stream res" where
  "Sold_EmitShstrtab so fp =
     rbind (Sold_ShstrtabOffset so) (\<lambda>pos. rbind (check_pos pos fp) (\<lambda>_. ShdrBuilder_EmitShstrtab fp))"

definition EmitCode_step :: "Sold \<Rightarrow> Load \<Rightarrow> stream \<Rightarrow> stream res" where
  "EmitCode_step so ld fp =
     rbind (EmitPad (p_offset (ld_emit ld)) fp) (\<lambda>fp.
     rbind (read_bytes (bn_head (binary so (ld_bin ld))) (p_offset (ld_orig ld)) (unat (p_filesz (ld_orig ld))))
       (\<lambda>bs. WriteBuf bs fp))"

definition Sold_EmitCode :: "Sold \<Rightarrow> stream \<Rightarrow> stream res" where
  "Sold_EmitCode so fp =
     rbind (Sold_CodeOffset so) (\<lambda>pos. rbind (check_pos pos fp) (\<lambda>_.
     rfold (EmitCode_step so) (so_loads so) fp))"

definition Sold_EmitTLS :: "Sold \<Rightarrow> stream \<Rightarrow> stream res" where
  "Sold_EmitTLS so fp =
     rbind (EmitPad (Sold_TLSOffset so) fp) (\<lambda>fp.
     rbind (check_pos (Sold_TLSOffset so) fp) (\<lambda>_.
     rfold (\<lambda>d fp. rbind (read_bytes (bn_head (binary so (td_bin d))) (td_start d) (unat (td_size d)))
                    (\<lambda>bs. WriteBuf bs fp)) (tls_data (so_tls so)) fp))"

definition Sold_EmitEHFrame :: "Sold \<Rightarrow> stream \<Rightarrow> stream res" where
  "Sold_EmitEHFrame so fp =
     rbind (EmitPad (Sold_EHFrameOffset so) fp) (\<lambda>fp.
     rbind (check_pos (Sold_EHFrameOffset so) fp) (\<lambda>_. EHFrameBuilder_Emit (so_ehframe_builder so) fp))"

definition Sold_EmitMemprotect :: "(nat \<Rightarrow> u8 list) \<Rightarrow> Sold \<Rightarrow> stream \<Rightarrow> stream res" where
  "Sold_EmitMemprotect malloc so fp =
     rbind (EmitPad (Sold_MemprotectOffset so) fp) (\<lambda>fp.
     rbind (check_pos (Sold_MemprotectOffset so) fp) (\<lambda>_.
     MprotectBuilder_Emit malloc (so_mprotect_offset so) (so_memprotect_builder so) fp))"

definition Sold_EmitShdr :: "Sold \<Rightarrow> stream \<Rightarrow> stream res" where
  "Sold_EmitShdr so fp =
     rbind (Sold_ShdrOffset so) (\<lambda>pos. rbind (check_pos pos fp) (\<lambda>_. ShdrBuilder_EmitShdrs (so_shdr so) fp))"

text \<open>The parts in front of the code, and all of them.\<close>

definition emit_tables :: "Sold \<Rightarrow> (stream \<Rightarrow> stream res) list" where
  "emit_tables so =
     [Sold_EmitArrays so, Sold_EmitGnuHash so, Sold_EmitSymtab so, Sold_EmitVersym so, Sold_EmitVerneed so,
      Sold_EmitRel so, Sold_EmitStrtab so, Sold_EmitDynamic so, Sold_EmitShstrtab so]"

definition emit_segments :: "(nat \<Rightarrow> u8 list) \<Rightarrow> Sold \<Rightarrow> (stream \<Rightarrow> stream res) list" where
  "emit_segments malloc so =
     [Sold_EmitCode so, Sold_EmitTLS so, Sold_EmitEHFrame so, Sold_EmitMemprotect malloc so]
     @ (if so_emit_section_header so then [Sold_EmitShdr so] else [])"

definition Sold_Emit :: "(nat \<Rightarrow> u8 list) \<Rightarrow> Sold \<Rightarrow> stream res" where
  "Sold_Emit malloc so =
     rfold id ([WriteBuf (enc_Elf_Ehdr (so_ehdr so)), Sold_EmitPhdrs so] @ emit_tables so @ [EmitAlign]
               @ emit_segments malloc so) []"

section \<open>Linking\<close>

definition register_shdr :: "u64 res \<Rightarrow> u64 res \<Rightarrow> ShdrType \<Rightarrow> u64 \<Rightarrow> u32 \<Rightarrow> Sold \<Rightarrow> Sold res" where
  "register_shdr offset sz type entsize info so =
     rbind offset (\<lambda>offset. rbind sz (\<lambda>sz.
     rbind (ShdrBuilder_RegisterShdr offset sz type entsize info (so_shdr so)) (\<lambda>sb.
     Inr (so\<lparr>so_shdr := sb\<rparr>))))"

definition register_shdrs :: "Sold \<Rightarrow> Sold res" where
  "register_shdrs so =
     rfold id
      ([register_shdr (Inr (Sold_GnuHashOffset so)) (Sold_GnuHashSize so) GnuHash 0 0,
        register_shdr (Sold_SymtabOffset so) (Inr (Sold_SymtabSize so)) Dynsym 24 0]
       @ (if VersionBuilder_NumVerneed (so_version so) > 0 then
            [register_shdr (Sold_VersymOffset so) (Inr (Sold_VersymSize so)) GnuVersion 2 0,
             register_shdr (Sold_VerneedOffset so) (Inr (Sold_VerneedSize so)) GnuVersionR 0
               (of_nat (VersionBuilder_NumVerneed (so_version so)))]
          else [])
       @ [register_shdr (Sold_RelOffset so) (Inr (Sold_RelSize so)) RelaDyn 24 0,
          register_shdr (Inr (Sold_InitArrayOffset so)) (Inr (Sold_InitArraySize so)) InitArray 0 0,
          register_shdr (Inr (Sold_FiniArrayOffset so)) (Inr (Sold_FiniArraySize so)) FiniArray 0 0,
          register_shdr (Sold_StrtabOffset so) (Inr (Sold_StrtabSize so)) Dynstr 0 0,
          register_shdr (Sold_DynamicOffset so) (Inr (Sold_DynamicSize so)) Dynamic 16 0,
          register_shdr (Sold_ShstrtabOffset so) (Inr Sold_ShstrtabSize) Shstrtab 0 0])
      so"

definition build_symbols :: "Sold \<Rightarrow> Sold res" where
  "build_symbols so =
     rbind (SymtabBuilder_Build (so_strtab so) (so_version so) (so_syms so)) (\<lambda>(st, vb, sm).
     rbind (SymtabBuilder_MergePublicSymbols st vb sm) (\<lambda>(st, vb, sm).
     Inr (so\<lparr>so_strtab := st, so_version := vb, so_syms := sm\<rparr>)))"

definition freeze_shdrs :: "Sold \<Rightarrow> Sold res" where
  "freeze_shdrs so = rbind (ShdrBuilder_Freeze (so_shdr so)) (\<lambda>sb. Inr (so\<lparr>so_shdr := sb\<rparr>))"

text \<open>\<^verbatim>\<open>Link\<close> up to \<^verbatim>\<open>Emit\<close>, and all of it: the state of the process and the output file.\<close>

definition Sold_prepare :: "Sold \<Rightarrow> Sold res" where
  "Sold_prepare so =
     rfold id
      [Sold_DecideMemOffset,
       Sold_CollectTLS, \<lambda>so. Inr (Sold_CollectArrays so), Sold_CollectSymbols, \<lambda>so. Inr (Sold_CopyPublicSymbols so),
       Sold_Relocate,
       build_symbols,
       \<lambda>so. if so_is_executable so then Sold_BuildInterp so else Inr so,
       Sold_BuildArrays, Sold_BuildDynamic, \<lambda>so. Inr (Sold_BuildMprotect so),
       \<lambda>so. Inr (so\<lparr>so_strtab := StrtabBuilder_Freeze (so_strtab so)\<rparr>),
       Sold_BuildLoads, Sold_BuildEHFrameHeader,
       register_shdrs, freeze_shdrs,
       Sold_BuildEhdr] so"

definition Sold_Link :: "(nat \<Rightarrow> u8 list) \<Rightarrow> Sold \<Rightarrow> (Sold \<times> stream) res" where
  "Sold_Link malloc so = rbind (Sold_prepare so) (\<lambda>so. rbind (Sold_Emit malloc so) (\<lambda>fp. Inr (so, fp)))"

end
