(* ===== verification/Tables.thy ===== *)
theory Tables
  imports Output
begin

text \<open>
  The tables in front of the code: what each \<^verbatim>\<open>Emit\<close> function of \<^verbatim>\<open>sold.h\<close> writes, and that the offsets
  of the layout are the lengths of what the functions before it have written, so that no \<^verbatim>\<open>CHECK\<close> on a
  position can fail.
\<close>

section \<open>Writing the tables\<close>

text \<open>A writer that appends the same bytes to every stream, or fails on every one.\<close>

definition appends :: "(stream \<Rightarrow> stream res) \<Rightarrow> bool" where
  "appends f \<longleftrightarrow> (\<exists>r. \<forall>fp. f fp = rbind r (\<lambda>bs. Inr (fp @ bs)))"

lemma appends_apply:
  assumes "appends f" and "f fp = Inr (fp @ bs)"
  shows "f fp' = Inr (fp' @ bs)"
proof -
  from assms(1) obtain r where r: "\<And>fp. f fp = rbind r (\<lambda>bs. Inr (fp @ bs))" by (auto simp: appends_def)
  with assms(2) have "r = Inr bs" by (cases r) auto
  with r show ?thesis by simp
qed

lemma appends_WriteBuf: "appends (WriteBuf bs)"
  unfolding appends_def by (rule exI [of _ "Inr bs"]) (simp add: WriteBuf_def)

lemma appends_skip: "appends Inr"
  unfolding appends_def by (rule exI [of _ "Inr []"]) simp

lemma appends_bind:
  assumes "appends f" and "appends g"
  shows "appends (\<lambda>fp. rbind (f fp) g)"
proof -
  from assms obtain r s where "\<And>fp. f fp = rbind r (\<lambda>bs. Inr (fp @ bs))" "\<And>fp. g fp = rbind s (\<lambda>bs. Inr (fp @ bs))"
    by (auto simp: appends_def)
  then have "rbind (f fp) g = rbind (rbind r (\<lambda>bs. rbind s (\<lambda>cs. Inr (bs @ cs)))) (\<lambda>bs. Inr (fp @ bs))" for fp
    by (cases r; cases s) simp_all
  then show ?thesis by (auto simp: appends_def)
qed

lemma appends_after:
  assumes "\<And>x. appends (f x)"
  shows "appends (\<lambda>fp. rbind m (\<lambda>x. f x fp))"
proof (cases m)
  case (Inl e)
  then show ?thesis unfolding appends_def by (intro exI [of _ "Inl e"]) simp
next
  case (Inr x)
  then show ?thesis using assms [of x] by simp
qed

lemma appends_EmitVernaux: "appends (EmitVernaux_loop strtab cnt n m)"
proof (induction m arbitrary: n)
  case Nil
  have "EmitVernaux_loop strtab cnt n [] = Inr" by (rule ext) simp
  then show ?case by (simp add: appends_skip)
next
  case (Cons vn m)
  have "EmitVernaux_loop strtab cnt n (vn # m) = (\<lambda>fp. rbind (StrtabBuilder_GetPos (fst vn) strtab) (\<lambda>pos.
      rbind (WriteBuf (enc_Elf_Vernaux \<lparr>vna_hash = CalcHash (fst vn), vna_flags = VER_FLG_WEAK, vna_other = of_nat (snd vn),
        vna_name = ucast pos, vna_next = (if n + 1 = cnt then 0 else 16)\<rparr>) fp) (EmitVernaux_loop strtab cnt (n + 1) m)))"
    by (rule ext) (cases vn; simp add: Let_def)
  then show ?case by (simp only:) (intro appends_after appends_bind appends_WriteBuf Cons)
qed

lemma appends_EmitVerneed_loop: "appends (EmitVerneed_loop strtab num n data)"
proof (induction data arbitrary: n)
  case Nil
  have "EmitVerneed_loop strtab num n [] = Inr" by (rule ext) simp
  then show ?case by (simp add: appends_skip)
next
  case (Cons fm data)
  have "EmitVerneed_loop strtab num n (fm # data) = (\<lambda>fp. rbind (StrtabBuilder_GetPos (fst fm) strtab) (\<lambda>pos.
      rbind (WriteBuf (enc_Elf_Verneed \<lparr>vn_version = VER_NEED_CURRENT, vn_cnt = of_nat (length (snd fm)), vn_file = ucast pos,
         vn_aux = 16, vn_next = (if n + 1 = num then 0 else 16 + of_nat (length (snd fm)) * 16)\<rparr>) fp)
        (\<lambda>fp. rbind (EmitVernaux_loop strtab (length (snd fm)) 0 (snd fm) fp) (EmitVerneed_loop strtab num (n + 1) data))))"
    by (rule ext) (cases fm; simp add: Let_def)
  then show ?case
    by (simp only:) (intro appends_after appends_bind appends_WriteBuf appends_EmitVernaux Cons)
qed

lemma appends_EmitVerneed: "appends (VersionBuilder_EmitVerneed strtab vb)"
proof -
  have "VersionBuilder_EmitVerneed strtab vb = EmitVerneed_loop strtab (length (vb_data vb)) 0 (vb_data vb)"
    by (rule ext) (simp add: VersionBuilder_EmitVerneed_def)
  then show ?thesis by (simp add: appends_EmitVerneed_loop)
qed

text \<open>The bytes of the tables, each with its offset in the layout.\<close>

definition words_bytes :: "u64 list \<Rightarrow> u8 list" where
  "words_bytes ws = concat (map (le_bytes 8) ws)"

definition gnu_hash_bytes :: "SymtabBuilder \<Rightarrow> u8 list" where
  "gnu_hash_bytes sm = le_bytes 4 (1 :: u32) @ le_bytes 4 (1 :: u32) @ le_bytes 4 (1 :: u32) @ le_bytes 4 (1 :: u32)
     @ le_bytes 8 (- 1 :: u64) @ le_bytes 4 (if length (sm_exposed_syms sm) > 1 then 1 else 0 :: u32)
     @ concat (map (\<lambda>i. le_bytes 4 (gnu_hash_word (sm_exposed_syms sm) i)) [1..<length (sm_exposed_syms sm)])"

definition versym_bytes :: "VersionBuilder \<Rightarrow> u8 list" where
  "versym_bytes vb = (if vb_data vb \<noteq> [] then concat (map (le_bytes 2) (vb_vers vb)) else [])"

definition verneed_bytes :: "StrtabBuilder \<Rightarrow> VersionBuilder \<Rightarrow> u8 list" where
  "verneed_bytes strtab vb = (case VersionBuilder_EmitVerneed strtab vb [] of Inl _ \<Rightarrow> [] | Inr bs \<Rightarrow> bs)"

text \<open>What the tables have to satisfy: the state \<^const>\<open>SymtabBuilder_MergePublicSymbols\<close> leaves.\<close>

definition tables_ok :: "Sold \<Rightarrow> bool" where
  "tables_ok so \<longleftrightarrow> (let sm = so_syms so in
     sm_public_syms sm = [] \<and> length (sm_symtab sm) = length (sm_exposed_syms sm) \<and> sm_symtab sm \<noteq> []
     \<and> sm_gnu_hash sm = \<lparr>gh_nbuckets = 1, gh_symndx = 1, gh_maskwords = 1, gh_shift2 = 1\<rparr>
     \<and> version_wf (so_version so) \<and> version_names_in (so_version so) (so_strtab so))"

definition at_offset :: "stream \<Rightarrow> u64 res \<Rightarrow> u8 list \<Rightarrow> bool" where
  "at_offset fp off bs \<longleftrightarrow> (case off of Inl _ \<Rightarrow> False
     | Inr pos \<Rightarrow> unat pos + length bs \<le> length fp \<and> take (length bs) (drop (unat pos) fp) = bs)"

lemma at_offset_append:
  assumes "off = Inr (of_nat (length pre))" and "length (pre @ bs @ post) < 2 ^ 64"
  shows "at_offset (pre @ bs @ post) off bs"
  using assms by (simp add: at_offset_def unat_of_nat)

lemma length_words_bytes: "length (words_bytes ws) = 8 * length ws"
  by (induction ws) (auto simp: words_bytes_def)

lemma length_gnu_hash_bytes:
  "sm_exposed_syms sm \<noteq> [] \<Longrightarrow> length (gnu_hash_bytes sm) = 28 + 4 * (length (sm_exposed_syms sm) - 1)"
proof -
  have "length (concat (map (\<lambda>i. le_bytes 4 (gnu_hash_word es i)) ks)) = 4 * length ks" for es and ks :: "nat list"
    by (induction ks) auto
  then show ?thesis by (simp add: gnu_hash_bytes_def)
qed

lemma length_versym_bytes: "length (versym_bytes vb) = VersionBuilder_SizeVersym vb"
proof -
  have "length (concat (map (le_bytes 2) vs)) = length vs * 2" for vs :: "u16 list" by (induction vs) auto
  then show ?thesis by (simp add: versym_bytes_def VersionBuilder_SizeVersym_def)
qed

text \<open>Each step of \<^const>\<open>emit_tables\<close>, on a stream that ends at the table's offset.\<close>

lemma check_pos_ok: "check_pos (of_nat (length fp)) fp = Inr ()"
  by (simp add: check_pos_def ftell_def)

lemma EmitGnuHash_writes:
  assumes "tables_ok so" and "Sold_GnuHashOffset so = of_nat (length fp)"
  shows "Sold_EmitGnuHash so fp = Inr (fp @ gnu_hash_bytes (so_syms so))"
proof -
  have gh: "sm_gnu_hash (so_syms so) = \<lparr>gh_nbuckets = 1, gh_symndx = 1, gh_maskwords = 1, gh_shift2 = 1\<rparr>"
    using assms(1) by (simp add: tables_ok_def Let_def)
  show ?thesis
    unfolding Sold_EmitGnuHash_def assms(2) check_pos_ok gh gnu_hash_bytes_def
    by (simp add: Let_def WriteBuf_def [of "le_bytes _ _"] rfold_WriteBuf del: le_bytes.simps)
qed

lemma EmitVersym_writes: "VersionBuilder_EmitVersym vb fp = Inr (fp @ versym_bytes vb)"
  by (simp add: VersionBuilder_EmitVersym_def versym_bytes_def rfold_WriteBuf)

lemma EmitVerneed_writes:
  assumes "version_wf vb" and "version_names_in vb strtab"
  shows "VersionBuilder_EmitVerneed strtab vb fp = Inr (fp @ verneed_bytes strtab vb)
    \<and> length (verneed_bytes strtab vb) = VersionBuilder_SizeVerneed vb"
proof -
  obtain bs where bs: "VersionBuilder_EmitVerneed strtab vb [] = Inr ([] @ bs)" "length bs = VersionBuilder_SizeVerneed vb"
    using emit_sizes [OF assms, of "[]"] by blast
  then have "verneed_bytes strtab vb = bs" by (simp add: verneed_bytes_def)
  then show ?thesis using appends_apply [OF appends_EmitVerneed bs(1), of fp] bs(2) by simp
qed

lemma at_offsetI:
  "fp = pre @ bs @ post \<Longrightarrow> off = Inr (of_nat (length pre)) \<Longrightarrow> length fp < 2 ^ 64 \<Longrightarrow> at_offset fp off bs"
  using at_offset_append [of off pre bs post] by simp

lemma length_encodings:
  "length (concat (map enc_Elf_Phdr phs)) = 56 * length phs"
  "length (concat (map enc_Elf_Sym ss)) = 24 * length ss"
  "length (concat (map enc_Elf_Rel rs)) = 24 * length rs"
  "length (concat (map enc_Elf_Dyn ds)) = 16 * length ds"
  "length (enc_Elf_Ehdr h) = 64"
  by (rule phdr.table_length sym.table_length rel.table_length dyn.table_length ehdr.enc_length)+

text \<open>The offsets are the lengths of what stands in front; no bound is needed for that.\<close>

lemma table_offsets:
  assumes "tables_ok so" and "Sold_InitArrayOffset so = of_nat n"
  shows "Sold_FiniArrayOffset so = of_nat (n + length (words_bytes (so_init_array so)))"
    and "Sold_GnuHashOffset so = of_nat (n + length (words_bytes (so_init_array so)) + length (words_bytes (so_fini_array so)))"
    and "Sold_GnuHashSize so = Inr (of_nat (length (gnu_hash_bytes (so_syms so))))"
    and "Sold_SymtabSize so = of_nat (length (concat (map enc_Elf_Sym (sm_symtab (so_syms so)))))"
    and "Sold_VersymSize so = of_nat (length (versym_bytes (so_version so)))"
    and "Sold_VerneedSize so = of_nat (length (verneed_bytes (so_strtab so) (so_version so)))"
    and "Sold_RelSize so = of_nat (length (concat (map enc_Elf_Rel (so_rels so))))"
    and "Sold_StrtabSize so = of_nat (length (StrtabBuilder_data (so_strtab so)))"
    and "Sold_DynamicSize so = of_nat (length (concat (map enc_Elf_Dyn (so_dynamic so))))"
    and "Sold_ShstrtabSize = of_nat (length (map u8_of_char shstrtab_str))"
proof -
  show "Sold_FiniArrayOffset so = of_nat (n + length (words_bytes (so_init_array so)))"
    by (simp add: Sold_FiniArrayOffset_def assms(2) Sold_InitArraySize_def length_words_bytes)
  then show "Sold_GnuHashOffset so
      = of_nat (n + length (words_bytes (so_init_array so)) + length (words_bytes (so_fini_array so)))"
    by (simp add: Sold_GnuHashOffset_def Sold_FiniArraySize_def length_words_bytes)
  let ?sm = "so_syms so"
  have sm: "sm_public_syms ?sm = []" "length (sm_symtab ?sm) = length (sm_exposed_syms ?sm)" "sm_symtab ?sm \<noteq> []"
    "gh_nbuckets (sm_gnu_hash ?sm) = 1" "gh_symndx (sm_gnu_hash ?sm) = 1"
    and ver: "version_wf (so_version so)" "version_names_in (so_version so) (so_strtab so)"
    using assms(1) by (simp_all add: tables_ok_def Let_def)
  from sm have e: "sm_exposed_syms ?sm \<noteq> []" by auto
  then obtain k where k: "length (sm_exposed_syms ?sm) = Suc k" by (cases "sm_exposed_syms ?sm") auto
  show "Sold_GnuHashSize so = Inr (of_nat (length (gnu_hash_bytes ?sm)))"
    using sm k by (simp add: Sold_GnuHashSize_def SymtabBuilder_GnuHashSize_def length_gnu_hash_bytes [OF e])
  show "Sold_SymtabSize so = of_nat (length (concat (map enc_Elf_Sym (sm_symtab ?sm))))"
    using sm by (simp add: Sold_SymtabSize_def SymtabBuilder_size_def length_encodings del: length_concat)
  show "Sold_VersymSize so = of_nat (length (versym_bytes (so_version so)))"
    by (simp add: Sold_VersymSize_def length_versym_bytes)
  show "Sold_VerneedSize so = of_nat (length (verneed_bytes (so_strtab so) (so_version so)))"
    using EmitVerneed_writes [OF ver] by (simp add: Sold_VerneedSize_def)
  show "Sold_RelSize so = of_nat (length (concat (map enc_Elf_Rel (so_rels so))))"
    by (simp add: Sold_RelSize_def length_encodings del: length_concat)
  show "Sold_StrtabSize so = of_nat (length (StrtabBuilder_data (so_strtab so)))"
    by (simp add: Sold_StrtabSize_def StrtabBuilder_size_def StrtabBuilder_data_def)
  show "Sold_DynamicSize so = of_nat (length (concat (map enc_Elf_Dyn (so_dynamic so))))"
    by (simp add: Sold_DynamicSize_def length_encodings del: length_concat)
  show "Sold_ShstrtabSize = of_nat (length (map u8_of_char shstrtab_str))"
    by (simp add: Sold_ShstrtabSize_def ShdrBuilder_ShstrtabSize_def)
qed

text \<open>A chain of writers, each appending a known part.\<close>

lemma chain_step: "f fp = Inr (fp @ bs) \<Longrightarrow> rfold id (f # fs) fp = rfold id fs (fp @ bs)"
  by simp

lemma EmitPhdrs_writes:
  assumes "output_phdrs so = Inr phs" and "of_nat (length phs) = Sold_CountPhdrs so"
  shows "Sold_EmitPhdrs so fp = Inr (fp @ concat (map enc_Elf_Phdr phs))"
  using assms by (simp add: Sold_EmitPhdrs_def rfold_WriteBuf)

lemma EmitArrays_writes:
  assumes "length fp < 2 ^ 32" and "length fp \<le> n" and "n < 2 ^ 64" and "Sold_InitArrayOffset so = of_nat n"
  shows "Sold_EmitArrays so fp = Inr (fp @ replicate (n - length fp) 0 @ words_bytes (so_init_array so)
    @ words_bytes (so_fini_array so))"
proof -
  have n: "unat (of_nat n :: u64) = n" using assms(3) by (simp add: unat_of_nat)
  let ?fp = "fp @ replicate (n - length fp) 0 @ words_bytes (so_init_array so)"
  have "Sold_FiniArrayOffset so = of_nat (length ?fp)"
    using assms(2) by (simp add: Sold_FiniArrayOffset_def assms(4) Sold_InitArraySize_def length_words_bytes)
  then have pos: "check_pos (Sold_FiniArrayOffset so) ?fp = Inr ()" by (simp only: check_pos_ok)
  have pad: "EmitPad (of_nat n) fp = Inr (fp @ replicate (n - length fp) 0)"
    using EmitPad_ok [of fp "of_nat n"] assms(1,2) n by simp
  show ?thesis
    using pos by (simp add: Sold_EmitArrays_def assms(4) pad rfold_WriteBuf words_bytes_def)
qed

lemma InitArrayOffset_aligned:
  assumes "of_nat m = Sold_CountPhdrs so" and "64 + 56 * m < 2 ^ 32"
  shows "\<exists>k < 8. Sold_InitArrayOffset so = of_nat (64 + 56 * m + k)"
proof -
  let ?a = "64 + 56 * of_nat m :: u64"
  have a: "unat ?a = 64 + 56 * m"
  proof -
    have "?a = of_nat (64 + 56 * m)" by simp
    then show ?thesis using assms(2) by (simp only: unat_of_nat) (simp add: take_bit_nat_eq_self)
  qed
  have "(7 :: u64) = mask 3" by (simp add: mask_eq_exp_minus_1)
  then have u: "unat (AlignNext_mask ?a 7) = (unat ?a + 7) div 8 * 8"
    using unat_AlignNext_mask [of 3 ?a] a assms(2) by simp
  let ?k = "(64 + 56 * m + 7) div 8 * 8 - (64 + 56 * m)"
  have "AlignNext_mask ?a 7 = of_nat (unat (AlignNext_mask ?a 7))" by simp
  also have "unat (AlignNext_mask ?a 7) = 64 + 56 * m + ?k" unfolding u a by linarith
  finally have "AlignNext_mask ?a 7 = of_nat (64 + 56 * m + ?k)" .
  moreover have "?k < 8" by linarith
  ultimately show ?thesis by (auto simp: Sold_InitArrayOffset_def simp flip: assms(1))
qed

section \<open>The tables in a row\<close>

text \<open>
  A stage writes its bytes to a stream that ends at its offset; in a chain each stage starts where the
  one before ends.
\<close>

type_synonym stage = "u64 res \<times> (stream \<Rightarrow> stream res) \<times> u8 list"

definition stage_ok :: "stage \<Rightarrow> bool" where
  "stage_ok = (\<lambda>(off, f, bs). \<forall>fp. off = Inr (of_nat (length fp)) \<longrightarrow> f fp = Inr (fp @ bs))"

fun chained :: "u64 res \<Rightarrow> stage list \<Rightarrow> bool" where
  "chained off [] = True"
| "chained off ((o', f, bs) # stages) \<longleftrightarrow>
     o' = off \<and> chained (rbind off (\<lambda>p. Inr (p + of_nat (length bs)))) stages"

lemma chain_writes:
  assumes "chained (Inr (of_nat (length fp))) stages" and "list_all stage_ok stages"
  shows "rfold id (map (fst \<circ> snd) stages) fp = Inr (fp @ concat (map (snd \<circ> snd) stages))"
  using assms
proof (induction stages arbitrary: fp)
  case Nil
  then show ?case by simp
next
  case (Cons s stages)
  obtain off f bs where s: "s = (off, f, bs)" by (cases s)
  with Cons.prems have "f fp = Inr (fp @ bs)" by (simp add: stage_ok_def)
  with Cons.IH [of "fp @ bs"] Cons.prems show ?case by (simp add: s)
qed

lemma chain_places:
  assumes "chained (Inr (of_nat (length pre))) stages"
    and "length (pre @ concat (map (snd \<circ> snd) stages) @ post) < 2 ^ 64"
  shows "list_all (\<lambda>(off, f, bs). at_offset (pre @ concat (map (snd \<circ> snd) stages) @ post) off bs) stages"
  using assms
proof (induction stages arbitrary: pre)
  case Nil
  then show ?case by simp
next
  case (Cons s stages)
  obtain off f bs where s: "s = (off, f, bs)" by (cases s)
  have "chained (Inr (of_nat (length (pre @ bs)))) stages" using Cons.prems(1) by (simp add: s)
  from Cons.IH [OF this] Cons.prems show ?case
    using at_offset_append [of off pre bs "concat (map (snd \<circ> snd) stages) @ post"] by (simp add: s comp_def)
qed

definition table_stages :: "Sold \<Rightarrow> stage list" where
  "table_stages so =
     [(Inr (Sold_GnuHashOffset so), Sold_EmitGnuHash so, gnu_hash_bytes (so_syms so)),
      (Sold_SymtabOffset so, Sold_EmitSymtab so, concat (map enc_Elf_Sym (sm_symtab (so_syms so)))),
      (Sold_VersymOffset so, Sold_EmitVersym so, versym_bytes (so_version so)),
      (Sold_VerneedOffset so, Sold_EmitVerneed so, verneed_bytes (so_strtab so) (so_version so)),
      (Sold_RelOffset so, Sold_EmitRel so, concat (map enc_Elf_Rel (so_rels so))),
      (Sold_StrtabOffset so, Sold_EmitStrtab so, StrtabBuilder_data (so_strtab so)),
      (Sold_DynamicOffset so, Sold_EmitDynamic so, concat (map enc_Elf_Dyn (so_dynamic so))),
      (Sold_ShstrtabOffset so, Sold_EmitShstrtab so, map u8_of_char shstrtab_str)]"

lemma at_pos: "m = Inr (of_nat (length fp)) \<Longrightarrow> rbind m (\<lambda>pos. rbind (check_pos pos fp) f) = f ()"
  by (simp add: check_pos_def ftell_def)

lemma table_stages_ok:
  assumes "tables_ok so"
  shows "list_all stage_ok (table_stages so)"
proof -
  have ver: "version_wf (so_version so)" "version_names_in (so_version so) (so_strtab so)"
    using assms by (simp_all add: tables_ok_def Let_def)
  show ?thesis
    unfolding table_stages_def
    using EmitGnuHash_writes [OF assms] EmitVerneed_writes [OF ver]
    by (simp add: stage_ok_def at_pos check_pos_ok Sold_EmitSymtab_def Sold_EmitVersym_def Sold_EmitVerneed_def Sold_EmitRel_def
        Sold_EmitStrtab_def Sold_EmitDynamic_def Sold_EmitShstrtab_def rfold_WriteBuf EmitVersym_writes WriteBuf_def
        ShdrBuilder_EmitShstrtab_def)
qed

lemma table_stages_chained:
  assumes "tables_ok so" and "Sold_InitArrayOffset so = of_nat n"
  shows "chained (Inr (Sold_GnuHashOffset so)) (table_stages so)"
    and "Sold_CodeOffset so = Inr (AlignNext (Sold_GnuHashOffset so
      + of_nat (length (concat (map (snd \<circ> snd) (table_stages so))))))"
proof -
  note sizes = table_offsets(3-) [OF assms]
  show "chained (Inr (Sold_GnuHashOffset so)) (table_stages so)"
    by (simp add: table_stages_def Sold_SymtabOffset_def Sold_VersymOffset_def Sold_VerneedOffset_def Sold_RelOffset_def
        Sold_StrtabOffset_def Sold_DynamicOffset_def Sold_ShstrtabOffset_def sizes del: length_concat length_map)
  show "Sold_CodeOffset so = Inr (AlignNext (Sold_GnuHashOffset so
      + of_nat (length (concat (map (snd \<circ> snd) (table_stages so))))))"
    by (simp add: table_stages_def Sold_SymtabOffset_def Sold_VersymOffset_def Sold_VerneedOffset_def Sold_RelOffset_def
        Sold_StrtabOffset_def Sold_DynamicOffset_def Sold_ShstrtabOffset_def Sold_CodeOffset_def sizes add.assoc
        del: length_concat length_map)
qed

text \<open>All tables with their offsets, and their total size.\<close>

definition output_tables :: "Sold \<Rightarrow> Elf_Phdr list \<Rightarrow> (u64 res \<times> u8 list) list" where
  "output_tables so phdrs =
     [(Inr 0, enc_Elf_Ehdr (so_ehdr so)),
      (Inr 64, concat (map enc_Elf_Phdr phdrs)),
      (Inr (Sold_InitArrayOffset so), words_bytes (so_init_array so)),
      (Inr (Sold_FiniArrayOffset so), words_bytes (so_fini_array so))]
     @ map (\<lambda>(off, f, bs). (off, bs)) (table_stages so)"

definition total_size :: "(u64 res \<times> u8 list) list \<Rightarrow> nat" where
  "total_size tables = sum_list (map (\<lambda>t. length (snd t)) tables)"

lemma total_size_output_tables:
  "total_size (output_tables so phs) = 64 + 56 * length phs + length (words_bytes (so_init_array so))
     + length (words_bytes (so_fini_array so)) + length (concat (map (snd \<circ> snd) (table_stages so)))"
proof -
  have "sum_list (map (\<lambda>t. length (snd t)) (map (\<lambda>(off, f, bs). (off, bs)) st)) = length (concat (map (snd \<circ> snd) st))"
    for st :: "stage list" by (induction st) (auto simp: length_encodings)
  then show ?thesis
    unfolding output_tables_def total_size_def map_append sum_list.append
    by (simp add: length_encodings(1,5) del: length_concat map_map)
qed

end
