(* ===== verification/Layout.thy ===== *)
theory Layout
  imports Tables
begin

text \<open>
  Where everything is in the output: \<^const>\<open>Sold_DecideMemOffset\<close> in memory, \<^const>\<open>Sold_BuildLoads\<close> and
  \<^const>\<open>Sold_Emit\<close> in the file. All three statements bound the total size, below which no sum wraps.
\<close>

section \<open>The range of an object\<close>

definition widen :: "Elf_Phdr \<Rightarrow> Range \<Rightarrow> Range" where
  "widen p r = \<lparr>rg_start = min (rg_start r) (p_vaddr p), rg_end = max (rg_end r) (AlignNext (p_vaddr p + p_memsz p))\<rparr>"

lemma GetRange_widen: "ELFBinary_GetRange bn = fold widen (bn_loads bn) \<lparr>rg_start = - 1, rg_end = 0\<rparr>"
  by (simp add: ELFBinary_GetRange_def widen_def [abs_def])

lemma widen_sel [simp]:
  "rg_start (widen p r) = min (rg_start r) (p_vaddr p)"
  "rg_end (widen p r) = max (rg_end r) (AlignNext (p_vaddr p + p_memsz p))"
  by (simp_all add: widen_def)

lemma widen_mono: "rg_start (fold widen ps r) \<le> rg_start r \<and> rg_end r \<le> rg_end (fold widen ps r)"
proof (induction ps arbitrary: r)
  case (Cons p ps)
  from Cons [of "widen p r"] show ?case by auto
qed simp

lemma widen_covers:
  "p \<in> set ps \<Longrightarrow> rg_start (fold widen ps r) \<le> p_vaddr p \<and> AlignNext (p_vaddr p + p_memsz p) \<le> rg_end (fold widen ps r)"
proof (induction ps arbitrary: r)
  case (Cons q ps)
  show ?case
  proof (cases "p = q")
    case True
    then show ?thesis using widen_mono [of ps "widen q r"] by auto
  next
    case False
    with Cons show ?thesis by simp
  qed
qed simp

lemma widen_tight:
  "(rg_start (fold widen ps r) = rg_start r \<or> (\<exists>p \<in> set ps. rg_start (fold widen ps r) = p_vaddr p))
   \<and> (rg_end (fold widen ps r) = rg_end r \<or> (\<exists>p \<in> set ps. rg_end (fold widen ps r) = AlignNext (p_vaddr p + p_memsz p)))"
proof (induction ps arbitrary: r)
  case (Cons p ps)
  from Cons [of "widen p r"] show ?case by (auto simp: min_def max_def split: if_splits)
qed simp

lemma AlignNext_aligned: "4096 dvd unat (AlignNext a)"
  by (simp add: AlignNext_def AlignNext_mask_def page_mask unat_and_not_mask)

lemma GetRange_aligned: "4096 dvd unat (rg_end (ELFBinary_GetRange bn))"
  using widen_tight [of "bn_loads bn" "\<lparr>rg_start = - 1, rg_end = 0\<rparr>"] AlignNext_aligned
  by (auto simp: GetRange_widen)

text \<open>
  the range of an object reaches from below each of its loaded segments to the page boundary
  behind the last one, and is no larger than the segments make it.
\<close>
theorem GetRange_covers:
  assumes "p \<in> set (bn_loads bn)" and "unat (p_vaddr p) + unat (p_memsz p) + 4095 < 2 ^ 64"
  shows "rg_start (ELFBinary_GetRange bn) \<le> p_vaddr p
    \<and> unat (p_vaddr p) + unat (p_memsz p) \<le> unat (rg_end (ELFBinary_GetRange bn))
    \<and> 4096 dvd unat (rg_end (ELFBinary_GetRange bn))
    \<and> (\<exists>q \<in> set (bn_loads bn). rg_end (ELFBinary_GetRange bn) = AlignNext (p_vaddr q + p_memsz q))"
proof -
  let ?r = "\<lparr>rg_start = - 1, rg_end = 0\<rparr> :: Range"
  note cover = widen_covers [OF assms(1), of ?r]
  have sum: "unat (p_vaddr p + p_memsz p) = unat (p_vaddr p) + unat (p_memsz p)"
    using assms(2) by (simp add: unat_word_ariths)
  then have "unat (p_vaddr p) + unat (p_memsz p) \<le> unat (AlignNext (p_vaddr p + p_memsz p))"
    using assms(2) page_up_ge by (simp add: unat_AlignNext)
  also have "\<dots> \<le> unat (rg_end (fold widen (bn_loads bn) ?r))" using cover by (simp add: word_le_nat_alt)
  finally have le: "unat (p_vaddr p) + unat (p_memsz p) \<le> unat (rg_end (ELFBinary_GetRange bn))"
    by (simp add: GetRange_widen)
  have "\<exists>q \<in> set (bn_loads bn). rg_end (ELFBinary_GetRange bn) = AlignNext (p_vaddr q + p_memsz q)"
  proof (cases "rg_end (ELFBinary_GetRange bn) = 0")
    case True
    then have "AlignNext (p_vaddr p + p_memsz p) = 0" using cover by (simp add: GetRange_widen)
    with True assms(1) show ?thesis by metis
  next
    case False
    with widen_tight [of "bn_loads bn" ?r] show ?thesis by (auto simp: GetRange_widen)
  qed
  with cover le GetRange_aligned show ?thesis by (simp add: GetRange_widen)
qed

section \<open>Placing the objects in memory\<close>

definition extent :: "'z SoldSearch_scheme \<Rightarrow> nat \<Rightarrow> nat" where
  "extent so b = unat (rg_end (ELFBinary_GetRange (binary so b)))"

text \<open>The state of the loop of \<^verbatim>\<open>DecideMemOffset\<close>: the objects \<open>bs\<close> are placed below \<open>offset\<close>.\<close>

definition placed_below :: "Sold \<Rightarrow> nat list \<Rightarrow> u64 \<Rightarrow> Sold \<Rightarrow> bool" where
  "placed_below so0 bs offset so \<longleftrightarrow> (\<exists>m. so = so0\<lparr>so_offsets := m\<rparr>)
     \<and> unat offset = 0x10000000 + sum_list (map (extent so0) bs) \<and> dom (so_offsets so) = set bs
     \<and> (\<forall>b \<in> set bs. 4096 dvd unat (load_offset so b) \<and> 0x10000000 \<le> unat (load_offset so b)
          \<and> unat (load_offset so b) + extent so0 b \<le> unat offset)
     \<and> sorted_wrt (\<lambda>b c. unat (load_offset so b) + extent so0 b \<le> unat (load_offset so c)) bs"

lemma extent_dvd: "4096 dvd extent so b"
  using GetRange_aligned by (simp add: extent_def)

lemma sum_extent_dvd: "4096 dvd sum_list (map (extent so) bs)"
  by (induction bs) (auto simp: extent_dvd)

lemma DecideMemOffset_step_placed:
  assumes "placed_below so0 bs offset so" and "DecideMemOffset_step b (offset, so) = Inr (offset', so')"
    and "b \<notin> set bs" and "0x10000000 + sum_list (map (extent so0) (bs @ [b])) < 2 ^ 64"
  shows "placed_below so0 (bs @ [b]) offset' so'"
proof -
  from assms(1) obtain m where so: "so = so0\<lparr>so_offsets := m\<rparr>" by (auto simp: placed_below_def)
  let ?r = "ELFBinary_GetRange (binary so0 b)"
  have bin: "binary so b = binary so0 b" by (simp add: so binary_def)
  from assms(2) have start: "rg_start ?r + offset = offset"
    and offset': "offset' = rg_end ?r + offset"
    and so': "so' = so\<lparr>so_offsets := (if so_offsets so b = None then (so_offsets so)(b \<mapsto> rg_start ?r + offset) else so_offsets so)\<rparr>"
    by (auto simp: DecideMemOffset_step_def Range_add_def bin Let_def)
  have none: "so_offsets so b = None" using assms(1,3) by (auto simp: placed_below_def)
  have at: "load_offset so' b = offset" using start none by (simp add: load_offset_def so')
  have keep: "load_offset so' c = load_offset so c" if "c \<noteq> b" for c
    using that none by (simp add: load_offset_def so')
  have off: "unat offset = 0x10000000 + sum_list (map (extent so0) bs)" using assms(1) by (simp add: placed_below_def)
  have off': "unat offset' = unat offset + extent so0 b"
    using assms(4) off unfolding offset' extent_def by (simp add: unat_word_ariths)
  have dvd: "4096 dvd unat offset" unfolding off using sum_extent_dvd by (intro dvd_add) auto
  have nb: "c \<noteq> b" if "c \<in> set bs" for c using that assms(3) by blast
  have old: "\<forall>c \<in> set bs. 4096 dvd unat (load_offset so' c) \<and> 0x10000000 \<le> unat (load_offset so' c)
      \<and> unat (load_offset so' c) + extent so0 c \<le> unat offset"
    using assms(1) unfolding placed_below_def by (elim conjE) (simp add: keep nb)
  have "sorted_wrt (\<lambda>b c. unat (load_offset so b) + extent so0 b \<le> unat (load_offset so c)) bs"
    using assms(1) by (simp add: placed_below_def)
  then have sorted: "sorted_wrt (\<lambda>b c. unat (load_offset so' b) + extent so0 b \<le> unat (load_offset so' c)) bs"
    by (rule sorted_wrt_mono_rel [rotated]) (simp add: keep nb)
  show ?thesis
    unfolding placed_below_def
  proof (intro conjI)
    show "\<exists>m. so' = so0\<lparr>so_offsets := m\<rparr>" unfolding so' so by auto
    show "unat offset' = 0x10000000 + sum_list (map (extent so0) (bs @ [b]))" by (simp add: off' off)
    show "dom (so_offsets so') = set (bs @ [b])"
      using assms(1) none by (simp add: so' placed_below_def)
    show "\<forall>c \<in> set (bs @ [b]). 4096 dvd unat (load_offset so' c) \<and> 0x10000000 \<le> unat (load_offset so' c)
        \<and> unat (load_offset so' c) + extent so0 c \<le> unat offset'"
      using old dvd off by (auto simp: at off' intro: trans_le_add1)
    show "sorted_wrt (\<lambda>b c. unat (load_offset so' b) + extent so0 b \<le> unat (load_offset so' c)) (bs @ [b])"
      using sorted old by (simp add: sorted_wrt_append at)
  qed
qed

lemma DecideMemOffset_loop_placed:
  assumes "rfold DecideMemOffset_step bs (offset, so) = Inr (offset', so')" and "placed_below so0 as offset so"
    and "distinct (as @ bs)" and "0x10000000 + sum_list (map (extent so0) (as @ bs)) < 2 ^ 64"
  shows "placed_below so0 (as @ bs) offset' so'"
  using assms
proof (induction bs arbitrary: as offset so)
  case Nil
  then show ?case by simp
next
  case (Cons b bs)
  from Cons.prems(1) obtain o1 s1 where 1: "DecideMemOffset_step b (offset, so) = Inr (o1, s1)"
    "rfold DecideMemOffset_step bs (o1, s1) = Inr (offset', so')" by auto
  have "placed_below so0 (as @ [b]) o1 s1"
    using Cons.prems by (intro DecideMemOffset_step_placed [OF Cons.prems(2) 1(1)]) auto
  from Cons.IH [OF 1(2) this] Cons.prems(3,4) show ?case by simp
qed

lemma sizes_offsets_irrelevant:
  "Sold_TLSMemSize (so\<lparr>so_offsets := m\<rparr>) = Sold_TLSMemSize so"
  "Sold_TLSFileSize (so\<lparr>so_offsets := m\<rparr>) = Sold_TLSFileSize so"
  "Sold_EHFrameSize (so\<lparr>so_offsets := m\<rparr>) = Sold_EHFrameSize so"
  by (simp_all add: Sold_TLSMemSize_def sum_TLSMemSize_def Sold_TLSFileSize_def sum_TLSFileSize_def
      Sold_EHFrameSize_def sum_EHFrameSize_def linked_phdrs_def binary_def)

lemma page_after: "unat a + unat s + 4095 < 2 ^ 64 \<Longrightarrow>
  unat a + unat s \<le> unat (AlignNext (a + s)) \<and> unat (AlignNext (a + s)) \<le> unat a + unat s + 4095"
proof -
  assume h: "unat a + unat s + 4095 < 2 ^ 64"
  then have "unat (a + s) = unat a + unat s" by (simp add: unat_word_ariths)
  moreover then have "unat (AlignNext (a + s)) = page_up (unat a + unat s)" using h by (simp add: unat_AlignNext)
  ultimately show ?thesis using page_up_ge page_up_less [of "unat a + unat s"] by simp
qed



section \<open>Placing the segments in the file\<close>

definition linked_loads :: "Sold \<Rightarrow> (nat \<times> Elf_Phdr) list" where
  "linked_loads so = concat (map (\<lambda>b. map (Pair b) (bn_loads (binary so b))) (so_link_binaries so))"

lemma low12: "unat ((x :: u64) AND 0xfff) = unat x mod 4096"
proof -
  have "(0xfff :: u64) = mask 12" by (simp add: mask_eq_exp_minus_1)
  then have "x AND 0xfff = take_bit 12 x" by (simp only: take_bit_eq_mask)
  then have "unat (x AND 0xfff) = take_bit 12 (unat x)" by (simp only: unsigned_take_bit_eq)
  then show ?thesis by (simp add: take_bit_eq_mod)
qed

lemma fold_pairs: "fold (\<lambda>b. fold (f b) (g b)) bs s = fold (\<lambda>bp. f (fst bp) (snd bp)) (concat (map (\<lambda>b. map (Pair b) (g b)) bs)) s"
  by (induction bs arbitrary: s) (simp_all add: fold_map comp_def)

text \<open>The emitted header of a load, up to its place in the file.\<close>

definition emitted_from :: "Sold \<Rightarrow> Load \<Rightarrow> bool" where
  "emitted_from so l \<longleftrightarrow> (let p = ld_orig l; q = ld_emit l; off = load_offset so (ld_bin l)
     in p_type q = p_type p \<and> p_vaddr q = p_vaddr p + off \<and> p_paddr q = p_paddr p + off
        \<and> p_filesz q = p_filesz p \<and> p_memsz q = p_memsz p \<and> p_flags q = p_flags p OR PF_W
        \<and> p_align q = (if p_align p > 0x1000 then 0x1000 else p_align p))"

definition file_end :: "Load \<Rightarrow> nat" where
  "file_end l = unat (p_offset (ld_emit l)) + unat (p_filesz (ld_orig l))"

definition file_start :: "Load \<Rightarrow> nat" where
  "file_start l = unat (p_offset (ld_emit l))"

definition loads_below :: "Sold \<Rightarrow> nat \<Rightarrow> (nat \<times> Elf_Phdr) list \<Rightarrow> u64 \<times> Load list \<Rightarrow> bool" where
  "loads_below so code ps = (\<lambda>(file_offset, loads).
     map (\<lambda>l. (ld_bin l, ld_orig l)) loads = ps \<and> (\<forall>l \<in> set loads. emitted_from so l)
     \<and> 4096 dvd unat file_offset \<and> code \<le> unat file_offset
     \<and> unat file_offset \<le> code + sum_list (map (\<lambda>bp. unat (p_filesz (snd bp)) + 8192) ps)
     \<and> (\<forall>l \<in> set loads. code \<le> file_start l \<and> file_end l \<le> unat file_offset
          \<and> file_start l mod 4096 = unat (p_vaddr (ld_orig l)) mod 4096)
     \<and> sorted_wrt (\<lambda>k l. file_end k \<le> file_start l) loads)"

lemma BuildLoads_step_below:
  assumes "loads_below so code ps st"
    and "code + sum_list (map (\<lambda>bp. unat (p_filesz (snd bp)) + 8192) (ps @ [(b, p)])) < 2 ^ 64"
  shows "loads_below so code (ps @ [(b, p)]) (BuildLoads_step (load_offset so b) b p st)"
proof -
  obtain fo loads where st: "st = (fo, loads)" by (cases st)
  let ?start = "fo + (p_vaddr p AND 0xfff)"
  let ?l = "\<lparr>ld_bin = b, ld_orig = p, ld_emit = p\<lparr>p_offset := ?start, p_vaddr := p_vaddr p + load_offset so b,
       p_paddr := p_paddr p + load_offset so b, p_flags := p_flags p OR PF_W,
       p_align := (if p_align p > 0x1000 then 0x1000 else p_align p)\<rparr>\<rparr>"
  have step: "BuildLoads_step (load_offset so b) b p st = (AlignNext (?start + p_filesz p), loads @ [?l])"
    by (simp add: st BuildLoads_step_def Let_def)
  from assms(1) have dvd: "4096 dvd unat fo" and code: "code \<le> unat fo"
    and fo: "unat fo \<le> code + sum_list (map (\<lambda>bp. unat (p_filesz (snd bp)) + 8192) ps)"
    and old: "\<And>l. l \<in> set loads \<Longrightarrow> code \<le> file_start l \<and> file_end l \<le> unat fo
          \<and> file_start l mod 4096 = unat (p_vaddr (ld_orig l)) mod 4096"
    by (auto simp: st loads_below_def)
  have low: "unat (p_vaddr p AND 0xfff) < 4096" by (simp add: low12)
  have low': "unat (p_vaddr p) mod 4096 < 4096" by simp
  have bound: "unat fo + unat (p_filesz p) + 8192 < 2 ^ 64" using assms(2) fo by simp
  have start: "unat ?start = unat fo + unat (p_vaddr p) mod 4096"
    using bound low by (simp add: unat_word_ariths low12)
  have mod: "unat ?start mod 4096 = unat (p_vaddr p) mod 4096"
    using dvd start by (metis dvd_imp_mod_0 mod_add_left_eq add_0 mod_mod_trivial)
  have "unat ?start + unat (p_filesz p) + 4095 < 2 ^ 64" using start bound low by (simp add: low12)
  note next_page = page_after [OF this]
  have upper: "unat (AlignNext (?start + p_filesz p)) \<le> unat fo + unat (p_filesz p) + 8192"
    using next_page start low' by linarith
  have new: "code \<le> file_start ?l" "file_end ?l \<le> unat (AlignNext (?start + p_filesz p))" "unat fo \<le> file_start ?l"
    "file_start ?l mod 4096 = unat (p_vaddr (ld_orig ?l)) mod 4096" "emitted_from so ?l"
    using code start next_page mod by (simp_all add: file_start_def file_end_def emitted_from_def)
  have later: "unat fo \<le> unat (AlignNext (?start + p_filesz p))" using start next_page by linarith
  show ?thesis
    unfolding step loads_below_def prod.case
  proof (intro conjI)
    show "map (\<lambda>l. (ld_bin l, ld_orig l)) (loads @ [?l]) = ps @ [(b, p)]"
      using assms(1) by (simp add: st loads_below_def)
    show "\<forall>l \<in> set (loads @ [?l]). emitted_from so l" using assms(1) new(5) by (simp add: st loads_below_def)
    show "4096 dvd unat (AlignNext (?start + p_filesz p))" by (rule AlignNext_aligned)
    show "code \<le> unat (AlignNext (?start + p_filesz p))" using code later by linarith
    show "unat (AlignNext (?start + p_filesz p)) \<le> code + sum_list (map (\<lambda>bp. unat (p_filesz (snd bp)) + 8192) (ps @ [(b, p)]))"
      using upper fo by simp
    show "\<forall>l \<in> set (loads @ [?l]). code \<le> file_start l \<and> file_end l \<le> unat (AlignNext (?start + p_filesz p))
          \<and> file_start l mod 4096 = unat (p_vaddr (ld_orig l)) mod 4096"
      using old later new by (fastforce dest: order_trans)
    show "sorted_wrt (\<lambda>k l. file_end k \<le> file_start l) (loads @ [?l])"
      using assms(1) old new(3) by (fastforce simp: st loads_below_def sorted_wrt_append)
  qed
qed

lemma BuildLoads_loop_below:
  assumes "loads_below so code ps st"
    and "code + sum_list (map (\<lambda>bp. unat (p_filesz (snd bp)) + 8192) (ps @ qs)) < 2 ^ 64"
  shows "loads_below so code (ps @ qs) (fold (\<lambda>bp. BuildLoads_step (load_offset so (fst bp)) (fst bp) (snd bp)) qs st)"
  using assms
proof (induction qs arbitrary: ps st)
  case Nil
  then show ?case by simp
next
  case (Cons q qs)
  obtain b p where q: "q = (b, p)" by (cases q)
  have "loads_below so code (ps @ [(b, p)]) (BuildLoads_step (load_offset so b) b p st)"
    using Cons.prems(2) by (intro BuildLoads_step_below [OF Cons.prems(1)]) (simp add: q)
  from Cons.IH [OF this] Cons.prems(2) show ?case by (simp add: q)
qed

text \<open>
  C5: the file of the output. Every loaded segment of every linked object is emitted once, its
  address moved by the object's offset and its place in the file congruent to the address modulo the page
  size, as \<^verbatim>\<open>mmap\<close> needs it; no two overlap, all lie behind the tables and before the TLS template, and the
  templates and headers behind them do not overlap either.
\<close>
theorem BuildLoads_layout:
  assumes "Sold_BuildLoads so = Inr so'" and "Sold_CodeOffset so = Inr code" and "so_loads so = []"
    and "\<forall>b. 4096 dvd unat (load_offset so b)"
    and "unat code + sum_list (map (\<lambda>bp. unat (p_filesz (snd bp)) + 8192) (linked_loads so))
           + unat (Sold_TLSFileSize so) + unat (Sold_EHFrameSize so) + 8192 < 2 ^ 64"
  shows "map (\<lambda>l. (ld_bin l, ld_orig l)) (so_loads so') = linked_loads so
    \<and> list_all (\<lambda>l. emitted_from so l \<and> unat code \<le> file_start l \<and> file_end l \<le> unat (so_tls_file_offset so')
         \<and> file_start l mod 4096 = unat (p_vaddr (ld_emit l)) mod 4096) (so_loads so')
    \<and> sorted_wrt (\<lambda>k l. file_end k \<le> file_start l) (so_loads so')
    \<and> unat (so_tls_file_offset so') + unat (Sold_TLSFileSize so) \<le> unat (so_ehframe_file_offset so')
    \<and> unat (so_ehframe_file_offset so') + unat (Sold_EHFrameSize so) \<le> unat (so_mprotect_file_offset so')"
proof -
  let ?st = "fold (\<lambda>b. fold (BuildLoads_step (load_offset so b) b) (bn_loads (binary so b))) (so_link_binaries so) (code, [])"
  obtain fo loads where st: "?st = (fo, loads)" by (cases ?st)
  let ?o2 = "AlignNext (fo + Sold_TLSFileSize so)" and ?o3 = "AlignNext (AlignNext (fo + Sold_TLSFileSize so) + Sold_EHFrameSize so)"
  have tls: "Sold_TLSFileSize (so\<lparr>so_loads := loads, so_tls_file_offset := fo\<rparr>) = Sold_TLSFileSize so"
    by (simp add: Sold_TLSFileSize_def sum_TLSFileSize_def linked_phdrs_def binary_def)
  have eh: "Sold_EHFrameSize ((cache_TLSFileSize (so\<lparr>so_loads := loads, so_tls_file_offset := fo\<rparr>))\<lparr>so_ehframe_file_offset := ?o2\<rparr>)
      = Sold_EHFrameSize so"
    by (simp add: Sold_EHFrameSize_def sum_EHFrameSize_def linked_phdrs_def binary_def cache_TLSFileSize_def)
  have so': "so' = (cache_TLSFileSize (so\<lparr>so_loads := loads, so_tls_file_offset := fo\<rparr>))
      \<lparr>so_ehframe_file_offset := ?o2, so_mprotect_file_offset := ?o3\<rparr>"
    using assms(1-3) st tls eh by (simp add: Sold_BuildLoads_def Let_def)
  have fields: "so_loads so' = loads" "so_tls_file_offset so' = fo" "so_ehframe_file_offset so' = ?o2"
    "so_mprotect_file_offset so' = ?o3"
    by (simp_all add: so' cache_TLSFileSize_def)
  have "4096 dvd unat code" using assms(2) AlignNext_aligned by (auto simp: Sold_CodeOffset_def)
  then have "loads_below so (unat code) [] (code, [])" by (simp add: loads_below_def)
  from BuildLoads_loop_below [OF this, of "linked_loads so"] assms(5)
  have below: "loads_below so (unat code) (linked_loads so) (fo, loads)"
    using st unfolding fold_pairs linked_loads_def by simp
  have aligned: "file_start l mod 4096 = unat (p_vaddr (ld_emit l)) mod 4096" if "l \<in> set loads" for l
  proof -
    have "file_start l mod 4096 = unat (p_vaddr (ld_orig l)) mod 4096" using below that by (simp add: loads_below_def)
    also have "\<dots> = (unat (p_vaddr (ld_orig l)) + unat (load_offset so (ld_bin l))) mod 4096"
      using assms(4) by (metis add.right_neutral dvd_imp_mod_0 mod_add_right_eq)
    also have "\<dots> = unat (p_vaddr (ld_orig l) + load_offset so (ld_bin l)) mod 4096"
      by (simp add: unat_word_ariths mod_mod_cancel)
    finally show ?thesis using below that by (auto simp: loads_below_def emitted_from_def Let_def)
  qed
  have fo: "unat fo \<le> unat code + sum_list (map (\<lambda>bp. unat (p_filesz (snd bp)) + 8192) (linked_loads so))"
    using below by (simp add: loads_below_def)
  have 2: "unat fo + unat (Sold_TLSFileSize so) \<le> unat ?o2 \<and> unat ?o2 \<le> unat fo + unat (Sold_TLSFileSize so) + 4095"
    using assms(5) fo by (intro page_after) linarith
  have 3: "unat ?o2 + unat (Sold_EHFrameSize so) \<le> unat ?o3"
    using page_after [of ?o2 "Sold_EHFrameSize so"] assms(5) fo 2 by linarith
  show ?thesis
    unfolding fields using below aligned 2 3 by (auto simp: loads_below_def list_all_iff)
qed

section \<open>The tables in the file\<close>

lemma tables_placed:
  assumes "tables_ok so" and "output_phdrs so = Inr phs" and "of_nat (length phs) = Sold_CountPhdrs so"
    and "total_size (output_tables so phs) < 2 ^ 31"
  shows "\<exists>fp. rfold id ([WriteBuf (enc_Elf_Ehdr (so_ehdr so)), Sold_EmitPhdrs so] @ emit_tables so @ [EmitAlign]) []
      = Inr fp
    \<and> Sold_CodeOffset so = Inr (of_nat (length fp)) \<and> length fp < 2 ^ 32
    \<and> list_all (\<lambda>(off, bs). at_offset fp off bs) (output_tables so phs)"
proof -
  define E P I F B where "E = enc_Elf_Ehdr (so_ehdr so)" and "P = concat (map enc_Elf_Phdr phs)"
    and "I = words_bytes (so_init_array so)" and "F = words_bytes (so_fini_array so)"
    and "B = concat (map (snd \<circ> snd) (table_stages so))"
  note parts = this
  have lens: "length E = 64" "length P = 56 * length phs" unfolding parts by (rule length_encodings)+
  have total: "64 + 56 * length phs + length I + length F + length B < 2 ^ 31"
    using assms(4) unfolding total_size_output_tables parts .
  then have "64 + 56 * length phs < 2 ^ 32" by simp
  from InitArrayOffset_aligned [OF assms(3) this] obtain k where k: "k < 8"
    and init: "Sold_InitArrayOffset so = of_nat (64 + 56 * length phs + k)" by blast
  define Z :: "u8 list" where "Z = replicate k 0"
  let ?f = "E @ P @ Z" and ?t = "E @ P @ Z @ I @ F"
  have lenf: "length ?f = 64 + 56 * length phs + k" and lent: "length ?t = 64 + 56 * length phs + k + length I + length F"
    and lenfi: "length (?f @ I) = 64 + 56 * length phs + k + length I"
    by (simp_all add: lens Z_def)
  have fini: "Sold_FiniArrayOffset so = of_nat (length (?f @ I))"
    using table_offsets(1) [OF assms(1) init, folded I_def] by (simp only: lenfi)
  have gnu: "Sold_GnuHashOffset so = of_nat (length ?t)"
    using table_offsets(2) [OF assms(1) init, folded I_def F_def] by (simp only: lent)
  note chain = table_stages_chained [OF assms(1) init, unfolded gnu, folded B_def]
  define A :: "u8 list" where "A = replicate (page_up (length (?t @ B)) - length (?t @ B)) 0"
  let ?fp = "?t @ B @ A"
  have len: "length (?t @ B) + 4095 < 2 ^ 63" using total lent k by simp
  have lenfp: "length ?fp = page_up (length (?t @ B))" using page_up_ge [of "length (?t @ B)"] by (simp add: A_def)
  have "Sold_CodeOffset so = Inr (AlignNext (of_nat (length (?t @ B))))" using chain(2) by (simp add: add.assoc)
  then have code: "Sold_CodeOffset so = Inr (of_nat (length ?fp))" by (simp only: AlignNext_of_nat [OF len] lenfp)
  have short: "length ?fp < 2 ^ 32" using lenfp total lent k page_up_less [of "length (?t @ B)"] by simp
  have arrays: "Sold_EmitArrays so (E @ P) = Inr ?t"
    using EmitArrays_writes [OF _ _ _ init, of "E @ P"] total k lens by (simp add: Z_def I_def F_def)
  have "rfold id (map (fst \<circ> snd) (table_stages so)) ?t = Inr (?t @ B)"
    using chain_writes [OF chain(1) table_stages_ok [OF assms(1)]] by (simp only: B_def)
  then have "rfold id (emit_tables so) (E @ P) = Inr (?t @ B)"
    using arrays by (simp add: emit_tables_def table_stages_def)
  then have written: "rfold id ([WriteBuf (enc_Elf_Ehdr (so_ehdr so)), Sold_EmitPhdrs so] @ emit_tables so @ [EmitAlign]) []
      = Inr ?fp"
    using EmitPhdrs_writes [OF assms(2,3), folded P_def] EmitAlign_ok [OF len, folded A_def]
    by (simp add: rfold_append WriteBuf_def E_def [symmetric])
  note place = at_offsetI [where fp = ?fp, OF _ _ less_trans [OF short]]
  have "at_offset ?fp (Inr 0) E" by (rule place [where pre = "[]"]) simp_all
  moreover have "at_offset ?fp (Inr 64) P" by (rule place [where pre = E]) (simp_all add: lens)
  moreover have "at_offset ?fp (Inr (Sold_InitArrayOffset so)) I" by (rule place [where pre = ?f]) (simp_all add: init lens Z_def)
  moreover have "at_offset ?fp (Inr (Sold_FiniArrayOffset so)) F" by (rule place [where pre = "?f @ I"]) (simp_all add: fini)
  moreover have "list_all (\<lambda>(off, f, bs). at_offset ?fp off bs) (table_stages so)"
    using chain_places [OF chain(1), of A] short by (simp add: B_def)
  ultimately have "list_all (\<lambda>(off, bs). at_offset ?fp off bs) (output_tables so phs)"
    unfolding output_tables_def parts by (simp add: list.pred_map comp_def case_prod_unfold)
  with written code short show ?thesis by blast
qed

text \<open>
  C7: \<^verbatim>\<open>Emit\<close> writes everything in front of the code without failing a check on the position, and in
  the file each table stands at the offset the layout functions (which the dynamic section and the section
  headers quote) compute for it; the code offset is the length written.
\<close>
theorem Emit_tables_placed:
  assumes "tables_ok so" and "output_phdrs so = Inr phs" and "of_nat (length phs) = Sold_CountPhdrs so"
    and "total_size (output_tables so phs) < 2 ^ 31"
  shows "\<exists>fp. rfold id ([WriteBuf (enc_Elf_Ehdr (so_ehdr so)), Sold_EmitPhdrs so] @ emit_tables so @ [EmitAlign]) []
      = Inr fp
    \<and> Sold_CodeOffset so = Inr (of_nat (length fp)) \<and> length fp < 2 ^ 32
    \<and> list_all (\<lambda>(off, bs). at_offset fp off bs) (output_tables so phs)"
  by (rule tables_placed [OF assms])

section \<open>A concrete input\<close>

definition sample_phdr :: "u32 \<Rightarrow> u64 \<Rightarrow> u64 \<Rightarrow> Elf_Phdr" where
  "sample_phdr type addr sz = \<lparr>p_type = type, p_flags = 5, p_offset = addr, p_vaddr = addr, p_paddr = addr,
     p_filesz = sz, p_memsz = sz, p_align = 0x200000\<rparr>"

definition sample_library :: ELFBinary where
  "sample_library = (ELFBinary_init ''liba.so'' [] 0 0
      \<lparr>e_ident = 0, e_type = 3, e_machine = 62, e_version = 1, e_entry = 0, e_phoff = 64, e_shoff = 0, e_flags = 0,
       e_ehsize = 64, e_phentsize = 56, e_phnum = 3, e_shentsize = 0, e_shnum = 0, e_shstrndx = 0\<rparr>)
     \<lparr>bn_phdrs := [sample_phdr PT_LOAD 0 0x1234, sample_phdr PT_LOAD 0x3010 0x20, sample_phdr PT_DYNAMIC 0x3010 0x10],
      bn_loads := [sample_phdr PT_LOAD 0 0x1234, sample_phdr PT_LOAD 0x3010 0x20], bn_soname := ''liba.so''\<rparr>"

definition sample_symtab :: SymtabBuilder where
  "sample_symtab = \<lparr>sm_src_syms = Map.empty, sm_src_fallback_syms = Map.empty, sm_syms = Map.empty,
     sm_exposed_syms = [\<lparr>si_name = [], si_soname = [], si_version = [], si_versym = 0, si_sym = None\<rparr>],
     sm_symtab = [null_sym], sm_public_syms = [],
     sm_gnu_hash = \<lparr>gh_nbuckets = 1, gh_symndx = 1, gh_maskwords = 1, gh_shift2 = 1\<rparr>\<rparr>"

text \<open>Two copies of the library in one output, before anything has been laid out.\<close>

definition sample_sold :: Sold where
  "sample_sold = (Sold_init \<lparr>sc_TLSFileSize = 0, sc_EHFrameSize = 0, sc_TLSMemSize = 0\<rparr> sample_library [] [] [] False
      sample_symtab \<lparr>mb_machine_type = 62, mb_offsets = [], mb_sizes = []\<rparr>)
     \<lparr>so_bins := [sample_library, sample_library], so_link_binaries := [0, 1]\<rparr>"

lemma sample_library_loads:
  "bn_loads sample_library = [sample_phdr PT_LOAD 0 0x1234, sample_phdr PT_LOAD 0x3010 0x20]"
  "bn_phdrs sample_library
     = [sample_phdr PT_LOAD 0 0x1234, sample_phdr PT_LOAD 0x3010 0x20, sample_phdr PT_DYNAMIC 0x3010 0x10]"
  by (simp_all add: sample_library_def)

lemma sample_range: "ELFBinary_GetRange sample_library = \<lparr>rg_start = 0, rg_end = 0x4000\<rparr>"
  by (simp add: ELFBinary_GetRange_def sample_library_loads sample_phdr_def AlignNext_def AlignNext_mask_def
      LINUX_PAGE_SIZE_def)

lemma sample_bins:
  "so_link_binaries sample_sold = [0, 1]" "binary sample_sold 0 = sample_library" "binary sample_sold 1 = sample_library"
  "binary sample_sold (Suc 0) = sample_library"
  "so_offsets sample_sold = Map.empty" "so_loads sample_sold = []" "so_machine_type sample_sold = 62"
  "so_statics sample_sold = \<lparr>sc_TLSFileSize = 0, sc_EHFrameSize = 0, sc_TLSMemSize = 0\<rparr>"
  by (simp_all add: sample_sold_def Sold_init_def binary_def sample_library_def ELFBinary_init_def)

lemma sample_linked_phdrs:
  "linked_phdrs PT_TLS sample_sold = []" "linked_phdrs PT_GNU_EH_FRAME sample_sold = []"
  "linked_phdrs PT_GNU_RELRO sample_sold = []"
  by (simp_all add: linked_phdrs_def sample_bins sample_library_loads sample_phdr_def)

lemma sample_sizes: "Sold_TLSMemSize sample_sold = 0" "Sold_TLSFileSize sample_sold = 0" "Sold_EHFrameSize sample_sold = 12"
  by (simp_all add: Sold_TLSMemSize_def sum_TLSMemSize_def Sold_TLSFileSize_def sum_TLSFileSize_def Sold_EHFrameSize_def
      sum_EHFrameSize_def sample_linked_phdrs sample_bins)

theorem GetRange_covers_witness:
  "unat (0x3010 :: u64) + unat (0x20 :: u64) \<le> unat (rg_end (ELFBinary_GetRange sample_library))
    \<and> (\<exists>q \<in> set (bn_loads sample_library). rg_end (ELFBinary_GetRange sample_library) = AlignNext (p_vaddr q + p_memsz q))"
proof -
  have 1: "sample_phdr PT_LOAD 0x3010 0x20 \<in> set (bn_loads sample_library)" by (simp add: sample_library_loads)
  have 2: "unat (p_vaddr (sample_phdr PT_LOAD 0x3010 0x20)) + unat (p_memsz (sample_phdr PT_LOAD 0x3010 0x20)) + 4095 < 2 ^ 64"
    by (simp add: sample_phdr_def)
  from GetRange_covers [OF 1 2] show ?thesis by (simp add: sample_phdr_def)
qed


definition sample_placed :: Sold where
  "sample_placed = sample_sold\<lparr>so_offsets := [0 \<mapsto> 0x10000000, 1 \<mapsto> 0x10004000]\<rparr>"

lemma sample_placed_bins:
  "so_link_binaries sample_placed = [0, 1]" "binary sample_placed 0 = sample_library"
  "binary sample_placed (Suc 0) = sample_library" "so_loads sample_placed = []"
  "load_offset sample_placed 0 = 0x10000000" "load_offset sample_placed (Suc 0) = 0x10004000"
  using sample_bins by (simp_all add: sample_placed_def binary_def load_offset_def)

lemma sample_placed_sizes: "Sold_TLSFileSize sample_placed = 0" "Sold_EHFrameSize sample_placed = 12"
  by (simp_all add: sample_placed_def sizes_offsets_irrelevant sample_sizes)

lemma sample_placed_tables: "tables_ok sample_placed"
  by (simp add: tables_ok_def sample_placed_def sample_sold_def Sold_init_def sample_symtab_def version_wf_new
      version_names_in_new)

lemma sample_placed_arrays: "so_init_array sample_placed = []" "so_fini_array sample_placed = []"
  "so_rels sample_placed = []" "so_dynamic sample_placed = []" "so_strtab sample_placed = StrtabBuilder_new Map.empty"
  "so_version sample_placed = VersionBuilder_new" "so_syms sample_placed = sample_symtab"
  by (simp_all add: sample_placed_def sample_sold_def Sold_init_def)

lemma sample_placed_count: "Sold_CountPhdrs sample_placed = 10"
  by (simp add: Sold_CountPhdrs_def sample_placed_bins sample_library_loads)
    (simp add: sample_placed_def sample_sold_def Sold_init_def ELFBinary_FindPhdr_def sample_library_loads sample_phdr_def)

lemma sample_placed_init: "Sold_InitArrayOffset sample_placed = of_nat 624"
  by (simp add: Sold_InitArrayOffset_def sample_placed_count AlignNext_mask_def)

lemma sample_stages_length: "length (concat (map (snd \<circ> snd) (table_stages sample_placed))) < 1000"
  by (simp add: table_stages_def sample_placed_arrays sample_symtab_def gnu_hash_bytes_def versym_bytes_def
      verneed_bytes_def VersionBuilder_new_def VersionBuilder_EmitVerneed_def StrtabBuilder_data_def StrtabBuilder_new_def
      shstrtab_str_def type_to_str_def sym.enc_length)

lemma sample_placed_code: "\<exists>c. Sold_CodeOffset sample_placed = Inr c \<and> unat c \<le> 8192"
proof -
  let ?n = "624 + length (concat (map (snd \<circ> snd) (table_stages sample_placed)))"
  have "Sold_GnuHashOffset sample_placed = of_nat 624"
    using table_offsets(2) [OF sample_placed_tables sample_placed_init] by (simp add: sample_placed_arrays words_bytes_def)
  then have c: "Sold_CodeOffset sample_placed = Inr (AlignNext (of_nat ?n))"
    using table_stages_chained(2) [OF sample_placed_tables sample_placed_init] by simp
  have "page_up ?n < ?n + 4096" by (rule page_up_less)
  moreover have "AlignNext (of_nat ?n) = of_nat (page_up ?n)"
    using sample_stages_length by (intro AlignNext_of_nat) simp
  ultimately show ?thesis using c sample_stages_length by (simp add: unat_of_nat)
qed

theorem BuildLoads_layout_witness:
  "\<exists>so'. Sold_BuildLoads sample_placed = Inr so' \<and> length (so_loads so') = 4
    \<and> sorted_wrt (\<lambda>k l. file_end k \<le> file_start l) (so_loads so')"
proof -
  obtain c where c: "Sold_CodeOffset sample_placed = Inr c" "unat c \<le> 8192" using sample_placed_code by blast
  then have "c < load_offset sample_placed 0" by (simp add: sample_placed_bins word_less_nat_alt)
  then obtain so' where r: "Sold_BuildLoads sample_placed = Inr so'"
    by (simp add: Sold_BuildLoads_def c Let_def case_prod_unfold)
  have dvd: "\<forall>b. 4096 dvd unat (load_offset sample_placed b)"
    by (simp add: load_offset_def sample_placed_def sample_bins)
  have loads: "linked_loads sample_placed = [(0, sample_phdr PT_LOAD 0 0x1234), (0, sample_phdr PT_LOAD 0x3010 0x20),
      (1, sample_phdr PT_LOAD 0 0x1234), (1, sample_phdr PT_LOAD 0x3010 0x20)]"
    by (simp add: linked_loads_def sample_placed_bins sample_library_loads)
  have "unat c + sum_list (map (\<lambda>bp. unat (p_filesz (snd bp)) + 8192) (linked_loads sample_placed))
      + unat (Sold_TLSFileSize sample_placed) + unat (Sold_EHFrameSize sample_placed) + 8192 < 2 ^ 64"
    using c(2) by (simp add: loads sample_phdr_def sample_placed_sizes)
  note layout = BuildLoads_layout [OF r c(1) sample_placed_bins(4) dvd this]
  then have "length (so_loads so') = 4" unfolding loads by (auto dest: arg_cong [of _ _ length])
  with r layout show ?thesis by blast
qed

definition sample_output :: Sold where
  "sample_output = sample_placed\<lparr>so_loads := replicate 4 \<lparr>ld_bin = 0, ld_orig = sample_phdr PT_LOAD 0 0,
     ld_emit = sample_phdr PT_LOAD 8192 0\<rparr>, so_tls_file_offset := 8192, so_mprotect_file_offset := 16384\<rparr>"

lemma sample_output_fields: "so_init_array sample_output = []" "so_fini_array sample_output = []"
  "so_rels sample_output = []" "so_dynamic sample_output = []" "so_strtab sample_output = StrtabBuilder_new Map.empty"
  "so_version sample_output = VersionBuilder_new" "so_syms sample_output = sample_symtab"
  "so_tls sample_output = so_tls sample_placed" "so_is_executable sample_output = so_is_executable sample_placed"
  "so_link_binaries sample_output = [0, 1]" "binary sample_output = binary sample_placed"
  "length (so_loads sample_output) = 4" "so_machine_type sample_output = 62"
  using sample_placed_bins sample_placed_arrays sample_bins
  by (auto simp: sample_output_def binary_def sample_placed_def)

lemma sample_output_tables: "tables_ok sample_output" "Sold_CountPhdrs sample_output = 10"
  using sample_placed_tables sample_placed_count
  by (simp_all add: tables_ok_def sample_output_fields sample_placed_arrays Sold_CountPhdrs_def sample_placed_bins)

lemma sample_output_length: "length (concat (map (snd \<circ> snd) (table_stages sample_output))) < 1000"
  by (simp add: table_stages_def sample_output_fields sample_symtab_def gnu_hash_bytes_def versym_bytes_def
      verneed_bytes_def VersionBuilder_new_def VersionBuilder_EmitVerneed_def StrtabBuilder_data_def StrtabBuilder_new_def
      shstrtab_str_def type_to_str_def sym.enc_length)

lemma sample_output_phdrs: "\<exists>phs. output_phdrs sample_output = Inr phs \<and> length phs = 10"
proof -
  have "\<exists>n. Sold_InitArrayOffset sample_output = of_nat n"
    by (rule exI [of _ 624]) (simp add: Sold_InitArrayOffset_def sample_output_tables AlignNext_mask_def)
  then obtain n where n: "Sold_InitArrayOffset sample_output = of_nat n" by blast
  have "\<exists>d. Sold_DynamicOffset sample_output = Inr d"
    using table_offsets(3) [OF sample_output_tables(1) n]
    by (simp add: Sold_DynamicOffset_def Sold_StrtabOffset_def Sold_RelOffset_def Sold_VerneedOffset_def
        Sold_VersymOffset_def Sold_SymtabOffset_def)
  moreover have "so_is_executable sample_placed = False" "tls_memsz (so_tls sample_placed) = 0"
    by (simp_all add: sample_placed_def sample_sold_def Sold_init_def ELFBinary_FindPhdr_def sample_library_loads
        sample_phdr_def)
  moreover have "linked_phdrs PT_GNU_RELRO sample_output = []"
    using sample_linked_phdrs(3) sample_bins(1)
    by (simp add: linked_phdrs_def sample_output_fields sample_placed_bins sample_library_loads sample_phdr_def)
  ultimately show ?thesis
    by (auto simp: output_phdrs_def Let_def sample_output_fields sample_placed_bins sample_library_loads
        Sold_MprotectSize_def ELFBinary_GetPhdr_def ELFBinary_FindPhdr_def sample_phdr_def)
qed

theorem Emit_tables_placed_witness:
  "\<exists>fp. rfold id ([WriteBuf (enc_Elf_Ehdr (so_ehdr sample_output)), Sold_EmitPhdrs sample_output]
       @ emit_tables sample_output @ [EmitAlign]) [] = Inr fp
    \<and> Sold_CodeOffset sample_output = Inr (of_nat (length fp))"
proof -
  obtain phs where phs: "output_phdrs sample_output = Inr phs" "length phs = 10" using sample_output_phdrs by blast
  then have count: "of_nat (length phs) = Sold_CountPhdrs sample_output" by (simp add: sample_output_tables)
  have "total_size (output_tables sample_output phs) < 2 ^ 31"
    using sample_output_length
    by (simp add: total_size_output_tables sample_output_fields phs words_bytes_def del: length_concat)
  from Emit_tables_placed [OF sample_output_tables(1) phs(1) count this] show ?thesis by blast
qed

end
