(* ===== verification/Dynamic_Section.thy ===== *)
theory Dynamic_Section
  imports Layout
begin

text \<open>
  The dynamic section of the output: what \<^verbatim>\<open>Sold::BuildDynamic\<close> writes while the string table is still
  growing is what the final layout and the final string table of \<^verbatim>\<open>Sold::Link\<close> say. The steps of
  \<^verbatim>\<open>Link\<close> are split into those before \<^verbatim>\<open>BuildDynamic\<close>, which write neither \<^verbatim>\<open>dynamic_\<close> nor
  \<^verbatim>\<open>loads_\<close>, and those after it, which keep everything the offsets depend on.
\<close>

section \<open>What the offsets depend on\<close>

definition layout_view ::
  "Sold \<Rightarrow> bool \<times> TLS \<times> nat list \<times> ELFBinary list \<times> u64 list \<times> u64 list \<times> SymtabBuilder \<times> VersionBuilder
    \<times> Elf_Rel list \<times> StrtabBuilder \<times> (nat \<rightharpoonup> u64) \<times> (string \<times> nat) list" where
  "layout_view so = (so_is_executable so, so_tls so, so_link_binaries so, so_bins so, so_init_array so,
     so_fini_array so, so_syms so, so_version so, so_rels so, StrtabBuilder_Freeze (so_strtab so),
     so_offsets so, so_libraries so)"

lemma layout_view_offsets:
  assumes "layout_view so' = layout_view so"
  shows "Sold_InitArrayOffset so' = Sold_InitArrayOffset so" "Sold_FiniArrayOffset so' = Sold_FiniArrayOffset so"
    "Sold_GnuHashOffset so' = Sold_GnuHashOffset so" "Sold_SymtabOffset so' = Sold_SymtabOffset so"
    "Sold_VersymOffset so' = Sold_VersymOffset so" "Sold_VerneedOffset so' = Sold_VerneedOffset so"
    "Sold_RelOffset so' = Sold_RelOffset so" "Sold_StrtabOffset so' = Sold_StrtabOffset so"
    "BuildDynamic_layout so' = BuildDynamic_layout so"
proof -
  have v: "so_is_executable so' = so_is_executable so" "so_tls so' = so_tls so" "so_link_binaries so' = so_link_binaries so"
    "so_bins so' = so_bins so" "so_init_array so' = so_init_array so" "so_fini_array so' = so_fini_array so"
    "so_syms so' = so_syms so" "so_version so' = so_version so" "so_rels so' = so_rels so"
    and fz: "StrtabBuilder_Freeze (so_strtab so') = StrtabBuilder_Freeze (so_strtab so)"
    using assms by (simp_all add: layout_view_def)
  have st: "sb_strtab (so_strtab so') = sb_strtab (so_strtab so)"
    using arg_cong [OF fz, of sb_strtab] by (simp add: StrtabBuilder_Freeze_def)
  show 1: "Sold_InitArrayOffset so' = Sold_InitArrayOffset so"
    by (simp add: Sold_InitArrayOffset_def Sold_CountPhdrs_def binary_def v)
  show 2: "Sold_FiniArrayOffset so' = Sold_FiniArrayOffset so"
    by (simp add: Sold_FiniArrayOffset_def Sold_InitArraySize_def 1 v)
  show 3: "Sold_GnuHashOffset so' = Sold_GnuHashOffset so"
    by (simp add: Sold_GnuHashOffset_def Sold_FiniArraySize_def 2 v)
  show 4: "Sold_SymtabOffset so' = Sold_SymtabOffset so"
    by (simp add: Sold_SymtabOffset_def Sold_GnuHashSize_def 3 v)
  show 5: "Sold_VersymOffset so' = Sold_VersymOffset so" by (simp add: Sold_VersymOffset_def Sold_SymtabSize_def 4 v)
  show 6: "Sold_VerneedOffset so' = Sold_VerneedOffset so" by (simp add: Sold_VerneedOffset_def Sold_VersymSize_def 5 v)
  show 7: "Sold_RelOffset so' = Sold_RelOffset so" by (simp add: Sold_RelOffset_def Sold_VerneedSize_def 6 v)
  show 8: "Sold_StrtabOffset so' = Sold_StrtabOffset so" by (simp add: Sold_StrtabOffset_def Sold_RelSize_def 7 v)
  show "BuildDynamic_layout so' = BuildDynamic_layout so"
    by (simp add: BuildDynamic_layout_def StrtabBuilder_size_def 1 2 3 4 5 6 7 8 v st)
qed

section \<open>The steps after the dynamic section has been built\<close>

definition keeps_tables :: "(Sold \<Rightarrow> Sold res) \<Rightarrow> bool" where
  "keeps_tables f \<longleftrightarrow> (\<forall>so so'. f so = Inr so' \<longrightarrow> layout_view so' = layout_view so \<and> so_dynamic so' = so_dynamic so)"

lemma keeps_tablesI:
  "(\<And>so so'. f so = Inr so' \<Longrightarrow> layout_view so' = layout_view so \<and> so_dynamic so' = so_dynamic so) \<Longrightarrow> keeps_tables f"
  by (simp add: keeps_tables_def)

lemma keeps_tables_chain:
  assumes "list_all keeps_tables fs" and "rfold id fs so = Inr so'"
  shows "layout_view so' = layout_view so \<and> so_dynamic so' = so_dynamic so"
  using assms by (induction fs arbitrary: so) (auto simp: keeps_tables_def)

lemma keeps_BuildMprotect: "keeps_tables (\<lambda>so. Inr (Sold_BuildMprotect so))"
proof -
  have "layout_view (fold (\<lambda>b so. case bn_gnu_relro (binary so b) of None \<Rightarrow> so
      | Some r \<Rightarrow> so\<lparr>so_memprotect_builder := MprotectBuilder_Add (p_vaddr r + load_offset so b) (p_memsz r) (so_memprotect_builder so)\<rparr>)
      bs so) = layout_view so
    \<and> so_dynamic (fold (\<lambda>b so. case bn_gnu_relro (binary so b) of None \<Rightarrow> so
      | Some r \<Rightarrow> so\<lparr>so_memprotect_builder := MprotectBuilder_Add (p_vaddr r + load_offset so b) (p_memsz r) (so_memprotect_builder so)\<rparr>)
      bs so) = so_dynamic so" for bs so
    by (induction bs arbitrary: so) (auto simp: layout_view_def split: option.split)
  then show ?thesis by (intro keeps_tablesI) (auto simp: Sold_BuildMprotect_def)
qed

lemma keeps_Freeze: "keeps_tables (\<lambda>so. Inr (so\<lparr>so_strtab := StrtabBuilder_Freeze (so_strtab so)\<rparr>))"
  by (auto simp: keeps_tables_def layout_view_def StrtabBuilder_Freeze_def)

lemma keeps_BuildLoads: "keeps_tables Sold_BuildLoads"
proof (rule keeps_tablesI)
  fix so so' assume "Sold_BuildLoads so = Inr so'"
  then obtain c where c: "rbind (CHECK (c < load_offset so 0)) (\<lambda>_.
     let (file_offset, loads) =
           fold (\<lambda>b. fold (BuildLoads_step (load_offset so b) b) (bn_loads (binary so b)))
             (so_link_binaries so) (c, so_loads so);
         so = so\<lparr>so_loads := loads, so_tls_file_offset := file_offset\<rparr>;
         file_offset = AlignNext (file_offset + Sold_TLSFileSize so);
         so = (cache_TLSFileSize so)\<lparr>so_ehframe_file_offset := file_offset\<rparr>;
         file_offset = AlignNext (file_offset + Sold_EHFrameSize so)
     in Inr (so\<lparr>so_mprotect_file_offset := file_offset\<rparr>)) = Inr so'"
    unfolding Sold_BuildLoads_def by (simp only: rbind_Inr_iff) blast
  show "layout_view so' = layout_view so \<and> so_dynamic so' = so_dynamic so"
    using c by (auto simp: Let_def case_prod_unfold layout_view_def cache_TLSFileSize_def)
qed

lemma keeps_BuildEHFrameHeader: "keeps_tables Sold_BuildEHFrameHeader"
proof (rule keeps_tablesI)
  fix so so' assume "Sold_BuildEHFrameHeader so = Inr so'"
  then have r: "rfold BuildEHFrameHeader_step (linked_phdrs PT_GNU_EH_FRAME so) so = Inr so'"
    by (auto simp: Sold_BuildEHFrameHeader_def)
  show "layout_view so' = layout_view so \<and> so_dynamic so' = so_dynamic so"
    by (rule rfold_inv [OF r]) (auto simp: BuildEHFrameHeader_step_def Let_def layout_view_def)
qed

lemma keeps_register_shdr: "keeps_tables (register_shdr off sz type entsize info)"
  by (auto simp: keeps_tables_def register_shdr_def layout_view_def)

lemma keeps_register_shdrs: "keeps_tables register_shdrs"
proof (rule keeps_tablesI)
  fix so so' assume r: "register_shdrs so = Inr so'"
  show "layout_view so' = layout_view so \<and> so_dynamic so' = so_dynamic so"
    by (rule keeps_tables_chain [OF _ r [unfolded register_shdrs_def]]) (simp add: keeps_register_shdr)
qed

lemma keeps_freeze_shdrs: "keeps_tables freeze_shdrs"
  by (auto simp: keeps_tables_def freeze_shdrs_def layout_view_def)

lemma keeps_BuildEhdr: "keeps_tables Sold_BuildEhdr"
  by (auto simp: keeps_tables_def Sold_BuildEhdr_def layout_view_def)

definition finish_steps :: "(Sold \<Rightarrow> Sold res) list" where
  "finish_steps = [\<lambda>so. Inr (Sold_BuildMprotect so),
     \<lambda>so. Inr (so\<lparr>so_strtab := StrtabBuilder_Freeze (so_strtab so)\<rparr>),
     Sold_BuildLoads, Sold_BuildEHFrameHeader, register_shdrs, freeze_shdrs, Sold_BuildEhdr]"

lemmas keeps_steps = keeps_BuildMprotect keeps_Freeze keeps_BuildLoads keeps_BuildEHFrameHeader
  keeps_register_shdrs keeps_freeze_shdrs keeps_BuildEhdr

lemma finish_steps_keep:
  assumes "rfold id finish_steps so = Inr so'"
  shows "layout_view so' = layout_view so \<and> so_dynamic so' = so_dynamic so"
  by (rule keeps_tables_chain [OF _ assms]) (simp add: finish_steps_def keeps_steps)


section \<open>The dynamic section\<close>

text \<open>The entries that name strings and those that hold addresses of the main object.\<close>

definition string_entries :: "Sold \<Rightarrow> (u64 \<times> string) list" where
  "string_entries so =
     map (Pair DT_NEEDED) (dynamic_neededs so)
     @ filter (\<lambda>e. snd e \<noteq> []) [(DT_SONAME, bn_soname (main_binary so)), (DT_RPATH, bn_rpath (main_binary so)),
                               (DT_RUNPATH, bn_runpath (main_binary so))]"

definition address_entries :: "Sold \<Rightarrow> Elf_Dyn list" where
  "address_entries so =
     map (\<lambda>e. Elf_Dyn.make (fst e) (snd e + load_offset so 0))
       (filter (\<lambda>e. snd e \<noteq> 0) [(DT_INIT, bn_init (main_binary so)), (DT_FINI, bn_fini (main_binary so))])"

definition names_string :: "StrtabBuilder \<Rightarrow> u64 \<times> string \<Rightarrow> Elf_Dyn \<Rightarrow> bool" where
  "names_string strtab e d \<longleftrightarrow> d_tag d = fst e \<and> StrtabBuilder_GetPos (snd e) strtab = Inr (d_val d)"

lemma dyn_string_step:
  assumes "dyn_string tag s so = Inr so'"
  shows "\<exists>d st. so' = so\<lparr>so_strtab := st, so_dynamic := so_dynamic so @ [d]\<rparr> \<and> strtab_le (so_strtab so) st
    \<and> names_string st (tag, s) d"
proof -
  from assms obtain pos st where a: "StrtabBuilder_Add s (so_strtab so) = Inr (pos, st)"
    and so': "so' = so\<lparr>so_strtab := st, so_dynamic := so_dynamic so @ [\<lparr>d_tag = tag, d_val = pos\<rparr>]\<rparr>"
    by (auto simp: dyn_string_def Sold_AddStr_def Sold_MakeDyn_def)
  show ?thesis
    using so' Add_le [OF a] Add_GetPos [OF a]
    by (intro exI [of _ "\<lparr>d_tag = tag, d_val = pos\<rparr>"] exI [of _ st]) (simp add: names_string_def)
qed

lemma names_string_le: "strtab_le st st' \<Longrightarrow> names_string st e d \<Longrightarrow> names_string st' e d"
  by (auto simp: names_string_def intro: GetPos_le)

lemma dyn_strings:
  assumes "rfold (\<lambda>e. dyn_string (fst e) (snd e)) es so = Inr so'"
  shows "\<exists>ds st. so' = so\<lparr>so_strtab := st, so_dynamic := so_dynamic so @ ds\<rparr> \<and> strtab_le (so_strtab so) st
    \<and> list_all2 (names_string st) es ds"
  using assms
proof (induction es arbitrary: so)
  case Nil
  then show ?case by (auto intro!: exI [of _ "so_strtab so"])
next
  case (Cons e es)
  from Cons.prems obtain s1 where s1: "dyn_string (fst e) (snd e) so = Inr s1"
    "rfold (\<lambda>e. dyn_string (fst e) (snd e)) es s1 = Inr so'" by auto
  from dyn_string_step [OF s1(1)] obtain d st where d: "s1 = so\<lparr>so_strtab := st, so_dynamic := so_dynamic so @ [d]\<rparr>"
    "strtab_le (so_strtab so) st" "names_string st e d" by auto
  from Cons.IH [OF s1(2)] obtain ds st' where ds: "so' = s1\<lparr>so_strtab := st', so_dynamic := so_dynamic s1 @ ds\<rparr>"
    "strtab_le (so_strtab s1) st'" "list_all2 (names_string st') es ds" by auto
  have "names_string st' e d" using ds(2) d by (auto intro: names_string_le)
  then show ?case
    using d ds by (intro exI [of _ "d # ds"] exI [of _ st']) (auto intro: strtab_le_trans)
qed

lemma BuildDynamic_strings:
  assumes "Sold_BuildDynamic so = Inr so'"
  shows "\<exists>s1 entries. rfold (\<lambda>e. dyn_string (fst e) (snd e)) (string_entries so) so = Inr s1
    \<and> BuildDynamic_layout (s1\<lparr>so_dynamic := so_dynamic s1 @ address_entries so\<rparr>) = Inr entries
    \<and> so' = s1\<lparr>so_dynamic := so_dynamic s1 @ address_entries so @ entries\<rparr>"
proof -
  let ?main = "main_binary so"
  let ?str = "\<lambda>tag s so. if s \<noteq> [] then dyn_string tag s so else Inr so"
  let ?addr = "\<lambda>tag ptr so. if ptr \<noteq> 0 then Sold_MakeDyn tag (ptr + load_offset so 0) so else so"
  from assms obtain s1 s2 s3 s4 entries where
    r1: "rfold (dyn_string DT_NEEDED) (dynamic_neededs so) so = Inr s1"
    and r2: "?str DT_SONAME (bn_soname ?main) s1 = Inr s2" and r3: "?str DT_RPATH (bn_rpath ?main) s2 = Inr s3"
    and r4: "?str DT_RUNPATH (bn_runpath ?main) s3 = Inr s4"
    and r5: "BuildDynamic_layout (?addr DT_FINI (bn_fini ?main) (?addr DT_INIT (bn_init ?main) s4)) = Inr entries"
    and so': "so' = (?addr DT_FINI (bn_fini ?main) (?addr DT_INIT (bn_init ?main) s4))
        \<lparr>so_dynamic := so_dynamic (?addr DT_FINI (bn_fini ?main) (?addr DT_INIT (bn_init ?main) s4)) @ entries\<rparr>"
    unfolding Sold_BuildDynamic_def Let_def by (simp only: rbind_Inr_iff sum.inject) blast
  have map_pair: "rfold (\<lambda>e. dyn_string (fst e) (snd e)) (map (Pair t) ns) s = rfold (dyn_string t) ns s" for t ns s
    by (induction ns arbitrary: s) (auto intro!: rbind_cong)
  have strings: "rfold (\<lambda>e. dyn_string (fst e) (snd e)) (string_entries so) so = Inr s4"
    using r1 r2 r3 r4 by (auto simp: string_entries_def rfold_append map_pair)
  from dyn_strings [OF this] have off: "load_offset s4 0 = load_offset so 0" by (auto simp: load_offset_def)
  have dyn: "load_offset (s\<lparr>so_dynamic := ds\<rparr>) 0 = load_offset s 0" for s ds by (simp add: load_offset_def)
  have addr: "?addr DT_FINI (bn_fini ?main) (?addr DT_INIT (bn_init ?main) s4)
      = s4\<lparr>so_dynamic := so_dynamic s4 @ address_entries so\<rparr>"
    by (simp add: address_entries_def Sold_MakeDyn_def Elf_Dyn.defs off dyn)
  show ?thesis using strings r5 so' unfolding addr by auto
qed

lemma BuildDynamic_keeps:
  assumes "Sold_BuildDynamic so = Inr so'"
  shows "\<exists>names entries. so_dynamic so' = so_dynamic so @ names @ address_entries so @ entries
    \<and> BuildDynamic_layout so' = Inr entries \<and> list_all2 (names_string (so_strtab so')) (string_entries so) names"
proof -
  from BuildDynamic_strings [OF assms] obtain s1 entries where
    s: "rfold (\<lambda>e. dyn_string (fst e) (snd e)) (string_entries so) so = Inr s1"
    and e: "BuildDynamic_layout (s1\<lparr>so_dynamic := so_dynamic s1 @ address_entries so\<rparr>) = Inr entries"
    and so': "so' = s1\<lparr>so_dynamic := so_dynamic s1 @ address_entries so @ entries\<rparr>" by blast
  from dyn_strings [OF s] obtain ds st where ds: "s1 = so\<lparr>so_strtab := st, so_dynamic := so_dynamic so @ ds\<rparr>"
    "list_all2 (names_string st) (string_entries so) ds" by blast
  have "layout_view so' = layout_view (s1\<lparr>so_dynamic := so_dynamic s1 @ address_entries so\<rparr>)"
    by (simp add: so' layout_view_def)
  from layout_view_offsets(9) [OF this] e have "BuildDynamic_layout so' = Inr entries" by simp
  with ds show ?thesis by (auto simp: so')
qed

lemma GetPos_Freeze: "StrtabBuilder_GetPos s (StrtabBuilder_Freeze st) = StrtabBuilder_GetPos s st"
  by (simp add: StrtabBuilder_GetPos_def StrtabBuilder_Freeze_def StrtabBuilder_renamed_def)

lemma BuildDynamic_fields:
  assumes "Sold_BuildDynamic so = Inr so'"
  shows "so_bins so' = so_bins so" "so_libraries so' = so_libraries so" "so_offsets so' = so_offsets so"
    "so_link_binaries so' = so_link_binaries so"
  using BuildDynamic_strings [OF assms] by (auto dest: dyn_strings)

section \<open>The steps before\<close>

text \<open>
  Up to \<^verbatim>\<open>Relocate\<close> no table of the output is begun: only symbols are exposed. A symbol builder \<open>exposes_more\<close> when
  it has exposed further symbols and written none. Of the objects only the bytes and the symbols change; their
  \<open>skeleton\<close> is the rest.
\<close>

definition skeleton :: "ELFBinary \<Rightarrow> ELFBinary" where
  "skeleton bn = bn\<lparr>bn_head := [], bn_syms := [], bn_sym_ptrs := [], bn_nsyms := 0\<rparr>"

definition exposes_more :: "SymtabBuilder \<Rightarrow> SymtabBuilder \<Rightarrow> bool" where
  "exposes_more sm sm' \<longleftrightarrow> sm_symtab sm' = sm_symtab sm \<and> prefix (sm_exposed_syms sm) (sm_exposed_syms sm')"

definition untouched :: "Sold \<Rightarrow> Sold \<Rightarrow> bool" where
  "untouched so so' \<longleftrightarrow> so_dynamic so' = so_dynamic so \<and> so_version so' = so_version so
     \<and> so_strtab so' = so_strtab so \<and> exposes_more (so_syms so) (so_syms so')
     \<and> so_loads so' = so_loads so \<and> so_link_binaries so' = so_link_binaries so
     \<and> map skeleton (so_bins so') = map skeleton (so_bins so)"

lemma exposes_more_refl [simp]: "exposes_more sm sm"
  by (simp add: exposes_more_def)

lemma exposes_more_trans: "exposes_more a b \<Longrightarrow> exposes_more b c \<Longrightarrow> exposes_more a c"
  unfolding exposes_more_def by (auto intro: prefix_order.trans)

lemma exposes_more_fold: "(\<And>x sm. exposes_more sm (f x sm)) \<Longrightarrow> exposes_more sm (fold f xs sm)"
  by (induction xs arbitrary: sm) (auto intro: exposes_more_trans)

lemma untouched_refl: "untouched so so"
  by (simp add: untouched_def)

lemma untouched_trans: "untouched a b \<Longrightarrow> untouched b c \<Longrightarrow> untouched a c"
  unfolding untouched_def by (auto intro: exposes_more_trans)

lemma untouched_fold: "(\<And>x so. untouched so (f x so)) \<Longrightarrow> untouched so (fold f xs so)"
  by (induction xs arbitrary: so) (auto intro: untouched_refl untouched_trans)

lemma expose_more: "SymtabBuilder_expose name soname version versym esym sm = Inr (e, sm') \<Longrightarrow> exposes_more sm sm'"
  by (auto simp: SymtabBuilder_expose_def SymtabBuilder_AddSym_def SymtabBuilder_emplace_def Let_def exposes_more_def)

lemma Resolve_more: "SymtabBuilder_Resolve name soname version sm = Inr (r, sm') \<Longrightarrow> exposes_more sm sm'"
  by (auto simp: SymtabBuilder_Resolve_def split: option.splits prod.splits if_splits dest: expose_more)

lemma ResolveCopy_more: "SymtabBuilder_ResolveCopy name soname version sm = Inr (r, sm') \<Longrightarrow> exposes_more sm sm'"
  by (auto simp: SymtabBuilder_ResolveCopy_def split: option.splits prod.splits if_splits dest: expose_more)

lemma SetSrcSyms_more: "exposes_more sm (SymtabBuilder_SetSrcSyms syms sm)"
  unfolding SymtabBuilder_SetSrcSyms_def
  by (rule exposes_more_fold) (auto simp: SetSrcSyms_step_def Let_def exposes_more_def)

lemma untouched_rfold:
  assumes "rfold f xs so = Inr so'" and "\<And>x s s'. f x s = Inr s' \<Longrightarrow> untouched s s'"
  shows "untouched so so'"
  by (rule rfold_inv [OF assms(1), of "untouched so"]) (auto intro: untouched_refl untouched_trans assms(2))

lemma untouched_rfold_snd:
  assumes "rfold f xs (a, so) = Inr (a', so')" and "\<And>x t s t' s'. f x (t, s) = Inr (t', s') \<Longrightarrow> untouched s s'"
  shows "untouched so so'"
proof -
  have "untouched so (snd (a', so'))"
  proof (rule rfold_inv [OF assms(1), of "\<lambda>p. untouched so (snd p)"])
    show "untouched so (snd (a, so))" by (simp add: untouched_refl)
    fix x t t' assume "untouched so (snd t)" "f x t = Inr t'"
    then show "untouched so (snd t')" using assms(2) [of x "fst t" "snd t" "fst t'" "snd t'"]
      by (auto intro: untouched_trans)
  qed
  then show ?thesis by simp
qed

lemma untouched_DecideMemOffset: "Sold_DecideMemOffset so = Inr so' \<Longrightarrow> untouched so so'"
proof -
  assume "Sold_DecideMemOffset so = Inr so'"
  then obtain off s1 where r: "rfold DecideMemOffset_step (so_link_binaries so) (0x10000000, so) = Inr (off, s1)"
    and so': "(let so = s1\<lparr>so_tls_offset := off\<rparr>;
         offset = AlignNext (off + Sold_TLSMemSize so);
         so = (cache_TLSMemSize so)\<lparr>so_ehframe_offset := offset\<rparr>;
         offset = AlignNext (offset + Sold_EHFrameSize so);
         so = (cache_EHFrameSize so)\<lparr>so_mprotect_offset := offset\<rparr>
     in rbind (Sold_MprotectSize so) (\<lambda>_. Inr so)) = Inr so'"
    unfolding Sold_DecideMemOffset_def by (simp only: rbind_Inr_iff) auto
  have "untouched so s1"
    by (rule untouched_rfold_snd [OF r]) (auto simp: DecideMemOffset_step_def Let_def untouched_def)
  moreover have "untouched s1 so'"
    using so' by (auto simp: Let_def untouched_def cache_EHFrameSize_def cache_TLSMemSize_def)
  ultimately show ?thesis by (rule untouched_trans)
qed

lemma untouched_CollectTLS: "Sold_CollectTLS so = Inr so' \<Longrightarrow> untouched so so'"
proof -
  assume "Sold_CollectTLS so = Inr so'"
  then obtain off s1 m where r: "rfold CollectTLS_step (linked_phdrs PT_TLS so) (0, so) = Inr (off, s1)"
    and so': "so' = s1\<lparr>so_tls := m\<rparr>" by (auto simp: Sold_CollectTLS_def Let_def)
  have "untouched so s1"
    by (rule untouched_rfold_snd [OF r]) (auto simp: CollectTLS_step_def Let_def untouched_def split: prod.splits)
  then show ?thesis by (simp add: so' untouched_def)
qed

lemma untouched_CollectArrays: "untouched so (Sold_CollectArrays so)"
proof -
  have "untouched s (fold CollectArrays_init bs s)" for bs s
    by (rule untouched_fold) (simp add: CollectArrays_init_def Let_def untouched_def)
  moreover have "untouched s (fold CollectArrays_fini bs s)" for bs s
    by (rule untouched_fold) (simp add: CollectArrays_fini_def Let_def untouched_def)
  moreover have "untouched so (so\<lparr>so_init_array := ws\<rparr>)" for ws by (simp add: untouched_def)
  ultimately show ?thesis unfolding Sold_CollectArrays_def Let_def by (blast intro: untouched_trans)
qed

lemma untouched_set_binary:
  assumes "skeleton bn = skeleton (binary so b)"
  shows "untouched so (set_binary b bn so)"
proof -
  have "map skeleton ((so_bins so)[b := bn]) = map skeleton (so_bins so)"
    using assms by (cases "b < length (so_bins so)") (simp_all add: map_update binary_def list_update_same_conv list_update_beyond)
  then show ?thesis by (simp add: set_binary_def untouched_def)
qed

lemma ReadDynSymtab_skeleton: "ELFBinary_ReadDynSymtab f bn = Inr bn' \<Longrightarrow> skeleton bn' = skeleton bn"
proof -
  assume "ELFBinary_ReadDynSymtab f bn = Inr bn'"
  then obtain symtab indices dup where r: "rfold (ReadDynSymtab_step f symtab) indices ([], bn) = Inr (dup, bn')"
    by (auto simp: ELFBinary_ReadDynSymtab_def split: option.splits)
  have "skeleton (snd (dup, bn')) = skeleton bn"
    by (rule rfold_inv [OF r]) (auto simp: ReadDynSymtab_step_def skeleton_def split: if_splits)
  then show ?thesis by simp
qed

lemma untouched_LoadDynSymtab: "Sold_LoadDynSymtab b (syms, so) = Inr (syms', so') \<Longrightarrow> untouched so so'"
proof -
  have set: "set_st_value b i v s = Inr s' \<Longrightarrow> untouched s s'" for b i v s s'
    by (auto simp: set_st_value_def Let_def skeleton_def intro!: untouched_set_binary)
  have step: "LoadDynSymtab_step b off i (t, s) = Inr (t', s') \<Longrightarrow> untouched s s'" for off i t s t' s'
    by (auto simp: LoadDynSymtab_step_def untouched_refl split: option.splits dest: set)
  assume "Sold_LoadDynSymtab b (syms, so) = Inr (syms', so')"
  then obtain bn where bn: "ELFBinary_ReadDynSymtab (so_filename_to_soname so) (binary so b) = Inr bn"
    and r: "rfold (LoadDynSymtab_step b (load_offset (set_binary b bn so) b)) [0..<length (bn_syms bn)]
      (syms, set_binary b bn so) = Inr (syms', so')"
    by (auto simp: Sold_LoadDynSymtab_def Let_def)
  from r have "untouched (set_binary b bn so) so'" by (rule untouched_rfold_snd) (erule step)
  with untouched_set_binary [OF ReadDynSymtab_skeleton [OF bn]] show ?thesis by (rule untouched_trans)
qed

lemma untouched_CollectSymbols: "Sold_CollectSymbols so = Inr so' \<Longrightarrow> untouched so so'"
proof -
  assume "Sold_CollectSymbols so = Inr so'"
  then obtain syms s1 where r: "rfold Sold_LoadDynSymtab (so_link_binaries so) ([], so) = Inr (syms, s1)"
    and so': "so' = s1\<lparr>so_syms := SymtabBuilder_SetSrcSyms syms (so_syms s1)\<rparr>"
    by (auto simp: Sold_CollectSymbols_def)
  have "untouched so s1" by (rule untouched_rfold_snd [OF r]) (erule untouched_LoadDynSymtab)
  moreover have "untouched s1 so'" by (simp add: so' untouched_def SetSrcSyms_more)
  ultimately show ?thesis by (rule untouched_trans)
qed

lemma untouched_CopyPublicSymbols: "untouched so (Sold_CopyPublicSymbols so)"
proof -
  have "exposes_more sm (fold SymtabBuilder_AddPublicSymbol ps sm)" for ps sm
    by (rule exposes_more_fold) (simp add: SymtabBuilder_AddPublicSymbol_def exposes_more_def)
  then show ?thesis unfolding Sold_CopyPublicSymbols_def Let_def by (simp add: untouched_def del: fold_append)
qed

lemma untouched_copy: "reloc_copy type b s soname version r so = Inr (name, r', so') \<Longrightarrow> untouched so so'"
  by (auto simp: reloc_copy_def untouched_def dest: ResolveCopy_more)

lemma untouched_resolve: "reloc_resolve keep rel type b s soname version r so = Inr (r', so') \<Longrightarrow> untouched so so'"
  by (auto simp: reloc_resolve_def untouched_def Let_def dest: Resolve_more)

lemma untouched_DTPMOD64: "reloc_DTPMOD64 b rel s soname version r so = Inr (r', so') \<Longrightarrow> untouched so so'"
proof -
  assume "reloc_DTPMOD64 b rel s soname version r so = Inr (r', so')"
  then obtain name r1 s1 where c: "reloc_copy R_X86_64_DTPMOD64 b s soname version r so = Inr (name, r1, s1)"
    and rest: "so' = s1 \<or> (\<exists>head. so' = set_binary b ((binary s1 b)\<lparr>bn_head := head\<rparr>) s1)"
    unfolding reloc_DTPMOD64_def Let_def by (auto split: if_splits)
  from rest have "untouched s1 so'" using untouched_refl by (auto simp: skeleton_def intro!: untouched_set_binary)
  with untouched_copy [OF c] show ?thesis by (rule untouched_trans)
qed

lemma untouched_TLSDESC: "reloc_TLSDESC b s soname version r so = Inr (r', so') \<Longrightarrow> untouched so so'"
  by (auto simp: reloc_TLSDESC_def dest: untouched_copy split: if_splits)

lemma untouched_entry_x86_64:
  "reloc_entry_x86_64 b rel off s soname version r so = Inr (r', so') \<Longrightarrow> untouched so so'"
  by (auto simp: reloc_entry_x86_64_def Let_def untouched_refl
      dest: untouched_copy untouched_resolve untouched_DTPMOD64 split: if_splits)

lemma untouched_entry_aarch64:
  "reloc_entry_aarch64 b rel off s soname version r so = Inr (r', so') \<Longrightarrow> untouched so so'"
  by (auto simp: reloc_entry_aarch64_def Let_def untouched_refl
      dest: untouched_copy untouched_resolve untouched_TLSDESC split: if_splits)

lemma untouched_relocate_entries:
  assumes "relocate_entries entry rs so = Inr so'"
    and "\<And>r s r' s'. entry r s = Inr (r', s') \<Longrightarrow> untouched s s'"
  shows "untouched so so'"
  by (rule untouched_rfold [OF assms(1) [unfolded relocate_entries_def]])
    (auto simp: untouched_def dest!: assms(2))

lemma untouched_RelocateSymbols: "Sold_RelocateSymbols b rels num so = Inr so' \<Longrightarrow> untouched so so'"
proof -
  have x86: "Sold_RelocateSymbol_x86_64 b rel off s = Inr s' \<Longrightarrow> untouched s s'" for rel off s s'
    by (auto simp: Sold_RelocateSymbol_x86_64_def elim!: untouched_relocate_entries dest: untouched_entry_x86_64)
  have a64: "Sold_RelocateSymbol_aarch64 b rel off s = Inr s' \<Longrightarrow> untouched s s'" for rel off s s'
    by (auto simp: Sold_RelocateSymbol_aarch64_def elim!: untouched_relocate_entries dest: untouched_entry_aarch64)
  assume "Sold_RelocateSymbols b rels num so = Inr so'"
  then obtain reloc where r: "reloc = Sold_RelocateSymbol_x86_64 \<or> reloc = Sold_RelocateSymbol_aarch64"
    and loop: "rfold (\<lambda>i s. case rels of None \<Rightarrow> Inl Bad_access
      | Some p \<Rightarrow> rbind (read_rel (binary s b) p i) (\<lambda>rel. reloc b rel (load_offset so b) s)) [0..<unat num] so = Inr so'"
    unfolding Sold_RelocateSymbols_def Let_def by (auto split: if_splits)
  show ?thesis
    by (rule untouched_rfold [OF loop]) (use r in \<open>auto split: option.splits dest: x86 a64\<close>)
qed

lemma untouched_Relocate: "Sold_Relocate so = Inr so' \<Longrightarrow> untouched so so'"
  unfolding Sold_Relocate_def
  by (erule untouched_rfold)
    (auto simp: Sold_RelocateBinary_def Let_def dest!: untouched_RelocateSymbols intro: untouched_trans)

text \<open>The steps of \<^verbatim>\<open>Link\<close> before \<^verbatim>\<open>BuildDynamic\<close>: those that only collect, and the three that build the first tables.\<close>

definition collect_steps :: "(Sold \<Rightarrow> Sold res) list" where
  "collect_steps =
     [Sold_DecideMemOffset,
      Sold_CollectTLS, \<lambda>so. Inr (Sold_CollectArrays so), Sold_CollectSymbols, \<lambda>so. Inr (Sold_CopyPublicSymbols so),
      Sold_Relocate]"

definition table_steps :: "(Sold \<Rightarrow> Sold res) list" where
  "table_steps =
     [build_symbols,
      \<lambda>so. if so_is_executable so then Sold_BuildInterp so else Inr so,
      Sold_BuildArrays]"

definition front_steps :: "(Sold \<Rightarrow> Sold res) list" where
  "front_steps = collect_steps @ table_steps"

lemmas untouched_steps = untouched_DecideMemOffset untouched_CollectTLS untouched_CollectSymbols untouched_Relocate

lemma collect_steps_untouched:
  assumes "rfold id collect_steps so = Inr so'"
  shows "untouched so so'"
proof -
  have "untouched a c" if "list_all (\<lambda>f. \<forall>s s'. f s = Inr s' \<longrightarrow> untouched s s') fs" "rfold id fs a = Inr c" for fs a c
    using that by (induction fs arbitrary: a) (auto intro: untouched_refl untouched_trans)
  moreover have "list_all (\<lambda>f. \<forall>s s'. f s = Inr s' \<longrightarrow> untouched s s') collect_steps"
    by (auto simp: collect_steps_def untouched_CollectArrays untouched_CopyPublicSymbols dest: untouched_steps)
  ultimately show ?thesis using assms by blast
qed

text \<open>Behind \<^verbatim>\<open>Build\<close> and \<^verbatim>\<open>MergePublicSymbols\<close> symbols and versions are final; the string table may grow.\<close>

lemma table_steps_symbols:
  assumes "rfold id table_steps so = Inr so'"
  obtains s1 where "build_symbols so = Inr s1" "so_syms so' = so_syms s1" "so_version so' = so_version s1"
    "so_dynamic so' = so_dynamic so" "so_strtab so' = so_strtab s1
      \<or> (\<exists>name pos. StrtabBuilder_Add name (so_strtab s1) = Inr (pos, so_strtab so'))"
    "so_loads so' = so_loads so" "so_link_binaries so' = so_link_binaries so" "so_bins so' = so_bins so"
proof -
  from assms obtain s1 s2 where s: "build_symbols so = Inr s1"
    "(if so_is_executable s1 then Sold_BuildInterp s1 else Inr s1) = Inr s2" "Sold_BuildArrays s2 = Inr so'"
    unfolding table_steps_def by (simp del: split_paired_Ex) blast
  have 1: "so_dynamic s1 = so_dynamic so \<and> so_loads s1 = so_loads so \<and> so_link_binaries s1 = so_link_binaries so
    \<and> so_bins s1 = so_bins so" using s(1) by (auto simp: build_symbols_def)
  have 2: "so_syms s2 = so_syms s1 \<and> so_version s2 = so_version s1 \<and> so_dynamic s2 = so_dynamic s1
    \<and> so_loads s2 = so_loads s1 \<and> so_link_binaries s2 = so_link_binaries s1 \<and> so_bins s2 = so_bins s1
    \<and> (so_strtab s2 = so_strtab s1 \<or> (\<exists>name pos. StrtabBuilder_Add name (so_strtab s1) = Inr (pos, so_strtab s2)))"
    using s(2) by (auto simp: Sold_BuildInterp_def Sold_AddStr_def split: if_splits)
  have 3: "so_syms so' = so_syms s2 \<and> so_version so' = so_version s2 \<and> so_dynamic so' = so_dynamic s2
    \<and> so_strtab so' = so_strtab s2 \<and> so_loads so' = so_loads s2 \<and> so_link_binaries so' = so_link_binaries s2
    \<and> so_bins so' = so_bins s2"
    using s(3) by (auto simp: Sold_BuildArrays_def)
  show ?thesis using that [OF s(1)] 1 2 3 by simp
qed

lemma front_steps_dynamic:
  assumes "rfold id front_steps so = Inr so'"
  shows "so_dynamic so' = so_dynamic so"
proof -
  obtain s1 where s1: "rfold id collect_steps so = Inr s1" "rfold id table_steps s1 = Inr so'"
    using assms by (auto simp: front_steps_def rfold_append)
  from s1(2) have "so_dynamic so' = so_dynamic s1" by (rule table_steps_symbols)
  with collect_steps_untouched [OF s1(1)] show ?thesis by (simp add: untouched_def)
qed

lemma Sold_prepare_steps: "Sold_prepare so = rfold id (front_steps @ Sold_BuildDynamic # finish_steps) so"
  by (simp add: Sold_prepare_def front_steps_def collect_steps_def table_steps_def finish_steps_def)


lemma string_entries_view: "layout_view so' = layout_view so \<Longrightarrow> string_entries so' = string_entries so"
  by (simp add: layout_view_def string_entries_def dynamic_neededs_def binary_def cong: if_cong)

lemma address_entries_view: "layout_view so' = layout_view so \<Longrightarrow> address_entries so' = address_entries so"
  by (simp add: layout_view_def address_entries_def load_offset_def binary_def)

lemma dynamic_section:
  assumes "Sold_prepare so = Inr so'" and "so_dynamic so = []"
  shows "\<exists>names entries. so_dynamic so' = names @ address_entries so' @ entries
    \<and> BuildDynamic_layout so' = Inr entries \<and> list_all2 (names_string (so_strtab so')) (string_entries so') names"
proof -
  obtain s0 s1 where s0: "rfold id front_steps so = Inr s0" and s1: "Sold_BuildDynamic s0 = Inr s1"
    and s2: "rfold id finish_steps s1 = Inr so'"
    using assms(1) by (auto simp: Sold_prepare_steps rfold_append)
  have "so_dynamic s0 = []" using front_steps_dynamic [OF s0] assms(2) by simp
  with BuildDynamic_keeps [OF s1] obtain names entries where
    d: "so_dynamic s1 = names @ address_entries s0 @ entries" "BuildDynamic_layout s1 = Inr entries"
    "list_all2 (names_string (so_strtab s1)) (string_entries s0) names" by auto
  have s01: "string_entries s1 = string_entries s0" "address_entries s1 = address_entries s0"
    using BuildDynamic_fields [OF s1]
    by (simp_all add: string_entries_def address_entries_def dynamic_neededs_def binary_def load_offset_def cong: if_cong)
  have view: "layout_view so' = layout_view s1" and dyn: "so_dynamic so' = so_dynamic s1"
    using finish_steps_keep [OF s2] by simp_all
  have "BuildDynamic_layout so' = Inr entries" using layout_view_offsets(9) [OF view] d(2) by simp
  moreover have "StrtabBuilder_Freeze (so_strtab so') = StrtabBuilder_Freeze (so_strtab s1)"
    using view by (simp add: layout_view_def)
  then have "StrtabBuilder_GetPos n (so_strtab so') = StrtabBuilder_GetPos n (so_strtab s1)" for n
    by (metis GetPos_Freeze)
  then have "names_string (so_strtab so') = names_string (so_strtab s1)"
    by (intro ext) (simp add: names_string_def)
  ultimately show ?thesis
    using d dyn string_entries_view [OF view] address_entries_view [OF view] s01
    by (intro exI [of _ names] exI [of _ entries]) simp
qed

text \<open>
  C4: When \<^verbatim>\<open>Link\<close> has prepared the output, the dynamic section is the entries that name strings
  (\<^verbatim>\<open>DT_NEEDED\<close> of each library left out, in the order of the names, then \<^verbatim>\<open>DT_SONAME\<close>, \<^verbatim>\<open>DT_RPATH\<close> and
  \<^verbatim>\<open>DT_RUNPATH\<close> of the main object if it has them), each value being the position of that string in the final
  string table; \<^verbatim>\<open>DT_INIT\<close> and \<^verbatim>\<open>DT_FINI\<close> moved by the main object's offset; and the addresses and sizes of
  the tables, which agree with the offsets of the finished state although they were written before the
  string table was frozen and the segments were placed.
\<close>

theorem Dynamic_section_final:
  assumes "Sold_prepare so = Inr so'" and "so_dynamic so = []"
  shows "\<exists>names entries. so_dynamic so' = names @ address_entries so' @ entries
    \<and> BuildDynamic_layout so' = Inr entries \<and> list_all2 (names_string (so_strtab so')) (string_entries so') names"
  by (rule dynamic_section [OF assms])

text \<open>A whole run: one library with an initialisation function is linked, another one stays outside.\<close>

definition sample_member :: ELFBinary where
  "sample_member = sample_library\<lparr>bn_head := replicate 8 0, bn_hash := Some 0, bn_symtab := Some 0, bn_init := 0x30\<rparr>"

definition sample_input :: "Sold res" where
  "sample_input =
     rbind SymtabBuilder_new (\<lambda>sm.
     Inr ((Sold_init \<lparr>sc_TLSFileSize = 0, sc_EHFrameSize = 0, sc_TLSMemSize = 0\<rparr> sample_member [] [] [] False
       sm \<lparr>mb_machine_type = 62, mb_offsets = [], mb_sizes = []\<rparr>)
      \<lparr>so_bins := [sample_member, sample_member],
       so_libraries := [(''liba.so'', 0), (''libb.so'', 1)], so_link_binaries := [0]\<rparr>))"

lemma sample_input_links: "\<exists>so so'. sample_input = Inr so \<and> Sold_prepare so = Inr so' \<and> so_dynamic so = []"
proof -
  have "\<not> isl sample_input \<and> \<not> isl (Sold_prepare (projr sample_input)) \<and> so_dynamic (projr sample_input) = []"
    by code_simp
  then show ?thesis by (metis sum.collapse(2))
qed

theorem Dynamic_section_final_witness:
  "\<exists>so so' names entries. sample_input = Inr so \<and> Sold_prepare so = Inr so'
    \<and> so_dynamic so' = names @ address_entries so' @ entries
    \<and> list_all2 (names_string (so_strtab so')) (string_entries so') names"
  using sample_input_links Dynamic_section_final by meson

end
