(* ===== verification/TLS_Layout.thy ===== *)
theory TLS_Layout
  imports Relocate Layout
begin

text \<open>
  The thread-local storage of the output: the new TLS template \<^verbatim>\<open>Sold::CollectTLS\<close> plans out of the
  templates of the linked objects, and where \<^verbatim>\<open>Sold::RemapTLS\<close> and the relocations of local dynamic
  accesses move offsets into it.
\<close>

section \<open>The slots\<close>

text \<open>Where pieces of the given sizes start when they are laid one after another from \<open>s\<close> on.\<close>

fun slots :: "nat \<Rightarrow> nat list \<Rightarrow> nat list" where
  "slots s [] = []"
| "slots s (n # ns) = s # slots (s + n) ns"

lemma slots_append: "slots s (ms @ ns) = slots s ms @ slots (s + sum_list ms) ns"
  by (induction ms arbitrary: s) (auto simp: add.assoc)

lemma length_slots [simp]: "length (slots s ns) = length ns"
  by (induction ns arbitrary: s) auto

lemma slots_shift: "map (\<lambda>x. x + k) (slots s ns) = slots (s + k) ns"
  by (induction ns arbitrary: s) (auto simp: add.commute add.left_commute)

lemma slots_within:
  "i < length ns \<Longrightarrow> s \<le> slots s ns ! i \<and> slots s ns ! i + ns ! i \<le> s + sum_list ns"
proof (induction ns arbitrary: s i)
  case (Cons n ns)
  show ?case
  proof (cases i)
    case (Suc j)
    then show ?thesis using Cons.IH [of j "s + n"] Cons.prems by simp
  qed simp
qed simp

lemma slots_disjoint:
  assumes "i < j" and "j < length ns"
  shows "slots s ns ! i + ns ! i \<le> slots s ns ! j"
  using assms
proof (induction ns arbitrary: s i j)
  case (Cons n ns)
  then obtain j' where j: "j = Suc j'" "j' < length ns" by (cases j) auto
  show ?case
  proof (cases i)
    case 0
    then show ?thesis using slots_within [OF j(2), of "s + n"] j by simp
  next
    case (Suc i')
    then show ?thesis using Cons j by simp
  qed
qed simp

section \<open>CollectTLS\<close>

definition tls_files :: "Sold \<Rightarrow> nat list" where
  "tls_files so = map (\<lambda>bp. unat (p_filesz (snd bp))) (linked_phdrs PT_TLS so)"

definition tls_mems :: "Sold \<Rightarrow> nat list" where
  "tls_mems so = map (\<lambda>bp. unat (p_memsz (snd bp))) (linked_phdrs PT_TLS so)"

definition tls_bsss :: "Sold \<Rightarrow> nat list" where
  "tls_bsss so = map (\<lambda>bp. unat (p_memsz (snd bp)) - unat (p_filesz (snd bp))) (linked_phdrs PT_TLS so)"

definition tls_wf :: "Sold \<Rightarrow> bool" where
  "tls_wf so \<longleftrightarrow> (\<forall>bp \<in> set (linked_phdrs PT_TLS so). p_filesz (snd bp) \<le> p_memsz (snd bp)) \<and> sum_list (tls_mems so) < 2 ^ 64"

text \<open>The state of the loop after the headers \<open>done\<close>.\<close>

definition tls_state :: "(nat \<times> Elf_Phdr) list \<Rightarrow> u64 \<times> TLS \<Rightarrow> bool" where
  "tls_state ps = (\<lambda>(bss, tls).
     map (\<lambda>d. (td_bin d, td_size d)) (tls_data tls) = map (\<lambda>bp. (fst bp, p_filesz (snd bp))) ps
     \<and> map td_file_offset (tls_data tls) = map of_nat (slots 0 (map (\<lambda>bp. unat (p_filesz (snd bp))) ps))
     \<and> map td_bss_offset (tls_data tls)
         = map of_nat (slots 0 (map (\<lambda>bp. unat (p_memsz (snd bp)) - unat (p_filesz (snd bp))) ps))
     \<and> tls_filesz tls = of_nat (\<Sum>bp\<leftarrow>ps. unat (p_filesz (snd bp)))
     \<and> tls_memsz tls = of_nat (\<Sum>bp\<leftarrow>ps. unat (p_memsz (snd bp)))
     \<and> bss = of_nat (\<Sum>bp\<leftarrow>ps. unat (p_memsz (snd bp)) - unat (p_filesz (snd bp)))
     \<and> distinct (map fst ps) \<and> (\<forall>i < length ps. tls_bin_to_index tls (fst (ps ! i)) = Some i)
     \<and> (\<forall>b. b \<notin> fst ` set ps \<longrightarrow> tls_bin_to_index tls b = None))"

lemma CollectTLS_step_state:
  assumes "CollectTLS_step (b, p) (bss, so) = Inr (bss', so')" and "tls_state ps (bss, so_tls so)"
    and "p_filesz p \<le> p_memsz p"
  shows "tls_state (ps @ [(b, p)]) (bss', so_tls so')"
proof -
  let ?t = "so_tls so"
  from assms(1) obtain start where none: "tls_bin_to_index ?t b = None"
    and bss': "bss' = bss + (p_memsz p - p_filesz p)"
    and so': "so_tls so' = \<lparr>tls_data = tls_data ?t @ [\<lparr>td_bin = b, td_start = start, td_size = p_filesz p,
                  td_file_offset = tls_filesz ?t, td_bss_offset = bss\<rparr>],
                tls_bin_to_index = (tls_bin_to_index ?t)(b \<mapsto> length (tls_data ?t)),
                tls_filesz = tls_filesz ?t + p_filesz p, tls_memsz = tls_memsz ?t + p_memsz p\<rparr>"
    by (auto simp: CollectTLS_step_def Let_def)
  note st = assms(2) [unfolded tls_state_def split]
  have new: "b \<notin> fst ` set ps"
  proof
    assume "b \<in> fst ` set ps"
    then obtain i where "i < length ps" "fst (ps ! i) = b" by (auto simp: in_set_conv_nth)
    with st none show False by auto
  qed
  have len: "length (tls_data ?t) = length ps" using arg_cong [OF conjunct1 [OF st], of length] by simp
  have sub: "p_memsz p - p_filesz p = of_nat (unat (p_memsz p) - unat (p_filesz p))"
    using assms(3) by (simp add: of_nat_diff word_le_nat_alt)
  have idx: "\<forall>i < length (ps @ [(b, p)]). ((tls_bin_to_index ?t)(b \<mapsto> length ps)) (fst ((ps @ [(b, p)]) ! i)) = Some i"
  proof (intro allI impI)
    fix i assume "i < length (ps @ [(b, p)])"
    then consider "i = length ps" | "i < length ps" by fastforce
    then show "((tls_bin_to_index ?t)(b \<mapsto> length ps)) (fst ((ps @ [(b, p)]) ! i)) = Some i"
    proof cases
      case 2
      then have "fst (ps ! i) \<noteq> b" using new by (metis image_eqI nth_mem)
      with 2 st show ?thesis by (simp add: nth_append)
    qed simp
  qed
  have fsz: "tls_filesz ?t + p_filesz p = of_nat (\<Sum>bp\<leftarrow>ps @ [(b, p)]. unat (p_filesz (snd bp)))"
    and mem: "tls_memsz ?t + p_memsz p = of_nat (\<Sum>bp\<leftarrow>ps @ [(b, p)]. unat (p_memsz (snd bp)))"
    and bss: "bss + (p_memsz p - p_filesz p)
      = of_nat (\<Sum>bp\<leftarrow>ps @ [(b, p)]. unat (p_memsz (snd bp)) - unat (p_filesz (snd bp)))"
    using st by (simp_all add: sub)
  show ?thesis
    unfolding tls_state_def split so' bss' TLS.simps fsz mem bss len
    by (intro conjI idx) (use st new in \<open>auto simp: slots_append\<close>)
qed


lemma CollectTLS_loop_state:
  assumes "rfold CollectTLS_step qs (bss, so) = Inr (bss', so')" and "tls_state ps (bss, so_tls so)"
    and "\<forall>bp \<in> set qs. p_filesz (snd bp) \<le> p_memsz (snd bp)"
  shows "tls_state (ps @ qs) (bss', so_tls so') \<and> so_bins so' = so_bins so"
  using assms
proof (induction qs arbitrary: ps bss so)
  case (Cons q qs)
  then obtain bss1 so1 where s: "CollectTLS_step (fst q, snd q) (bss, so) = Inr (bss1, so1)"
    "rfold CollectTLS_step qs (bss1, so1) = Inr (bss', so')" by auto
  have "so_bins so1 = so_bins so" using s(1) by (auto simp: CollectTLS_step_def Let_def split: prod.splits)
  with Cons.IH [OF s(2) CollectTLS_step_state [OF s(1) Cons.prems(2)]] Cons.prems(3) show ?case by simp
qed simp

definition no_tls :: TLS where
  "no_tls = \<lparr>tls_data = [], tls_bin_to_index = Map.empty, tls_filesz = 0, tls_memsz = 0\<rparr>"

lemma no_tls_state: "tls_state [] (0, no_tls)"
  by (simp add: tls_state_def no_tls_def)

lemma tls_totals:
  assumes "tls_wf so"
  shows "sum_list (tls_files so) + sum_list (tls_bsss so) = sum_list (tls_mems so)"
proof -
  have "(\<Sum>bp\<leftarrow>ps. unat (p_filesz (snd bp))) + (\<Sum>bp\<leftarrow>ps. unat (p_memsz (snd bp)) - unat (p_filesz (snd bp)))
      = (\<Sum>bp\<leftarrow>ps. unat (p_memsz (snd bp)))"
    if "\<forall>bp \<in> set ps. p_filesz (snd bp) \<le> p_memsz (snd bp)" for ps :: "(nat \<times> Elf_Phdr) list"
    using that by (induction ps) (auto simp: word_le_nat_alt)
  then show ?thesis using assms by (simp add: tls_wf_def tls_files_def tls_bsss_def tls_mems_def)
qed

lemma unat_slots:
  assumes "s + sum_list ns < 2 ^ 64"
  shows "map (unat \<circ> (of_nat :: nat \<Rightarrow> u64)) (slots s ns) = slots s ns"
proof (rule map_idI)
  fix x assume "x \<in> set (slots s ns)"
  then obtain i where "i < length ns" "x = slots s ns ! i" by (auto simp: in_set_conv_nth)
  with slots_within [of i ns s] assms show "(unat \<circ> (of_nat :: nat \<Rightarrow> u64)) x = x" by (auto simp: unat_of_nat)
qed

lemma CollectTLS_result:
  assumes "Sold_CollectTLS so = Inr so'" and "so_tls so = no_tls" and "tls_wf so"
  shows "map (\<lambda>d. (td_bin d, td_size d)) (tls_data (so_tls so'))
      = map (\<lambda>bp. (fst bp, p_filesz (snd bp))) (linked_phdrs PT_TLS so)"
    and "map (unat \<circ> td_file_offset) (tls_data (so_tls so')) = slots 0 (tls_files so)"
    and "map (unat \<circ> td_bss_offset) (tls_data (so_tls so')) = slots (sum_list (tls_files so)) (tls_bsss so)"
    and "unat (tls_filesz (so_tls so')) = sum_list (tls_files so)"
    and "unat (tls_memsz (so_tls so')) = sum_list (tls_mems so)"
    and "\<forall>i < length (linked_phdrs PT_TLS so). tls_bin_to_index (so_tls so') (fst (linked_phdrs PT_TLS so ! i)) = Some i"
    and "so_bins so' = so_bins so"
proof -
  let ?ps = "linked_phdrs PT_TLS so"
  obtain bss s1 where r: "rfold CollectTLS_step ?ps (0, so) = Inr (bss, s1)"
    and so': "so' = s1\<lparr>so_tls := so_tls s1\<lparr>tls_data :=
          map (\<lambda>d. d\<lparr>td_bss_offset := td_bss_offset d + tls_filesz (so_tls s1)\<rparr>) (tls_data (so_tls s1))\<rparr>\<rparr>"
    using assms(1) by (auto simp: Sold_CollectTLS_def Let_def)
  have st: "tls_state ?ps (bss, so_tls s1)" and bins: "so_bins s1 = so_bins so"
    using CollectTLS_loop_state [OF r, of "[]"] no_tls_state assms by (auto simp: tls_wf_def)
  note s = st [unfolded tls_state_def split, folded tls_files_def tls_mems_def tls_bsss_def]
  have t: "sum_list (tls_files so) + sum_list (tls_bsss so) < 2 ^ 64"
    using tls_totals [OF assms(3)] assms(3) by (simp add: tls_wf_def)
  show "map (\<lambda>d. (td_bin d, td_size d)) (tls_data (so_tls so')) = map (\<lambda>bp. (fst bp, p_filesz (snd bp))) ?ps"
    using s by (simp add: so' comp_def)
  have "map (unat \<circ> td_file_offset) (tls_data (so_tls so')) = map unat (map td_file_offset (tls_data (so_tls s1)))"
    by (simp add: so' comp_def)
  also have "\<dots> = map (unat \<circ> (of_nat :: nat \<Rightarrow> u64)) (slots 0 (tls_files so))" using s by simp
  also have "\<dots> = slots 0 (tls_files so)" using t by (intro unat_slots) simp
  finally show "map (unat \<circ> td_file_offset) (tls_data (so_tls so')) = slots 0 (tls_files so)" .
  have fz: "tls_filesz (so_tls s1) = of_nat (sum_list (tls_files so))" using s by simp
  have "map (unat \<circ> td_bss_offset) (tls_data (so_tls so'))
      = map (\<lambda>x. unat (x + of_nat (sum_list (tls_files so)))) (map td_bss_offset (tls_data (so_tls s1)))"
    using fz by (simp add: so' comp_def)
  also have "\<dots> = map (unat \<circ> (of_nat :: nat \<Rightarrow> u64)) (map (\<lambda>x. x + sum_list (tls_files so)) (slots 0 (tls_bsss so)))"
    using s by simp
  also have "\<dots> = slots (sum_list (tls_files so)) (tls_bsss so)"
    unfolding slots_shift using t by (simp add: unat_slots)
  finally show "map (unat \<circ> td_bss_offset) (tls_data (so_tls so')) = slots (sum_list (tls_files so)) (tls_bsss so)" .
  show "unat (tls_filesz (so_tls so')) = sum_list (tls_files so)" using fz t by (simp add: so' unat_of_nat)
  have "tls_memsz (so_tls s1) = of_nat (sum_list (tls_mems so))" using s by simp
  then show "unat (tls_memsz (so_tls so')) = sum_list (tls_mems so)"
    using assms(3) by (simp add: so' unat_of_nat tls_wf_def)
  show "\<forall>i < length ?ps. tls_bin_to_index (so_tls so') (fst (?ps ! i)) = Some i" using s by (simp add: so')
  show "so_bins so' = so_bins so" by (simp add: so' bins)
qed


text \<open>
  C13: \<^verbatim>\<open>CollectTLS\<close> gives every linked object with a \<^verbatim>\<open>PT_TLS\<close> header its own place in the new TLS
  template, at the index \<^verbatim>\<open>bin_to_index\<close> records: its initialised data at
  [\<open>file_offset\<close>, \<open>file_offset + p_filesz\<close>) inside [0, \<open>tls_.filesz\<close>) and its zero-initialised data at
  [\<open>bss_offset\<close>, \<open>bss_offset + p_memsz - p_filesz\<close>) inside [\<open>tls_.filesz\<close>, \<open>tls_.memsz\<close>). The places of two
  objects never overlap, and nothing of the template is left over.
\<close>

theorem CollectTLS_slots:
  assumes "Sold_CollectTLS so = Inr so'" and "so_tls so = no_tls" and "tls_wf so"
  defines "ps \<equiv> linked_phdrs PT_TLS so" and "tls \<equiv> so_tls so'"
  shows "length (tls_data tls) = length ps
    \<and> (\<forall>i < length ps. let d = tls_data tls ! i; (b, p) = ps ! i
         in td_bin d = b \<and> tls_bin_to_index tls b = Some i
          \<and> unat (td_file_offset d) + unat (p_filesz p) \<le> unat (tls_filesz tls)
          \<and> unat (tls_filesz tls) \<le> unat (td_bss_offset d)
          \<and> unat (td_bss_offset d) + (unat (p_memsz p) - unat (p_filesz p)) \<le> unat (tls_memsz tls))
    \<and> (\<forall>i j. i < j \<and> j < length ps \<longrightarrow>
         unat (td_file_offset (tls_data tls ! i)) + unat (p_filesz (snd (ps ! i))) \<le> unat (td_file_offset (tls_data tls ! j))
         \<and> unat (td_bss_offset (tls_data tls ! i)) + (unat (p_memsz (snd (ps ! i))) - unat (p_filesz (snd (ps ! i))))
             \<le> unat (td_bss_offset (tls_data tls ! j)))
    \<and> unat (tls_filesz tls) = (\<Sum>bp\<leftarrow>ps. unat (p_filesz (snd bp)))
    \<and> unat (tls_memsz tls) = (\<Sum>bp\<leftarrow>ps. unat (p_memsz (snd bp)))"
proof -
  note r = CollectTLS_result [OF assms(1-3), folded ps_def tls_def]
  have len: "length (tls_data tls) = length ps" using arg_cong [OF r(1), of length] by simp
  have lens: "length (tls_files so) = length ps" "length (tls_bsss so) = length ps"
    by (simp_all add: tls_files_def tls_bsss_def ps_def)
  have nth: "td_bin (tls_data tls ! i) = fst (ps ! i)" "unat (td_file_offset (tls_data tls ! i)) = slots 0 (tls_files so) ! i"
    "unat (td_bss_offset (tls_data tls ! i)) = slots (sum_list (tls_files so)) (tls_bsss so) ! i"
    "tls_files so ! i = unat (p_filesz (snd (ps ! i)))"
    "tls_bsss so ! i = unat (p_memsz (snd (ps ! i))) - unat (p_filesz (snd (ps ! i)))"
    if "i < length ps" for i
    using that len arg_cong [OF r(1), of "\<lambda>xs. fst (xs ! i)"] arg_cong [OF r(2), of "\<lambda>xs. xs ! i"]
      arg_cong [OF r(3), of "\<lambda>xs. xs ! i"]
    by (simp_all add: tls_files_def tls_bsss_def ps_def)
  have one: "let d = tls_data tls ! i; (b, p) = ps ! i
         in td_bin d = b \<and> tls_bin_to_index tls b = Some i
          \<and> unat (td_file_offset d) + unat (p_filesz p) \<le> unat (tls_filesz tls)
          \<and> unat (tls_filesz tls) \<le> unat (td_bss_offset d)
          \<and> unat (td_bss_offset d) + (unat (p_memsz p) - unat (p_filesz p)) \<le> unat (tls_memsz tls)"
    if i: "i < length ps" for i
    using slots_within [of i "tls_files so" 0] slots_within [of i "tls_bsss so" "sum_list (tls_files so)"]
      nth [OF i] r(4,5,6) i lens tls_totals [OF assms(3)] by (auto simp: Let_def split: prod.split)
  have two: "unat (td_file_offset (tls_data tls ! i)) + unat (p_filesz (snd (ps ! i))) \<le> unat (td_file_offset (tls_data tls ! j))
         \<and> unat (td_bss_offset (tls_data tls ! i)) + (unat (p_memsz (snd (ps ! i))) - unat (p_filesz (snd (ps ! i))))
             \<le> unat (td_bss_offset (tls_data tls ! j))" if "i < j" "j < length ps" for i j
    using slots_disjoint [of i j "tls_files so" 0] slots_disjoint [of i j "tls_bsss so" "sum_list (tls_files so)"]
      nth [of i] nth [of j] that lens by simp
  show ?thesis using one two len r(4,5) by (simp add: tls_files_def tls_mems_def ps_def)
qed

section \<open>RemapTLS\<close>

text \<open>
  C14: Where an offset into the TLS segment of an object goes. An offset into the initialised data is moved to
  the object's place for it, both by \<^verbatim>\<open>RemapTLS\<close> and by the correction the relocation of a local dynamic
  access makes. An offset behind the initialised data is moved by that correction to its place among the
  zero-initialised data, but by \<^verbatim>\<open>RemapTLS\<close>, which does not subtract \<^verbatim>\<open>p_filesz\<close>, to a place \<^verbatim>\<open>p_filesz\<close>
  bytes further.
\<close>

theorem RemapTLS_slots:
  assumes "Sold_CollectTLS so = Inr so'" and "so_tls so = no_tls" and "tls_wf so"
    and "i < length (linked_phdrs PT_TLS so)" and "linked_phdrs PT_TLS so ! i = (b, p)"
    and "bn_tls (binary so b) = Some p" and "off < p_memsz p"
  shows "let data = slots 0 (tls_files so) ! i; bss = slots (sum_list (tls_files so)) (tls_bsss so) ! i
    in if off < p_filesz p
       then Sold_RemapTLS b off so' = Inr (of_nat (data + unat off))
         \<and> rbind (tls_shift False b so') (\<lambda>shift. Inr (off + shift)) = Inr (of_nat (data + unat off))
       else Sold_RemapTLS b off so' = Inr (of_nat (bss + (unat off - unat (p_filesz p)) + unat (p_filesz p)))
         \<and> rbind (tls_shift True b so') (\<lambda>shift. Inr (off + shift))
             = Inr (of_nat (bss + (unat off - unat (p_filesz p))))"
proof -
  let ?d = "tls_data (so_tls so') ! i"
  note r = CollectTLS_result [OF assms(1-3)]
  have len: "length (tls_data (so_tls so')) = length (linked_phdrs PT_TLS so)" using arg_cong [OF r(1), of length] by simp
  have idx: "tls_bin_to_index (so_tls so') b = Some i" using r(6) assms(4,5) by auto
  have file_slot: "td_file_offset ?d = of_nat (slots 0 (tls_files so) ! i)"
    using arg_cong [OF r(2), of "\<lambda>xs. (of_nat (xs ! i) :: u64)"] len assms(4) by simp
  have bss_slot: "td_bss_offset ?d = of_nat (slots (sum_list (tls_files so)) (tls_bsss so) ! i)"
    using arg_cong [OF r(3), of "\<lambda>xs. (of_nat (xs ! i) :: u64)"] len assms(4) by simp
  have bin: "bn_tls (binary so' b) = Some p" using assms(6) r(7) by (simp add: binary_def)
  have "tls_data (so_tls so') \<noteq> []" using len assms(4) by auto
  then have remap: "Sold_RemapTLS b off so'
      = Inr (if off < p_filesz p then off + td_file_offset ?d else off + td_bss_offset ?d)"
    by (simp add: Sold_RemapTLS_def bin idx Let_def)
  have shift: "tls_shift False b so' = Inr (td_file_offset ?d)" "tls_shift True b so' = Inr (td_bss_offset ?d - p_filesz p)"
    using len assms(4) by (simp_all add: tls_shift_def tls_entry_def idx bin Let_def)
  have diff: "(of_nat (unat off - unat (p_filesz p)) :: u64) = off - p_filesz p" if "\<not> off < p_filesz p"
    using that by (simp add: of_nat_diff word_le_nat_alt not_less)
  show ?thesis
    by (cases "off < p_filesz p") (simp_all add: remap shift file_slot bss_slot diff Let_def algebra_simps)
qed

section \<open>An example\<close>

definition sample_tls_library :: "u64 \<Rightarrow> ELFBinary" where
  "sample_tls_library n = sample_library\<lparr>
     bn_phdrs := bn_phdrs sample_library @ [(sample_phdr PT_TLS 0x100 n)\<lparr>p_memsz := n + 8\<rparr>],
     bn_tls := Some ((sample_phdr PT_TLS 0x100 n)\<lparr>p_memsz := n + 8\<rparr>)\<rparr>"

definition sample_tls :: Sold where
  "sample_tls = sample_sold\<lparr>so_bins := [sample_tls_library 16, sample_tls_library 4], so_tls := no_tls\<rparr>"

lemma sample_tls_run:
  "so_tls sample_tls = no_tls"
  "linked_phdrs PT_TLS sample_tls = [(0, (sample_phdr PT_TLS 0x100 16)\<lparr>p_memsz := 24\<rparr>), (1, (sample_phdr PT_TLS 0x100 4)\<lparr>p_memsz := 12\<rparr>)]"
  by (simp_all add: sample_tls_def sample_sold_def linked_phdrs_def binary_def sample_tls_library_def sample_phdr_def sample_library_def)

lemma sample_tls_wf: "tls_wf sample_tls"
  by (simp add: tls_wf_def sample_tls_run tls_mems_def sample_phdr_def)

lemma sample_tls_collects: "\<exists>so'. Sold_CollectTLS sample_tls = Inr so'"
proof -
  have "\<not> isl (Sold_CollectTLS sample_tls)" by code_simp
  then show ?thesis by (metis sum.collapse(2))
qed

theorem CollectTLS_slots_witness:
  "\<exists>so'. Sold_CollectTLS sample_tls = Inr so' \<and> unat (tls_filesz (so_tls so')) = 20
    \<and> unat (td_bss_offset (tls_data (so_tls so') ! 0)) + 8 \<le> unat (td_bss_offset (tls_data (so_tls so') ! 1))"
proof -
  obtain so' where r: "Sold_CollectTLS sample_tls = Inr so'" using sample_tls_collects by blast
  note slots = CollectTLS_slots [OF r sample_tls_run(1) sample_tls_wf, unfolded sample_tls_run]
  have "unat (tls_filesz (so_tls so')) = 20"
    using slots [THEN conjunct2, THEN conjunct2, THEN conjunct2, THEN conjunct1] by (simp add: sample_phdr_def)
  moreover have "unat (td_bss_offset (tls_data (so_tls so') ! 0)) + 8 \<le> unat (td_bss_offset (tls_data (so_tls so') ! 1))"
    using slots [THEN conjunct2, THEN conjunct2, THEN conjunct1, rule_format, of 0 1] by (simp add: sample_phdr_def)
  ultimately have "unat (tls_filesz (so_tls so')) = 20
    \<and> unat (td_bss_offset (tls_data (so_tls so') ! 0)) + 8 \<le> unat (td_bss_offset (tls_data (so_tls so') ! 1))" ..
  with r show ?thesis by blast
qed

text \<open>Eight bytes into the segment of the second object: the fifth byte behind its four bytes of data.\<close>

theorem RemapTLS_slots_witness:
  "\<exists>so'. Sold_CollectTLS sample_tls = Inr so' \<and> Sold_RemapTLS 1 8 so' = Inr 36
    \<and> rbind (tls_shift True 1 so') (\<lambda>shift. Inr (8 + shift)) = Inr 32"
proof -
  obtain so' where r: "Sold_CollectTLS sample_tls = Inr so'" using sample_tls_collects by blast
  have "bn_tls (binary sample_tls 1) = Some ((sample_phdr PT_TLS 0x100 4)\<lparr>p_memsz := 12\<rparr>)"
    by (simp add: sample_tls_def binary_def sample_tls_library_def)
  from RemapTLS_slots [OF r sample_tls_run(1) sample_tls_wf _ _ this, of 1 8] r show ?thesis
    by (auto simp: sample_tls_run sample_phdr_def tls_files_def tls_bsss_def Let_def)
qed

end
