(* ===== verification/Array_Layout.thy ===== *)
theory Array_Layout
  imports Relocate Layout
begin

text \<open>
  The initialisation and termination arrays of the output: what \<^verbatim>\<open>Sold::CollectArrays\<close> puts into
  them, where each object's functions stand in them, and that a relocation of an object's old array is
  repeated at the word of the new array that holds the same function.
\<close>

section \<open>Placing pieces one after another\<close>

text \<open>
  Both loops append the words of each object to an array and note the address they start at; \<open>base\<close> is the
  address of the array.
\<close>

definition place :: "u64 \<Rightarrow> ('b \<Rightarrow> u64 list) \<Rightarrow> 'b \<Rightarrow> ('b \<rightharpoonup> u64) \<times> u64 list \<Rightarrow> ('b \<rightharpoonup> u64) \<times> u64 list" where
  "place base f b = (\<lambda>(m, ws). (m(b \<mapsto> base + 8 * of_nat (length ws)), ws @ f b))"

text \<open>\<open>starts\<close> holds if the address recorded for an object is that of its words.\<close>

definition starts :: "u64 \<Rightarrow> ('b \<Rightarrow> u64 list) \<Rightarrow> ('b \<rightharpoonup> u64) \<Rightarrow> u64 list \<Rightarrow> 'b \<Rightarrow> bool" where
  "starts base f m ws b \<longleftrightarrow>
     (\<exists>n. m b = Some (base + 8 * of_nat n) \<and> n + length (f b) \<le> length ws
        \<and> (\<forall>k < length (f b). ws ! (n + k) = f b ! k))"

lemma place_apply [simp]: "place base f b (m, ws) = (m(b \<mapsto> base + 8 * of_nat (length ws)), ws @ f b)"
  by (simp add: place_def)

lemma fold_place:
  assumes "fold (place base f) bs (m, ws) = (m', ws')"
  shows "ws' = ws @ concat (map f bs) \<and> (\<forall>b. b \<notin> set bs \<longrightarrow> m' b = m b)"
  using assms
proof (induction bs arbitrary: m ws)
  case (Cons b bs)
  then have "fold (place base f) bs (m(b \<mapsto> base + 8 * of_nat (length ws)), ws @ f b) = (m', ws')" by simp
  from Cons.IH [OF this] show ?case by simp
qed simp

lemma fold_place_starts:
  assumes "fold (place base f) bs (m, ws) = (m', ws')" and "distinct bs" and "b \<in> set bs"
  shows "starts base f m' ws' b"
  using assms
proof (induction bs arbitrary: m ws)
  case (Cons c bs)
  then have r: "fold (place base f) bs (m(c \<mapsto> base + 8 * of_nat (length ws)), ws @ f c) = (m', ws')"
    by simp
  show ?case
  proof (cases "b = c")
    case True
    with Cons.prems(2) have "m' b = Some (base + 8 * of_nat (length ws))" using fold_place [OF r] by simp
    moreover have "ws' = ws @ f c @ concat (map f bs)" using fold_place [OF r] by simp
    ultimately show ?thesis using True
      by (auto simp: starts_def nth_append intro!: exI [of _ "length ws"])
  next
    case False
    with Cons.IH [OF r] Cons.prems show ?thesis by simp
  qed
qed simp

section \<open>CollectArrays\<close>

definition moved_inits :: "Sold \<Rightarrow> nat \<Rightarrow> u64 list" where
  "moved_inits so b = map (\<lambda>ptr. ptr + load_offset so b) (bn_init_array (binary so b))"

definition moved_finis :: "Sold \<Rightarrow> nat \<Rightarrow> u64 list" where
  "moved_finis so b = map (\<lambda>ptr. ptr + load_offset so b) (bn_fini_array (binary so b))"

lemma CollectArrays_inits:
  "fold CollectArrays_init bs so
     = (let (m, ws) = fold (place (Sold_InitArrayOffset so) (moved_inits so)) bs
                        (so_bin_to_init_array_offset so, so_init_array so)
        in so\<lparr>so_init_array := ws, so_bin_to_init_array_offset := m\<rparr>)"
proof (induction bs arbitrary: so)
  case (Cons b bs)
  have same: "Sold_InitArrayOffset (CollectArrays_init b so) = Sold_InitArrayOffset so"
    "moved_inits (CollectArrays_init b so) = moved_inits so"
    by (auto simp: CollectArrays_init_def Let_def Sold_InitArrayOffset_def Sold_CountPhdrs_def binary_def moved_inits_def
        load_offset_def fun_eq_iff)
  show ?case
    by (simp add: Cons.IH same)
      (simp add: CollectArrays_init_def Let_def moved_inits_def case_prod_unfold binary_def)
qed simp

lemma CollectArrays_finis:
  "fold CollectArrays_fini bs so
     = (let (m, ws) = fold (place (Sold_FiniArrayOffset so) (moved_finis so)) (filter (\<lambda>b. \<not> excluded_from_fini so b) bs)
                        (so_bin_to_fini_array_offset so, so_fini_array so)
        in so\<lparr>so_fini_array := ws, so_bin_to_fini_array_offset := m\<rparr>)"
proof (induction bs arbitrary: so)
  case (Cons b bs)
  have same: "Sold_FiniArrayOffset (CollectArrays_fini b so) = Sold_FiniArrayOffset so"
    "moved_finis (CollectArrays_fini b so) = moved_finis so"
    "excluded_from_fini (CollectArrays_fini b so) = excluded_from_fini so"
    by (auto simp: CollectArrays_fini_def Let_def Sold_FiniArrayOffset_def Sold_InitArrayOffset_def Sold_CountPhdrs_def
        Sold_InitArraySize_def binary_def moved_finis_def load_offset_def excluded_from_fini_def fun_eq_iff)
  show ?case
    by (simp add: Cons.IH same)
      (simp add: CollectArrays_fini_def Let_def moved_finis_def case_prod_unfold binary_def)
qed simp

lemma CollectArrays_result:
  fixes so :: Sold
  assumes "so_init_array so = []" and "so_fini_array so = []" and "distinct (so_link_binaries so)"
    and "so_bin_to_fini_array_offset so = Map.empty"
  defines "so' \<equiv> Sold_CollectArrays so" and "kept \<equiv> filter (\<lambda>b. \<not> excluded_from_fini so b) (so_link_binaries so)"
  shows "so_init_array so' = so_mprotect_offset so # concat (map (moved_inits so) (rev (so_link_binaries so)))"
    and "so_fini_array so' = concat (map (moved_finis so) kept)"
    and "\<forall>b \<in> set (so_link_binaries so). starts (Sold_InitArrayOffset so') (moved_inits so) (so_bin_to_init_array_offset so')
        (so_init_array so') b"
    and "\<forall>b \<in> set kept. starts (Sold_FiniArrayOffset so') (moved_finis so) (so_bin_to_fini_array_offset so')
        (so_fini_array so') b"
    and "\<forall>b. b \<notin> set kept \<longrightarrow> so_bin_to_fini_array_offset so' b = None"
    and "so_bins so' = so_bins so" "so_offsets so' = so_offsets so"
proof -
  let ?s0 = "so\<lparr>so_init_array := [so_mprotect_offset so]\<rparr>"
  obtain m ws where i: "fold (place (Sold_InitArrayOffset ?s0) (moved_inits ?s0)) (rev (so_link_binaries so))
      (so_bin_to_init_array_offset so, [so_mprotect_offset so]) = (m, ws)" by fastforce
  let ?s1 = "?s0\<lparr>so_init_array := ws, so_bin_to_init_array_offset := m\<rparr>"
  have s1: "fold CollectArrays_init (rev (so_link_binaries so)) ?s0 = ?s1"
    by (simp only: CollectArrays_inits) (simp add: i)
  have kept: "filter (\<lambda>b. \<not> excluded_from_fini ?s1 b) (so_link_binaries so) = kept"
    by (simp add: kept_def excluded_from_fini_def binary_def)
  obtain m' ws' where f: "fold (place (Sold_FiniArrayOffset ?s1) (moved_finis ?s1)) kept
      (so_bin_to_fini_array_offset so, []) = (m', ws')" by fastforce
  have "Sold_CollectArrays so = fold CollectArrays_fini (so_link_binaries so) ?s1"
    using assms(1) s1 by (simp add: Sold_CollectArrays_def Let_def)
  also have "\<dots> = ?s1\<lparr>so_fini_array := ws', so_bin_to_fini_array_offset := m'\<rparr>"
    using f assms(2) unfolding CollectArrays_finis kept by simp
  finally have so': "so' = ?s1\<lparr>so_fini_array := ws', so_bin_to_fini_array_offset := m'\<rparr>" by (simp add: so'_def)
  have same: "moved_inits ?s0 = moved_inits so" "moved_finis ?s1 = moved_finis so"
    "Sold_InitArrayOffset so' = Sold_InitArrayOffset ?s0" "Sold_FiniArrayOffset so' = Sold_FiniArrayOffset ?s1"
    by (auto simp: so' moved_inits_def moved_finis_def load_offset_def binary_def Sold_InitArrayOffset_def
        Sold_FiniArrayOffset_def Sold_CountPhdrs_def Sold_InitArraySize_def fun_eq_iff)
  show "so_init_array so' = so_mprotect_offset so # concat (map (moved_inits so) (rev (so_link_binaries so)))"
    using fold_place [OF i] by (simp add: so' same)
  show "so_fini_array so' = concat (map (moved_finis so) kept)"
    using fold_place [OF f] unfolding same so' by simp
  show "\<forall>b \<in> set (so_link_binaries so). starts (Sold_InitArrayOffset so') (moved_inits so) (so_bin_to_init_array_offset so')
        (so_init_array so') b"
    using fold_place_starts [OF i] assms(3) by (simp add: same) (simp add: so')
  show "\<forall>b \<in> set kept. starts (Sold_FiniArrayOffset so') (moved_finis so) (so_bin_to_fini_array_offset so')
        (so_fini_array so') b"
    using fold_place_starts [OF f] assms(3) unfolding same by (auto simp: kept_def so')
  show "\<forall>b. b \<notin> set kept \<longrightarrow> so_bin_to_fini_array_offset so' b = None"
    using fold_place [OF f] assms(4) by (simp add: so')
  show "so_bins so' = so_bins so" "so_offsets so' = so_offsets so" by (simp_all add: so')
qed

text \<open>
  C15: After \<^verbatim>\<open>CollectArrays\<close> the new \<^verbatim>\<open>.init_array\<close> is the address of the generated mprotect code followed by
  the functions of the linked objects, moved by the offset each object is placed at, dependencies (the
  objects linked last) first; the new \<^verbatim>\<open>.fini_array\<close> holds those of the objects not excluded with
  \<^verbatim>\<open>--exclude-from-fini\<close>, in link order. The address noted for an object is that of its first function in the
  finished array.
\<close>

theorem CollectArrays_slots:
  assumes "so_init_array so = []" and "so_fini_array so = []" and "distinct (so_link_binaries so)"
    and "so_bin_to_fini_array_offset so = Map.empty"
  defines "so' \<equiv> Sold_CollectArrays so" and "kept \<equiv> filter (\<lambda>b. \<not> excluded_from_fini so b) (so_link_binaries so)"
  shows "so_init_array so' = so_mprotect_offset so # concat (map (moved_inits so) (rev (so_link_binaries so)))
    \<and> so_fini_array so' = concat (map (moved_finis so) kept)
    \<and> (\<forall>b \<in> set (so_link_binaries so).
         starts (Sold_InitArrayOffset so') (moved_inits so) (so_bin_to_init_array_offset so') (so_init_array so') b)
    \<and> (\<forall>b \<in> set kept.
         starts (Sold_FiniArrayOffset so') (moved_finis so) (so_bin_to_fini_array_offset so') (so_fini_array so') b)"
  using CollectArrays_result [OF assms(1-4)] by (simp add: so'_def kept_def)

text \<open>
  A relocation of the word \<open>k\<close> of an old array, whose size and address the dynamic section gave, is applied
  to the word of the new array with the same function; an object left out of the \<^verbatim>\<open>.fini_array\<close> has no such word.
\<close>

lemma nth_word:
  assumes "starts base f m ws b" and "k < length (f b)" and "m b = Some a"
  shows "\<exists>n. a + 8 * of_nat k = base + 8 * of_nat n \<and> n < length ws \<and> ws ! n = f b ! k"
proof -
  from assms obtain n where n: "a = base + 8 * of_nat n" "n + length (f b) \<le> length ws" "ws ! (n + k) = f b ! k"
    by (auto simp: starts_def)
  then show ?thesis using assms(2) by (intro exI [of _ "n + k"]) (simp add: algebra_simps)
qed

lemma in_array:
  fixes addr sz :: u64
  assumes "sz = 8 * of_nat n" and "k < n" and "unat addr + 8 * n < 2 ^ 64"
  shows "addr \<le> addr + 8 * of_nat k" "addr + 8 * of_nat k < addr + sz"
proof -
  have u: "unat (addr + 8 * of_nat j) = unat addr + 8 * j" if "j \<le> n" for j
  proof -
    have "unat addr + 8 * j < 2 ^ 64" using assms(3) that by linarith
    moreover have "addr + 8 * of_nat j = of_nat (unat addr + 8 * j)" by simp
    ultimately show ?thesis by (simp only: unat_of_nat) simp
  qed
  show "addr \<le> addr + 8 * of_nat k" using u [of k] assms(2) by (simp add: word_le_nat_alt)
  show "addr + 8 * of_nat k < addr + sz" using u [of k] u [of n] assms(1,2) by (simp add: word_less_nat_alt)
qed

lemma behind_array:
  fixes addr sz x :: u64
  assumes "sz = 8 * of_nat n" and "unat addr + 8 * n \<le> unat x"
  shows "addr + sz \<le> x"
proof -
  have "unat addr + 8 * n < 2 ^ 64" using assms(2) unsigned_less [of x, where ?'a = nat] by simp
  moreover have "addr + sz = of_nat (unat addr + 8 * n)" using assms(1) by simp
  ultimately show ?thesis using assms(2) by (simp only: word_le_nat_alt unat_of_nat) simp
qed

lemma rel_in_init_array:
  assumes "ELFBinary_IsAddrInInitarray (r_offset rel) (binary so b) = Inr True"
    and "starts base f (so_bin_to_init_array_offset so) ws b" and "k < length (f b)"
    and "r_offset rel = bn_init_array_addr (binary so b) + 8 * of_nat k"
  shows "\<exists>n. rel_in_arrays b rel so = Inr [rel\<lparr>r_offset := base + 8 * of_nat n\<rparr>] \<and> n < length ws \<and> ws ! n = f b ! k"
proof -
  from assms(2) obtain a where a: "so_bin_to_init_array_offset so b = Some a" by (auto simp: starts_def)
  from nth_word [OF assms(2,3) a] obtain n where
    n: "a + 8 * of_nat k = base + 8 * of_nat n" "n < length ws" "ws ! n = f b ! k" by blast
  have "rel_in_arrays b rel so = Inr [rel\<lparr>r_offset := a + 8 * of_nat k\<rparr>]"
    unfolding rel_in_arrays_def Let_def assms(1) by (simp add: a assms(4) add.commute)
  with n show ?thesis by auto
qed

lemma rel_in_fini_array:
  assumes "ELFBinary_IsAddrInInitarray (r_offset rel) (binary so b) = Inr False"
    and "ELFBinary_IsAddrInFiniarray (r_offset rel) (binary so b) = Inr True"
    and "starts base f (so_bin_to_fini_array_offset so) ws b" and "k < length (f b)"
    and "r_offset rel = bn_fini_array_addr (binary so b) + 8 * of_nat k"
  shows "\<exists>n. rel_in_arrays b rel so = Inr [rel\<lparr>r_offset := base + 8 * of_nat n\<rparr>] \<and> n < length ws \<and> ws ! n = f b ! k"
proof -
  from assms(3) obtain a where a: "so_bin_to_fini_array_offset so b = Some a" by (auto simp: starts_def)
  from nth_word [OF assms(3,4) a] obtain n where
    n: "a + 8 * of_nat k = base + 8 * of_nat n" "n < length ws" "ws ! n = f b ! k" by blast
  have "rel_in_arrays b rel so = Inr [rel\<lparr>r_offset := a + 8 * of_nat k\<rparr>]"
    unfolding rel_in_arrays_def Let_def assms(1) rbind.simps if_False assms(2) by (simp add: a assms(5) add.commute)
  with n show ?thesis by auto
qed

text \<open>The arrays of an object as its dynamic section describes them: \<open>.init_array\<close> before \<open>.fini_array\<close>.\<close>

definition arrays_wf :: "ELFBinary \<Rightarrow> bool" where
  "arrays_wf bn \<longleftrightarrow>
     bn_init_array_addr bn \<noteq> 0 \<and> bn_fini_array_addr bn \<noteq> 0
     \<and> bn_init_arraysz bn = 8 * of_nat (length (bn_init_array bn))
     \<and> bn_fini_arraysz bn = 8 * of_nat (length (bn_fini_array bn))
     \<and> unat (bn_init_array_addr bn) + 8 * length (bn_init_array bn) \<le> unat (bn_fini_array_addr bn)
     \<and> unat (bn_fini_array_addr bn) + 8 * length (bn_fini_array bn) < 2 ^ 64"

lemma addr_in_init:
  assumes "arrays_wf bn" and "k < length (bn_init_array bn)"
  shows "ELFBinary_IsAddrInInitarray (bn_init_array_addr bn + 8 * of_nat k) bn = Inr True"
proof -
  have "unat (bn_init_array_addr bn) + 8 * length (bn_init_array bn) < 2 ^ 64"
    using assms(1) unsigned_less [of "bn_fini_array_addr bn", where ?'a = nat] by (simp add: arrays_wf_def)
  with assms show ?thesis using in_array [of "bn_init_arraysz bn" "length (bn_init_array bn)" k "bn_init_array_addr bn"]
    by (simp add: ELFBinary_IsAddrInInitarray_def arrays_wf_def)
qed

lemma addr_in_fini:
  assumes "arrays_wf bn" and "k < length (bn_fini_array bn)"
  shows "ELFBinary_IsAddrInFiniarray (bn_fini_array_addr bn + 8 * of_nat k) bn = Inr True"
    and "ELFBinary_IsAddrInInitarray (bn_fini_array_addr bn + 8 * of_nat k) bn = Inr False"
proof -
  note f = in_array [of "bn_fini_arraysz bn" "length (bn_fini_array bn)" k "bn_fini_array_addr bn"]
  show "ELFBinary_IsAddrInFiniarray (bn_fini_array_addr bn + 8 * of_nat k) bn = Inr True"
    using f assms by (simp add: ELFBinary_IsAddrInFiniarray_def arrays_wf_def)
  have "unat (bn_init_array_addr bn) + 8 * length (bn_init_array bn) \<le> unat (bn_fini_array_addr bn + 8 * of_nat k)"
    using f(1) assms by (auto simp: arrays_wf_def word_le_nat_alt)
  with assms(1) behind_array [of "bn_init_arraysz bn" "length (bn_init_array bn)" "bn_init_array_addr bn"]
  have "bn_init_array_addr bn + bn_init_arraysz bn \<le> bn_fini_array_addr bn + 8 * of_nat k" by (simp add: arrays_wf_def)
  with assms(1) show "ELFBinary_IsAddrInInitarray (bn_fini_array_addr bn + 8 * of_nat k) bn = Inr False"
    by (auto simp: ELFBinary_IsAddrInInitarray_def arrays_wf_def)
qed

text \<open>
  C16: A relocation of the word of an object's \<^verbatim>\<open>.init_array\<close> is repeated at the word of the new
  \<^verbatim>\<open>.init_array\<close> that holds the same function; likewise for \<^verbatim>\<open>.fini_array\<close>, except that for an object named
  with \<^verbatim>\<open>--exclude-from-fini\<close> it ends the process with a failed \<^verbatim>\<open>CHECK\<close>.
\<close>

theorem CollectArrays_relocations:
  assumes "so_init_array so = []" and "so_fini_array so = []" and "distinct (so_link_binaries so)"
    and "so_bin_to_fini_array_offset so = Map.empty" and "b \<in> set (so_link_binaries so)"
    and "arrays_wf (binary so b)"
  defines "so' \<equiv> Sold_CollectArrays so"
  shows "(\<forall>k < length (bn_init_array (binary so b)). r_offset rel = bn_init_array_addr (binary so b) + 8 * of_nat k \<longrightarrow>
      (\<exists>n. rel_in_arrays b rel so' = Inr [rel\<lparr>r_offset := Sold_InitArrayOffset so' + 8 * of_nat n\<rparr>]
         \<and> n < length (so_init_array so') \<and> so_init_array so' ! n = bn_init_array (binary so b) ! k + load_offset so b))
    \<and> (\<forall>k < length (bn_fini_array (binary so b)). r_offset rel = bn_fini_array_addr (binary so b) + 8 * of_nat k \<longrightarrow>
      (if excluded_from_fini so b then rel_in_arrays b rel so' = Inl CHECK_failed
       else (\<exists>n. rel_in_arrays b rel so' = Inr [rel\<lparr>r_offset := Sold_FiniArrayOffset so' + 8 * of_nat n\<rparr>]
         \<and> n < length (so_fini_array so') \<and> so_fini_array so' ! n = bn_fini_array (binary so b) ! k + load_offset so b)))"
proof -
  let ?bn = "binary so b"
  note r = CollectArrays_result [OF assms(1-4), folded so'_def]
  have bn: "binary so' b = ?bn" using r(6) by (simp add: binary_def)
  have init: "\<exists>n. rel_in_arrays b rel so' = Inr [rel\<lparr>r_offset := Sold_InitArrayOffset so' + 8 * of_nat n\<rparr>]
         \<and> n < length (so_init_array so') \<and> so_init_array so' ! n = bn_init_array ?bn ! k + load_offset so b"
    if k: "k < length (bn_init_array ?bn)" and off: "r_offset rel = bn_init_array_addr ?bn + 8 * of_nat k" for k
    using rel_in_init_array [of rel so' b, OF _ r(3) [rule_format, OF assms(5)], of k] addr_in_init [OF assms(6) k] k off
    by (simp add: bn moved_inits_def)
  have fini: "\<exists>n. rel_in_arrays b rel so' = Inr [rel\<lparr>r_offset := Sold_FiniArrayOffset so' + 8 * of_nat n\<rparr>]
         \<and> n < length (so_fini_array so') \<and> so_fini_array so' ! n = bn_fini_array ?bn ! k + load_offset so b"
    if k: "k < length (bn_fini_array ?bn)" and off: "r_offset rel = bn_fini_array_addr ?bn + 8 * of_nat k"
      and kept: "\<not> excluded_from_fini so b" for k
    using rel_in_fini_array [of rel so' b, OF _ _ r(4) [rule_format], of k] addr_in_fini [OF assms(6) k] k off kept assms(5)
    by (simp add: bn moved_finis_def)
  have excluded: "rel_in_arrays b rel so' = Inl CHECK_failed"
    if k: "k < length (bn_fini_array ?bn)" and off: "r_offset rel = bn_fini_array_addr ?bn + 8 * of_nat k"
      and "excluded_from_fini so b" for k
    using that(3) r(5) addr_in_fini [OF assms(6) k] unfolding rel_in_arrays_def Let_def bn off by simp
  from init fini excluded show ?thesis by auto
qed

section \<open>An example\<close>

definition sample_arrays_library :: ELFBinary where
  "sample_arrays_library = sample_library\<lparr>bn_init_array_addr := 0x3000, bn_init_array := [0x10, 0x20], bn_init_arraysz := 16,
     bn_fini_array_addr := 0x3010, bn_fini_array := [0x30], bn_fini_arraysz := 8\<rparr>"

definition sample_arrays :: Sold where
  "sample_arrays = sample_placed\<lparr>so_bins := [sample_arrays_library, sample_arrays_library\<lparr>bn_soname := ''libb.so''\<rparr>],
     so_exclude_finis := [''libb'']\<rparr>"

lemma sample_arrays_fields: "so_init_array sample_arrays = []" "so_fini_array sample_arrays = []"
  "so_link_binaries sample_arrays = [0, 1]" "so_bin_to_fini_array_offset sample_arrays = Map.empty"
  "binary sample_arrays 0 = sample_arrays_library"
  "binary sample_arrays (Suc 0) = sample_arrays_library\<lparr>bn_soname := ''libb.so''\<rparr>"
  "so_mprotect_offset sample_arrays = 0" "load_offset sample_arrays 0 = 0x10000000"
  "load_offset sample_arrays (Suc 0) = 0x10004000"
  using sample_bins
  by (simp_all add: sample_arrays_def sample_placed_def sample_sold_def Sold_init_def binary_def load_offset_def)

lemma sample_arrays_excluded: "\<not> excluded_from_fini sample_arrays 0" "excluded_from_fini sample_arrays (Suc 0)"
  by (simp_all add: excluded_from_fini_def sample_arrays_fields sample_arrays_library_def)
    (simp_all add: sample_arrays_def sample_library_def HasPrefix_def)

lemma sample_arrays_library_fields: "bn_init_array sample_arrays_library = [0x10, 0x20]"
  "bn_fini_array sample_arrays_library = [0x30]" "bn_init_array_addr sample_arrays_library = 0x3000"
  "bn_fini_array_addr sample_arrays_library = 0x3010" "arrays_wf sample_arrays_library"
  "arrays_wf (sample_arrays_library\<lparr>bn_soname := s\<rparr>)"
  by (simp_all add: sample_arrays_library_def arrays_wf_def)

theorem CollectArrays_slots_witness:
  "so_init_array (Sold_CollectArrays sample_arrays) = [0, 0x10004010, 0x10004020, 0x10000010, 0x10000020]
    \<and> so_fini_array (Sold_CollectArrays sample_arrays) = [0x10000030]"
  using CollectArrays_slots [of sample_arrays]
  by (simp add: sample_arrays_fields sample_arrays_excluded moved_inits_def moved_finis_def sample_arrays_library_fields)

theorem CollectArrays_relocations_witness:
  "(\<exists>n. rel_in_arrays 0 \<lparr>r_offset = 0x3008, r_info = 8, r_addend = 0x20\<rparr> (Sold_CollectArrays sample_arrays)
       = Inr [\<lparr>r_offset = Sold_InitArrayOffset (Sold_CollectArrays sample_arrays) + 8 * of_nat n, r_info = 8, r_addend = 0x20\<rparr>]
     \<and> so_init_array (Sold_CollectArrays sample_arrays) ! n = 0x10000020)
   \<and> rel_in_arrays 1 \<lparr>r_offset = 0x3010, r_info = 8, r_addend = 0x30\<rparr> (Sold_CollectArrays sample_arrays) = Inl CHECK_failed"
proof
  show "\<exists>n. rel_in_arrays 0 \<lparr>r_offset = 0x3008, r_info = 8, r_addend = 0x20\<rparr> (Sold_CollectArrays sample_arrays)
       = Inr [\<lparr>r_offset = Sold_InitArrayOffset (Sold_CollectArrays sample_arrays) + 8 * of_nat n, r_info = 8, r_addend = 0x20\<rparr>]
     \<and> so_init_array (Sold_CollectArrays sample_arrays) ! n = 0x10000020"
    using CollectArrays_relocations [of sample_arrays 0 "\<lparr>r_offset = 0x3008, r_info = 8, r_addend = 0x20\<rparr>",
        THEN conjunct1, rule_format, of 1]
    by (auto simp: sample_arrays_fields sample_arrays_library_fields)
  show "rel_in_arrays 1 \<lparr>r_offset = 0x3010, r_info = 8, r_addend = 0x30\<rparr> (Sold_CollectArrays sample_arrays) = Inl CHECK_failed"
    using CollectArrays_relocations [of sample_arrays 1 "\<lparr>r_offset = 0x3010, r_info = 8, r_addend = 0x30\<rparr>",
        THEN conjunct2, rule_format, of 0]
    by (auto simp: sample_arrays_fields sample_arrays_excluded sample_arrays_library_fields)
qed

end
