(* ===== verification/Symbol_Collection.thy ===== *)
theory Symbol_Collection
  imports Layout
begin

text \<open>
  The symbols the linker knows: how \<^verbatim>\<open>Sold::LoadDynSymtab\<close> moves the symbols an object has to their
  place in the output and chooses among the symbols of the same name, file and version.
\<close>

section \<open>Choosing among symbols of the same key\<close>

abbreviation sym_prio :: "Syminfo \<Rightarrow> nat" where
  "sym_prio s \<equiv> prio (the (si_sym s))"

text \<open>\<open>strongest all s\<close>: \<open>s\<close> has the symbol of the first entry of its key with the highest priority.\<close>

definition strongest :: "Syminfo list \<Rightarrow> Syminfo \<Rightarrow> bool" where
  "strongest all s \<longleftrightarrow>
     (\<exists>pre t post. all = pre @ t # post \<and> si_key t = si_key s \<and> si_sym t = si_sym s
        \<and> (\<forall>u \<in> set pre. si_key u = si_key s \<longrightarrow> sym_prio u < sym_prio t)
        \<and> (\<forall>u \<in> set post. si_key u = si_key s \<longrightarrow> sym_prio u \<le> sym_prio t))"

lemma find_symbol_None: "find_symbol ss p = None \<longleftrightarrow> si_key p \<notin> si_key ` set ss"
  by (induction ss) (auto simp: si_key_def)

lemma find_symbol_Some: "find_symbol ss p = Some i \<Longrightarrow> i < length ss \<and> si_key (ss ! i) = si_key p"
  by (induction ss arbitrary: i) (auto simp: si_key_def split: if_splits)

lemma strongest_snoc:
  assumes "strongest all s" and "si_key p = si_key s \<Longrightarrow> sym_prio p \<le> sym_prio s"
  shows "strongest (all @ [p]) s"
proof -
  from assms(1) obtain pre t post where t: "all = pre @ t # post" "si_key t = si_key s" "si_sym t = si_sym s"
    "\<forall>u \<in> set pre. si_key u = si_key s \<longrightarrow> sym_prio u < sym_prio t"
    "\<forall>u \<in> set post. si_key u = si_key s \<longrightarrow> sym_prio u \<le> sym_prio t" by (auto simp: strongest_def)
  then show ?thesis using assms(2) unfolding strongest_def
    by (intro exI [of _ pre] exI [of _ t] exI [of _ "post @ [p]"]) auto
qed

lemma strongest_bound:
  assumes "strongest all s" and "u \<in> set all" and "si_key u = si_key s"
  shows "sym_prio u \<le> sym_prio s"
proof -
  from assms(1) obtain pre t post where t: "all = pre @ t # post" "si_sym t = si_sym s"
    "\<forall>u \<in> set pre. si_key u = si_key s \<longrightarrow> sym_prio u < sym_prio t"
    "\<forall>u \<in> set post. si_key u = si_key s \<longrightarrow> sym_prio u \<le> sym_prio t" by (auto simp: strongest_def)
  from assms(2) t(1) consider "u \<in> set pre" | "u = t" | "u \<in> set post" by auto
  then show ?thesis using t assms(3) by cases (auto intro: less_imp_le)
qed

lemma strongest_new:
  assumes "\<forall>u \<in> set all. si_key u = si_key p \<longrightarrow> sym_prio u < sym_prio p" and "si_key s = si_key p" and "si_sym s = si_sym p"
  shows "strongest (all @ [p]) s"
  unfolding strongest_def using assms by (intro exI [of _ all] exI [of _ p] exI [of _ "[]"]) auto

definition chosen :: "Syminfo list \<Rightarrow> Syminfo list \<Rightarrow> bool" where
  "chosen all syms \<longleftrightarrow> distinct (map si_key syms) \<and> si_key ` set syms = si_key ` set all \<and> (\<forall>s \<in> set syms. strongest all s)"

lemma add_symbol_chosen:
  assumes "chosen all syms"
  shows "chosen (all @ [p]) (add_symbol p syms)"
proof (cases "find_symbol syms p")
  case None
  then have new: "si_key p \<notin> si_key ` set syms" by (simp add: find_symbol_None)
  moreover have "strongest (all @ [p]) s" if "s \<in> set syms" for s
    using that new assms by (intro strongest_snoc) (auto simp: chosen_def)
  moreover have "si_key p \<notin> si_key ` set all" using new assms by (simp add: chosen_def)
  then have "\<forall>u \<in> set all. si_key u \<noteq> si_key p" by (metis imageI)
  then have "strongest (all @ [p]) p" by (intro strongest_new) auto
  ultimately show ?thesis using None assms by (auto simp: chosen_def add_symbol_def)
next
  case (Some i)
  note i = find_symbol_Some [OF Some]
  have dist: "distinct (map si_key syms)" and str: "strongest all (syms ! i)" using assms i by (auto simp: chosen_def)
  have other: "strongest (all @ [p]) (syms ! j)" if "j < length syms" "j \<noteq> i" for j
  proof (rule strongest_snoc)
    show "strongest all (syms ! j)" using assms that by (simp add: chosen_def)
    have "si_key p \<noteq> si_key (syms ! j)" using dist i that by (auto simp: distinct_conv_nth)
    then show "si_key p = si_key (syms ! j) \<Longrightarrow> sym_prio p \<le> sym_prio (syms ! j)" by simp
  qed
  have key: "si_key p \<in> si_key ` set syms" using i by (metis image_eqI nth_mem)
  then have keys: "si_key ` set syms = insert (si_key p) (si_key ` set all)" using assms by (auto simp: chosen_def)
  show ?thesis
  proof (cases "sym_prio p > sym_prio (syms ! i)")
    case True
    let ?syms = "syms[i := (syms ! i)\<lparr>si_sym := si_sym p\<rparr>]"
    have "si_key ((syms ! i)\<lparr>si_sym := si_sym p\<rparr>) = si_key (syms ! i)" by (simp add: si_key_def)
    then have same: "map si_key ?syms = map si_key syms" by (metis list_update_id map_update)
    then have img: "si_key ` set ?syms = si_key ` set syms" by (metis set_map)
    have "strongest (all @ [p]) ((syms ! i)\<lparr>si_sym := si_sym p\<rparr>)"
    proof (rule strongest_new)
      show "\<forall>u \<in> set all. si_key u = si_key p \<longrightarrow> sym_prio u < sym_prio p"
        using strongest_bound [OF str] i True by force
    qed (use i in \<open>auto simp: si_key_def\<close>)
    with other i have "strongest (all @ [p]) (?syms ! j)" if "j < length syms" for j using that by (cases "j = i") simp_all
    then have "\<forall>s \<in> set ?syms. strongest (all @ [p]) s" by (metis in_set_conv_nth length_list_update)
    with True Some dist same img keys show ?thesis by (simp add: chosen_def add_symbol_def)
  next
    case False
    then have "strongest (all @ [p]) (syms ! i)" using str by (intro strongest_snoc) simp_all
    with other have "\<forall>s \<in> set syms. strongest (all @ [p]) s" by (metis in_set_conv_nth)
    with False Some dist keys show ?thesis by (simp add: chosen_def add_symbol_def)
  qed
qed

lemma fold_add_symbol_chosen: "chosen all syms \<Longrightarrow> chosen (all @ ps) (fold add_symbol ps syms)"
proof (induction ps arbitrary: all syms)
  case (Cons p ps)
  from Cons.IH [OF add_symbol_chosen [OF Cons.prems]] show ?case by simp
qed simp

section \<open>LoadDynSymtab\<close>

text \<open>\<open>t\<close> is the symbol \<open>s\<close> of the object \<open>b\<close> with the value it has in the output.\<close>

definition moved_to :: "Sold \<Rightarrow> nat \<Rightarrow> Syminfo \<Rightarrow> Syminfo \<Rightarrow> bool" where
  "moved_to so b s t \<longleftrightarrow>
     (\<exists>v. LoadDynSymtab_value b (load_offset so b) (the (si_sym s)) so = Inr v
        \<and> t = (case v of None \<Rightarrow> s | Some v \<Rightarrow> s\<lparr>si_sym := map_option (\<lambda>e. e\<lparr>st_value := v\<rparr>) (si_sym s)\<rparr>))"

text \<open>What the values depend on and what the loop over the symbols of \<open>b\<close> leaves alone.\<close>

definition same_but :: "nat set \<Rightarrow> Sold \<Rightarrow> Sold \<Rightarrow> bool" where
  "same_but B so so' \<longleftrightarrow>
     so_tls so' = so_tls so \<and> so_offsets so' = so_offsets so \<and> so_filename_to_soname so' = so_filename_to_soname so
     \<and> so_syms so' = so_syms so \<and> so_link_binaries so' = so_link_binaries so \<and> length (so_bins so') = length (so_bins so)
     \<and> (\<forall>c. bn_tls (binary so' c) = bn_tls (binary so c)) \<and> (\<forall>c. c \<notin> B \<longrightarrow> binary so' c = binary so c)"

lemma same_but_refl: "same_but B so so"
  by (simp add: same_but_def)

lemma same_but_trans: "same_but B so so' \<Longrightarrow> same_but C so' so'' \<Longrightarrow> same_but (B \<union> C) so so''"
  by (simp add: same_but_def)

lemma binary_set_binary: "binary (set_binary b bn so) c = (if c = b \<and> b < length (so_bins so) then bn else binary so c)"
  by (cases "b < length (so_bins so)"; cases "c = b") (simp_all add: set_binary_def binary_def list_update_beyond)

lemma same_but_set_binary: "bn_tls bn = bn_tls (binary so b) \<Longrightarrow> same_but {b} so (set_binary b bn so)"
  by (simp add: same_but_def binary_set_binary) (simp add: set_binary_def)

lemma moved_to_same:
  assumes "same_but B so so'"
  shows "moved_to so' b = moved_to so b"
proof -
  have tls: "so_tls so' = so_tls so" "bn_tls (binary so' b) = bn_tls (binary so b)"
    and off: "load_offset so' b = load_offset so b"
    using assms by (simp_all add: same_but_def load_offset_def)
  show ?thesis unfolding moved_to_def [abs_def] LoadDynSymtab_value_def Sold_RemapTLS_def tls off ..
qed

lemma LoadDynSymtab_step_moves:
  assumes "LoadDynSymtab_step b (load_offset so b) i (syms, so) = Inr (syms', so')"
    and "b < length (so_bins so)" and "i < length (bn_syms (binary so b))"
  shows "\<exists>t. moved_to so b (bn_syms (binary so b) ! i) t \<and> bn_syms (binary so' b) = (bn_syms (binary so b))[i := t]
    \<and> syms' = add_symbol t syms \<and> same_but {b} so so'"
proof -
  let ?s = "bn_syms (binary so b) ! i"
  from assms(1) obtain v where v: "LoadDynSymtab_value b (load_offset so b) (the (si_sym ?s)) so = Inr v"
    and so': "(case v of None \<Rightarrow> Inr so | Some v \<Rightarrow> set_st_value b i v so) = Inr so'"
    and syms': "syms' = add_symbol (bn_syms (binary so' b) ! i) syms"
    by (auto simp: LoadDynSymtab_step_def)
  show ?thesis
  proof (cases v)
    case None
    with v so' syms' show ?thesis by (intro exI [of _ ?s]) (auto simp: moved_to_def same_but_refl)
  next
    case (Some w)
    with so' obtain h where "so' = set_binary b ((binary so b)\<lparr>bn_head := h,
        bn_syms := (bn_syms (binary so b))[i := ?s\<lparr>si_sym := map_option (\<lambda>e. e\<lparr>st_value := w\<rparr>) (si_sym ?s)\<rparr>]\<rparr>) so"
      by (auto simp: set_st_value_def Let_def)
    with v syms' Some assms(2,3) show ?thesis
      by (intro exI [of _ "?s\<lparr>si_sym := map_option (\<lambda>e. e\<lparr>st_value := w\<rparr>) (si_sym ?s)\<rparr>"])
        (auto simp: moved_to_def binary_set_binary same_but_set_binary)
  qed
qed

lemma LoadDynSymtab_loop:
  assumes "rfold (LoadDynSymtab_step b (load_offset so b)) [k..<n] (syms, so) = Inr (syms', so')"
    and "b < length (so_bins so)" and "n = length (bn_syms (binary so b))" and "k \<le> n"
  shows "\<exists>ts. list_all2 (moved_to so b) (drop k (bn_syms (binary so b))) ts
    \<and> bn_syms (binary so' b) = take k (bn_syms (binary so b)) @ ts \<and> syms' = fold add_symbol ts syms \<and> same_but {b} so so'"
  using assms
proof (induction "n - k" arbitrary: k syms so)
  case 0
  then show ?case by (auto simp: same_but_refl)
next
  case (Suc m)
  then have "k < n" by simp
  let ?ss = "bn_syms (binary so b)"
  from Suc.prems(1) \<open>k < n\<close> obtain syms1 so1 where
    s1: "LoadDynSymtab_step b (load_offset so b) k (syms, so) = Inr (syms1, so1)"
    and r: "rfold (LoadDynSymtab_step b (load_offset so b)) [Suc k..<n] (syms1, so1) = Inr (syms', so')"
    by (auto simp: upt_conv_Cons)
  from LoadDynSymtab_step_moves [OF s1] Suc.prems(2,3) \<open>k < n\<close> obtain t where
    t: "moved_to so b (?ss ! k) t" "bn_syms (binary so1 b) = ?ss[k := t]" "syms1 = add_symbol t syms"
      "same_but {b} so so1" by auto
  have off: "load_offset so1 b = load_offset so b" and len: "length (so_bins so1) = length (so_bins so)"
    using t(4) by (simp_all add: same_but_def load_offset_def)
  have m: "m = n - Suc k" using Suc.hyps(2) by simp
  from Suc.hyps(1) [OF m, of so1 syms1] r off Suc.prems \<open>k < n\<close> t(2) len obtain ts where
    ts: "list_all2 (moved_to so1 b) (drop (Suc k) (?ss[k := t])) ts"
      "bn_syms (binary so' b) = take (Suc k) (?ss[k := t]) @ ts" "syms' = fold add_symbol ts syms1" "same_but {b} so1 so'"
    by auto
  have "list_all2 (moved_to so b) (drop k ?ss) (t # ts)"
    using ts(1) t(1) moved_to_same [OF t(4)] \<open>k < n\<close> Suc.prems(3) by (simp add: Cons_nth_drop_Suc [symmetric])
  moreover have "bn_syms (binary so' b) = take k ?ss @ t # ts"
    using ts(2) \<open>k < n\<close> Suc.prems(3) by (simp add: take_Suc_conv_app_nth)
  ultimately show ?case using ts(3,4) t(3) same_but_trans [OF t(4) ts(4)] by (intro exI [of _ "t # ts"]) simp
qed

lemma ReadDynSymtab_tls: "ELFBinary_ReadDynSymtab f bn = Inr bn' \<Longrightarrow> bn_tls bn' = bn_tls bn"
proof -
  assume "ELFBinary_ReadDynSymtab f bn = Inr bn'"
  then obtain symtab indices dup where r: "rfold (ReadDynSymtab_step f symtab) indices ([], bn) = Inr (dup, bn')"
    by (auto simp: ELFBinary_ReadDynSymtab_def split: option.splits)
  have "bn_tls (snd (dup, bn')) = bn_tls bn"
    by (rule rfold_inv [OF r]) (auto simp: ReadDynSymtab_step_def split: if_splits)
  then show ?thesis by simp
qed

lemma LoadDynSymtab_moves:
  assumes "Sold_LoadDynSymtab b (syms, so) = Inr (syms', so')" and "b < length (so_bins so)"
  shows "\<exists>bn. ELFBinary_ReadDynSymtab (so_filename_to_soname so) (binary so b) = Inr bn
    \<and> list_all2 (moved_to so b) (bn_syms bn) (bn_syms (binary so' b))
    \<and> syms' = fold add_symbol (bn_syms (binary so' b)) syms \<and> same_but {b} so so'"
proof -
  from assms(1) obtain bn where bn: "ELFBinary_ReadDynSymtab (so_filename_to_soname so) (binary so b) = Inr bn"
    and r: "rfold (LoadDynSymtab_step b (load_offset (set_binary b bn so) b)) [0..<length (bn_syms bn)]
        (syms, set_binary b bn so) = Inr (syms', so')" by (auto simp: Sold_LoadDynSymtab_def Let_def)
  have same: "same_but {b} so (set_binary b bn so)" by (rule same_but_set_binary) (rule ReadDynSymtab_tls [OF bn])
  have "bn_syms (binary (set_binary b bn so) b) = bn_syms bn" using assms(2) by (simp add: binary_set_binary)
  with LoadDynSymtab_loop [OF r] assms(2) obtain ts where
    "list_all2 (moved_to (set_binary b bn so) b) (bn_syms bn) ts" "bn_syms (binary so' b) = ts"
    "syms' = fold add_symbol ts syms" "same_but {b} (set_binary b bn so) so'"
    by (auto simp: set_binary_def)
  with bn same_but_trans [OF same, of "{b}" so'] moved_to_same [OF same] show ?thesis by auto
qed

lemma LoadDynSymtab_all:
  assumes "rfold Sold_LoadDynSymtab bs (syms, so) = Inr (syms', so')" and "distinct bs"
    and "\<forall>b \<in> set bs. b < length (so_bins so)"
  shows "(\<forall>b \<in> set bs. \<exists>bn. ELFBinary_ReadDynSymtab (so_filename_to_soname so) (binary so b) = Inr bn
        \<and> list_all2 (moved_to so b) (bn_syms bn) (bn_syms (binary so' b)))
    \<and> syms' = fold add_symbol (concat (map (\<lambda>b. bn_syms (binary so' b)) bs)) syms \<and> same_but (set bs) so so'"
  using assms
proof (induction bs arbitrary: syms so)
  case Nil
  then show ?case by (simp add: same_but_refl)
next
  case (Cons b bs)
  then obtain syms1 so1 where r: "Sold_LoadDynSymtab b (syms, so) = Inr (syms1, so1)"
    "rfold Sold_LoadDynSymtab bs (syms1, so1) = Inr (syms', so')" by auto
  from LoadDynSymtab_moves [OF r(1)] Cons.prems(3) obtain bn where
    bn: "ELFBinary_ReadDynSymtab (so_filename_to_soname so) (binary so b) = Inr bn"
      "list_all2 (moved_to so b) (bn_syms bn) (bn_syms (binary so1 b))"
      "syms1 = fold add_symbol (bn_syms (binary so1 b)) syms" and same: "same_but {b} so so1" by auto
  have IH: "(\<forall>c \<in> set bs. \<exists>bn. ELFBinary_ReadDynSymtab (so_filename_to_soname so1) (binary so1 c) = Inr bn
        \<and> list_all2 (moved_to so1 c) (bn_syms bn) (bn_syms (binary so' c)))
    \<and> syms' = fold add_symbol (concat (map (\<lambda>b. bn_syms (binary so' b)) bs)) syms1 \<and> same_but (set bs) so1 so'"
    using Cons.prems same by (intro Cons.IH [OF r(2)]) (auto simp: same_but_def)
  have b: "binary so' b = binary so1 b" using IH Cons.prems(2) by (simp add: same_but_def)
  have "binary so1 c = binary so c" if "c \<in> set bs" for c using same that Cons.prems(2) by (auto simp: same_but_def)
  moreover have "so_filename_to_soname so1 = so_filename_to_soname so" using same by (simp add: same_but_def)
  ultimately have "\<forall>c \<in> set bs. \<exists>bn. ELFBinary_ReadDynSymtab (so_filename_to_soname so) (binary so c) = Inr bn
        \<and> list_all2 (moved_to so c) (bn_syms bn) (bn_syms (binary so' c))"
    using IH moved_to_same [OF same] by simp
  with bn b IH same_but_trans [OF same, of "set bs" so'] show ?case by simp
qed


section \<open>An example\<close>

text \<open>Two objects, each with a hash table, the null symbol, a function \<open>f\<close> and the string table that names it.\<close>

definition sample_symbols_image :: image where
  "sample_symbols_image = concat (map (\<lambda>w :: u32. le_bytes 4 w) [1, 2, 1, 0, 0, 0]) @ replicate 24 0
     @ enc_Elf_Sym \<lparr>st_name = 1, st_info = 0x12, st_other = 0, st_shndx = 7, st_value = 0x30, st_size = 4\<rparr>
     @ [0, 0x66, 0]"

definition sample_symbols_library :: ELFBinary where
  "sample_symbols_library =
     sample_library\<lparr>bn_head := sample_symbols_image, bn_hash := Some 0, bn_symtab := Some 24, bn_strtab := Some 72\<rparr>"

definition sample_symbols :: Sold where
  "sample_symbols = sample_placed\<lparr>so_bins := [sample_symbols_library, sample_symbols_library]\<rparr>"

lemma sample_symbols_collects: "\<exists>so'. Sold_CollectSymbols sample_symbols = Inr so'"
proof -
  have "\<not> isl (Sold_CollectSymbols sample_symbols)" by code_simp
  then show ?thesis by (metis sum.collapse(2))
qed


end
