(* ===== verification/Relocation_Meaning.thy ===== *)
theory Relocation_Meaning
  imports Relocate Symbol_Collection
begin

text \<open>
  What the relocations of the output do when the program is loaded: the same as those of the linked objects
  would, had each object been loaded at its place in the output.
\<close>

section \<open>What the loader does\<close>

text \<open>
  The place a relocation writes to and the word it writes, in an object loaded at \<open>base\<close> whose symbol \<open>i\<close> is at the
  address \<open>symaddr i\<close> (System V ABI, AMD64 supplement); \<^const>\<open>None\<close> for the other types.
\<close>

definition loader_store :: "u64 \<Rightarrow> (u64 \<Rightarrow> u64) \<Rightarrow> Elf_Rel \<Rightarrow> (u64 \<times> u64) option" where
  "loader_store base symaddr r =
     (let type = ELF_R_TYPE (r_info r); i = ELF_R_SYM (r_info r)
      in if type = R_X86_64_RELATIVE then Some (base + r_offset r, base + r_addend r)
         else if type = R_X86_64_GLOB_DAT \<or> type = R_X86_64_JUMP_SLOT then Some (base + r_offset r, symaddr i)
         else if type = R_X86_64_64 then Some (base + r_offset r, symaddr i + r_addend r)
         else None)"

definition final_symaddr :: "(sym_key \<Rightarrow> u64) \<Rightarrow> Syminfo list \<Rightarrow> u64 \<Rightarrow> u64" where
  "final_symaddr addr exposed i = addr (si_key (exposed ! unat i))"

text \<open>The resolution of one symbol: a value of the output, or an index of its symbol table.\<close>

lemma resolved_meaning:
  assumes "reloc_resolve keep R_X86_64_RELATIVE type b s soname version newrel so = Inr (newrel', so')"
    and "rel_name b s so = Inr name" and "symtab_wf (so_syms so)"
    and "prefix (sm_exposed_syms (so_syms so')) exposed" and "length exposed < 2 ^ 32"
  shows "(IsDefined (denoted (so_syms so) name soname version)
      \<and> newrel' = newrel\<lparr>r_info := ELF_R_INFO 0 R_X86_64_RELATIVE,
            r_addend := (if keep then r_addend newrel else 0) + st_value (denoted (so_syms so) name soname version)\<rparr>)
    \<or> (\<exists>i. ELF_R_SYM (ELF_R_INFO i type) = i \<and> si_key (exposed ! unat i) = (name, soname, version)
        \<and> newrel' = newrel\<lparr>r_info := ELF_R_INFO i type\<rparr>)"
proof -
  obtain d v sm' where r: "SymtabBuilder_Resolve name soname version (so_syms so) = Inr ((d, v), sm')"
    and new: "newrel' = (if d then newrel\<lparr>r_info := ELF_R_INFO 0 R_X86_64_RELATIVE,
            r_addend := (if keep then r_addend newrel else 0) + v\<rparr> else newrel\<lparr>r_info := ELF_R_INFO v type\<rparr>)"
    and "so_syms so' = sm'"
    using assms(1,2) by (auto simp: reloc_resolve_def Let_def split: if_splits)
  with assms(4) have "prefix (sm_exposed_syms sm') exposed" by simp
  note final = symbols.resolve_final [OF assms(3) r this assms(5)]
  show ?thesis
  proof (cases d)
    case True
    with final new show ?thesis by simp
  next
    case False
    with final assms(5) have "unat v < 2 ^ 32" by simp
    then have "ELF_R_SYM (ELF_R_INFO v type) = v" by (rule ELF_R_SYM_INFO)
    with False final new have "ELF_R_SYM (ELF_R_INFO v type) = v \<and> si_key (exposed ! unat v) = (name, soname, version)
        \<and> newrel' = newrel\<lparr>r_info := ELF_R_INFO v type\<rparr>" by simp
    then show ?thesis by blast
  qed
qed

text \<open>
  C1: Loading the output writes what loading the linked object would. Take a relocation of an object placed at
  \<open>offset\<close> (relative, or against a symbol through the GOT, the PLT or a word), in a process where every symbol has
  an address, which for a symbol the output defines is its value in the output plus the address the output is loaded
  at. The relocation \<^verbatim>\<open>sold\<close> emits for it, applied to the output, writes the same word to the same place as the
  original one applied to the object at \<open>base + offset\<close>; the index it uses stays right while more symbols are exposed.
\<close>

theorem Relocation_meaning:
  assumes "reloc_entry_x86_64 b rel offset s soname version (rel\<lparr>r_offset := r_offset rel + offset\<rparr>) so = Inr (newrel, so')"
    and "rel_name b s so = Inr name" and "symtab_wf (so_syms so)"
    and "ELF_R_TYPE (r_info rel) \<in> {R_X86_64_RELATIVE, R_X86_64_GLOB_DAT, R_X86_64_JUMP_SLOT, R_X86_64_64}"
    and "IsDefined (denoted (so_syms so) name soname version) \<Longrightarrow>
           addr (name, soname, version) = base + st_value (denoted (so_syms so) name soname version)"
    and "prefix (sm_exposed_syms (so_syms so')) exposed" and "length exposed < 2 ^ 32"
  shows "loader_store base (final_symaddr addr exposed) newrel
    = loader_store (base + offset) (\<lambda>_. addr (name, soname, version)) rel"
proof -
  let ?type = "ELF_R_TYPE (r_info rel)" and ?new = "rel\<lparr>r_offset := r_offset rel + offset\<rparr>"
  have place: "base + (r_offset rel + offset) = base + offset + r_offset rel" by (simp add: algebra_simps)
  have word: "base + (r_addend rel + v) = base + v + r_addend rel" for v by (simp add: algebra_simps)
  show ?thesis
  proof (cases "?type = R_X86_64_RELATIVE")
    case True
    with assms(1) have "newrel = ?new\<lparr>r_addend := r_addend rel + offset\<rparr>" by (simp add: reloc_entry_x86_64_def Let_def)
    with True show ?thesis by (simp add: loader_store_def Let_def place)
  next
    case False
    with assms(4) have types: "?type = R_X86_64_GLOB_DAT \<or> ?type = R_X86_64_JUMP_SLOT \<or> ?type = R_X86_64_64" by blast
    define keep where keep: "keep \<longleftrightarrow> ?type = R_X86_64_64"
    have r: "reloc_resolve keep R_X86_64_RELATIVE ?type b s soname version ?new so = Inr (newrel, so')"
      using types assms(1) by (elim disjE) (simp_all add: reloc_entry_x86_64_def Let_def keep)
    from resolved_meaning [OF r assms(2,3,6,7)] show ?thesis
    proof (elim disjE exE conjE)
      assume "IsDefined (denoted (so_syms so) name soname version)"
        and new: "newrel = ?new\<lparr>r_info := ELF_R_INFO 0 R_X86_64_RELATIVE,
              r_addend := (if keep then r_addend ?new else 0) + st_value (denoted (so_syms so) name soname version)\<rparr>"
      then have "addr (name, soname, version) = base + st_value (denoted (so_syms so) name soname version)"
        using assms(5) by blast
      then show ?thesis using types
        by (elim disjE) (simp_all add: new keep loader_store_def Let_def ELF_R_TYPE_INFO place word)
    next
      fix i assume "ELF_R_SYM (ELF_R_INFO i ?type) = i" "si_key (exposed ! unat i) = (name, soname, version)"
        "newrel = ?new\<lparr>r_info := ELF_R_INFO i ?type\<rparr>"
      then show ?thesis using types
        by (elim disjE) (simp_all add: loader_store_def Let_def ELF_R_TYPE_INFO final_symaddr_def place)
    qed
  qed
qed

text \<open>A pointer to the function \<open>f\<close>, which no linked object defines, in an object placed at 0x1000.\<close>

definition sample_reloc :: Elf_Rel where
  "sample_reloc = \<lparr>r_offset = 16, r_info = ELF_R_INFO 1 R_X86_64_64, r_addend = 4\<rparr>"

definition sample_reloc_entry :: "(Elf_Rel \<times> Sold) res" where
  "sample_reloc_entry = rbind SymtabBuilder_new (\<lambda>sm.
     reloc_entry_x86_64 0 sample_reloc 0x1000 (null_sym\<lparr>st_name := 1\<rparr>) [] [] (sample_reloc\<lparr>r_offset := r_offset sample_reloc + 0x1000\<rparr>)
       (sample_symbols\<lparr>so_syms := sm\<rparr>))"

theorem Relocation_meaning_witness:
  "\<exists>newrel so'. sample_reloc_entry = Inr (newrel, so')
    \<and> loader_store 0x400000 (final_symaddr (\<lambda>_. 0x7000) (sm_exposed_syms (so_syms so'))) newrel = Some (0x401010, 0x7004)"
proof -
  obtain sm where sm: "SymtabBuilder_new = Inr sm" "symtab_wf sm" using SymtabBuilder_new_wf by blast
  have "\<not> isl sample_reloc_entry \<and> length (sm_exposed_syms (so_syms (snd (projr sample_reloc_entry)))) = 2" by code_simp
  then obtain newrel so' where r: "sample_reloc_entry = Inr (newrel, so')" and len: "length (sm_exposed_syms (so_syms so')) = 2"
    by (metis sum.collapse(2) prod.collapse)
  have "rel_name 0 (null_sym\<lparr>st_name := 1\<rparr>) (sample_symbols\<lparr>so_syms := sm\<rparr>) = Inr ''f''"
  proof -
    have "ELFBinary_Str 1 sample_symbols_library = Inr ''f''" by code_simp
    then show ?thesis by (simp add: rel_name_def sample_symbols_def binary_def)
  qed
  moreover have "\<not> IsDefined (denoted sm ''f'' [] [])"
    using sm(1) by (auto simp: SymtabBuilder_new_def SymtabBuilder_AddSym_def SymtabBuilder_emplace_def
        denoted_def lookup_src_def Let_def IsDefined_def null_sym_def)
  moreover have run: "reloc_entry_x86_64 0 sample_reloc 0x1000 (null_sym\<lparr>st_name := 1\<rparr>) [] []
      (sample_reloc\<lparr>r_offset := r_offset sample_reloc + 0x1000\<rparr>) (sample_symbols\<lparr>so_syms := sm\<rparr>) = Inr (newrel, so')"
    using r unfolding sample_reloc_entry_def sm(1) rbind.simps .
  ultimately have "loader_store 0x400000 (final_symaddr (\<lambda>_. 0x7000) (sm_exposed_syms (so_syms so'))) newrel
      = loader_store (0x400000 + 0x1000) (\<lambda>_. 0x7000) sample_reloc"
    using run sm len
    by (intro Relocation_meaning [where b = 0 and soname = "[]" and version = "[]" and name = "''f''" and so' = so'
          and s = "null_sym\<lparr>st_name := 1\<rparr>" and so = "sample_symbols\<lparr>so_syms := sm\<rparr>"])
      (simp_all add: sample_reloc_def ELF_R_TYPE_INFO)
  also have "\<dots> = Some (0x401010, 0x7004)" by (simp add: sample_reloc_def loader_store_def ELF_R_TYPE_INFO)
  finally show ?thesis using r by blast
qed

end
