(* ===== verification/Elf_Wf.thy ===== *)
theory Elf_Wf
  imports Symbol_Collection
begin

text \<open>
  What the reader of \<^verbatim>\<open>elf_binary.cc\<close> establishes for every file it accepts: the segment lists agree with the program
  headers, the vectors of the exception frame header have the lengths its count promises, and the symbol list is
  parallel to the symbols it was read from.
\<close>

section \<open>The invariant\<close>

definition eh_wf :: "EHFrameHeader \<Rightarrow> bool" where
  "eh_wf h \<longleftrightarrow> length (eh_fdes h) = length (eh_table h) \<and> length (eh_cies h) = length (eh_table h)
     \<and> unat (eh_fde_count h) \<le> length (eh_table h)"

definition last_of_type :: "u32 \<Rightarrow> Elf_Phdr list \<Rightarrow> Elf_Phdr option" where
  "last_of_type t ps = (let qs = filter (\<lambda>p. p_type p = t) ps in if qs = [] then None else Some (last qs))"

definition segments_wf :: "ELFBinary \<Rightarrow> bool" where
  "segments_wf bn \<longleftrightarrow> bn_loads bn = filter (\<lambda>p. p_type p = PT_LOAD) (bn_phdrs bn)
     \<and> bn_tls bn = last_of_type PT_TLS (bn_phdrs bn)"

definition elf_wf :: "ELFBinary \<Rightarrow> bool" where
  "elf_wf bn \<longleftrightarrow> segments_wf bn \<and> eh_wf (bn_eh_frame_header bn) \<and> bn_phdrs bn \<noteq> []
     \<and> length (bn_phdrs bn) = unat (e_phnum (bn_ehdr bn)) \<and> e_type (bn_ehdr bn) = ET_DYN"

text \<open>What the later passes over the program headers leave alone.\<close>

definition same_segments :: "ELFBinary \<Rightarrow> ELFBinary \<Rightarrow> bool" where
  "same_segments bn bn' \<longleftrightarrow> bn_phdrs bn' = bn_phdrs bn \<and> bn_loads bn' = bn_loads bn \<and> bn_tls bn' = bn_tls bn
     \<and> bn_ehdr bn' = bn_ehdr bn"

lemma same_segments_refl [simp]: "same_segments bn bn"
  by (simp add: same_segments_def)

lemma same_segments_trans: "same_segments a b \<Longrightarrow> same_segments b c \<Longrightarrow> same_segments a c"
  by (simp add: same_segments_def)

definition passes :: "ELFBinary \<Rightarrow> ELFBinary \<Rightarrow> bool" where
  "passes bn bn' \<longleftrightarrow> same_segments bn bn' \<and> (eh_wf (bn_eh_frame_header bn) \<longrightarrow> eh_wf (bn_eh_frame_header bn'))"

lemma passes_refl [simp]: "passes bn bn"
  by (simp add: passes_def)

lemma passes_trans: "passes a b \<Longrightarrow> passes b c \<Longrightarrow> passes a c"
  by (auto simp: passes_def intro: same_segments_trans)

lemma passes_rfold:
  assumes "rfold f xs bn = Inr bn'" "\<And>x b b'. f x b = Inr b' \<Longrightarrow> passes b b'"
  shows "passes bn bn'"
  using assms(1) by (rule rfold_inv [where P = "passes bn"]) (auto intro: passes_trans assms(2))

section \<open>Dynamic section and exception frames\<close>

lemma ParseDynamic_entry_passes: "ParseDynamic_entry dyn bn = Inr bn' \<Longrightarrow> passes bn bn'"
  unfolding ParseDynamic_entry_def Let_def
  by (auto simp: passes_def same_segments_def split: if_splits)

lemma ParseDynamic_name_passes: "ParseDynamic_name dyn bn = Inr bn' \<Longrightarrow> passes bn bn'"
  unfolding ParseDynamic_name_def Let_def
  by (auto simp: passes_def same_segments_def split: if_splits)

lemma ParseDynamic_passes:
  assumes "ELFBinary_ParseDynamic off sz bn = Inr bn'"
  shows "passes bn bn'"
proof -
  obtain bn1 ia fa where
    first: "rfold (\<lambda>i bn. rbind (read_dyn bn off i) (\<lambda>dyn. ParseDynamic_entry dyn bn)) [0..<unat sz div 16] bn = Inr bn1"
    and second: "rfold (\<lambda>i bn. rbind (read_dyn bn off i) (\<lambda>dyn. ParseDynamic_name dyn bn)) [0..<unat sz div 16]
      (bn1\<lparr>bn_init_array := ia, bn_fini_array := fa\<rparr>) = Inr bn'"
    using assms unfolding ELFBinary_ParseDynamic_def Let_def by (auto split: if_splits)
  have "passes bn bn1" by (rule passes_rfold [OF first]) (auto dest: ParseDynamic_entry_passes)
  moreover have "passes bn1 (bn1\<lparr>bn_init_array := ia, bn_fini_array := fa\<rparr>)"
    by (simp add: passes_def same_segments_def)
  moreover have "passes (bn1\<lparr>bn_init_array := ia, bn_fini_array := fa\<rparr>) bn'"
    by (rule passes_rfold [OF second]) (auto dest: ParseDynamic_name_passes)
  ultimately show ?thesis by (blast intro: passes_trans)
qed

lemma ParseEHFrame_entry_lengths:
  assumes "ParseEHFrame_entry hd_addr off i bn h = Inr h'"
  shows "length (eh_table h') = Suc (length (eh_table h)) \<and> length (eh_fdes h') = Suc (length (eh_fdes h))
    \<and> length (eh_cies h') = Suc (length (eh_cies h)) \<and> eh_fde_count h' = eh_fde_count h"
  using assms unfolding ParseEHFrame_entry_def Let_def by clarsimp

lemma ParseEHFrame_entries_lengths:
  "rfold (\<lambda>i h. ParseEHFrame_entry hd_addr off i bn h) is h = Inr h' \<Longrightarrow>
    length (eh_table h') = length is + length (eh_table h) \<and> length (eh_fdes h') = length is + length (eh_fdes h)
    \<and> length (eh_cies h') = length is + length (eh_cies h) \<and> eh_fde_count h' = eh_fde_count h"
proof (induction "is" arbitrary: h)
  case (Cons i "is")
  then obtain h1 where "ParseEHFrame_entry hd_addr off i bn h = Inr h1"
    "rfold (\<lambda>i h. ParseEHFrame_entry hd_addr off i bn h) is h1 = Inr h'" by auto
  then show ?case using Cons.IH ParseEHFrame_entry_lengths by fastforce
qed simp

lemma ParseEHFrameHeader_passes:
  assumes "ELFBinary_ParseEHFrameHeader hd_addr off sz bn = Inr bn'"
  shows "passes bn bn'"
  using assms unfolding ELFBinary_ParseEHFrameHeader_def Let_def
  by (clarsimp simp: passes_def same_segments_def eh_wf_def dest!: ParseEHFrame_entries_lengths)

section \<open>Program headers\<close>

lemma last_of_type_append:
  "last_of_type t (ps @ [p]) = (if p_type p = t then Some p else last_of_type t ps)"
  by (simp add: last_of_type_def Let_def)

lemma ParsePhdrs_collect_segments:
  assumes "ParsePhdrs_collect i bn = Inr bn'" "segments_wf bn"
  shows "segments_wf bn' \<and> length (bn_phdrs bn') = Suc (length (bn_phdrs bn))
    \<and> bn_ehdr bn' = bn_ehdr bn \<and> bn_eh_frame_header bn' = bn_eh_frame_header bn"
proof -
  obtain p where "bn' = (let b = bn\<lparr>bn_phdrs := bn_phdrs bn @ [p]\<rparr>
      in if p_type p = PT_LOAD then b\<lparr>bn_loads := bn_loads b @ [p]\<rparr>
         else if p_type p = PT_TLS then b\<lparr>bn_tls := Some p\<rparr> else b)"
    using assms(1) unfolding ParsePhdrs_collect_def Let_def rbind_Inr_iff by blast
  then show ?thesis using assms(2) by (simp add: segments_wf_def last_of_type_append Let_def)
qed

lemma ParsePhdrs_collect_all:
  "rfold ParsePhdrs_collect is bn = Inr bn' \<Longrightarrow> segments_wf bn \<Longrightarrow>
    segments_wf bn' \<and> length (bn_phdrs bn') = length is + length (bn_phdrs bn)
    \<and> bn_ehdr bn' = bn_ehdr bn \<and> bn_eh_frame_header bn' = bn_eh_frame_header bn"
proof (induction "is" arbitrary: bn)
  case (Cons i "is")
  then obtain b where "ParsePhdrs_collect i bn = Inr b" "rfold ParsePhdrs_collect is b = Inr bn'" by auto
  then show ?case using Cons.IH [of b] ParsePhdrs_collect_segments [of i bn b] Cons.prems by simp
qed simp

lemma ParsePhdrs_dispatch_passes: "ParsePhdrs_dispatch hd_addr p bn = Inr bn' \<Longrightarrow> passes bn bn'"
  unfolding ParsePhdrs_dispatch_def
  by (auto split: if_splits dest: ParseDynamic_passes ParseEHFrameHeader_passes)
    (simp_all add: passes_def same_segments_def)

lemma ParsePhdrs_wf:
  assumes r: "ELFBinary_ParsePhdrs hd_addr bn = Inr bn'" and bn: "segments_wf bn" "bn_phdrs bn = []"
    "eh_wf (bn_eh_frame_header bn)" "e_type (bn_ehdr bn) = ET_DYN"
  shows "elf_wf bn'"
proof -
  obtain bn1 bn2 bn3 where
    first: "rfold ParsePhdrs_collect [0..<unat (e_phnum (bn_ehdr bn))] bn = Inr bn1"
    and second: "rfold (ParsePhdrs_dispatch hd_addr) (bn_phdrs bn1) bn1 = Inr bn2"
    and init: "(case bn_init_array_offset bn2 of None \<Rightarrow> Inr bn2
      | Some off \<Rightarrow> rbind (ELFBinary_AddrFromOffset off bn2) (\<lambda>a. Inr (bn2\<lparr>bn_init_array_addr := a\<rparr>))) = Inr bn3"
    and fini: "(case bn_fini_array_offset bn3 of None \<Rightarrow> Inr bn3
      | Some off \<Rightarrow> rbind (ELFBinary_AddrFromOffset off bn3) (\<lambda>a. Inr (bn3\<lparr>bn_fini_array_addr := a\<rparr>))) = Inr bn'"
    and ne: "bn_phdrs bn' \<noteq> []"
    using r unfolding ELFBinary_ParsePhdrs_def rbind_Inr_iff by auto
  have "passes bn2 bn3" using init by (auto simp: passes_def same_segments_def split: option.splits)
  moreover have "passes bn3 bn'" using fini by (auto simp: passes_def same_segments_def split: option.splits)
  ultimately have third: "passes bn2 bn'" by (rule passes_trans)
  have "passes bn1 bn2" by (rule passes_rfold [OF second]) (rule ParsePhdrs_dispatch_passes)
  with third have "passes bn1 bn'" by (blast intro: passes_trans)
  with ParsePhdrs_collect_all [OF first bn(1)] bn ne show ?thesis
    by (auto simp: elf_wf_def passes_def same_segments_def segments_wf_def)
qed

lemma ELFBinary_new_wf: "ELFBinary_new hd_addr filename head mapped_size filesize = Inr bn \<Longrightarrow> elf_wf bn"
  unfolding ELFBinary_new_def Let_def
  by (auto intro!: ParsePhdrs_wf simp: ELFBinary_init_def segments_wf_def last_of_type_def EHFrameHeader_zero_def eh_wf_def)

lemma ReadELF_elf_wf: "ReadELF hd_addr fs filename = Inr (Some bn) \<Longrightarrow> elf_wf bn"
  unfolding ReadELF_def Let_def by (auto split: option.splits if_splits dest: ELFBinary_new_wf)


text \<open>A file of an ELF header and one \<^verbatim>\<open>PT_NOTE\<close> header.\<close>

definition sample_ehdr :: Elf_Ehdr where
  "sample_ehdr = \<lparr>e_ident = 0x010102464c457f, e_type = ET_DYN, e_machine = EM_X86_64, e_version = 1, e_entry = 0,
     e_phoff = 64, e_shoff = 0, e_flags = 0, e_ehsize = 64, e_phentsize = 56, e_phnum = 1, e_shentsize = 0,
     e_shnum = 0, e_shstrndx = 0\<rparr>"

definition sample_note :: Elf_Phdr where
  "sample_note = \<lparr>p_type = PT_NOTE, p_flags = 0, p_offset = 0, p_vaddr = 0, p_paddr = 0, p_filesz = 0, p_memsz = 0,
     p_align = 0\<rparr>"

definition sample_file :: "u8 list" where
  "sample_file = enc_Elf_Ehdr sample_ehdr @ enc_Elf_Phdr sample_note"

lemma sample_file_magic: "length sample_file = 120" "take 6 sample_file = [0x7f, 0x45, 0x4c, 0x46, 2, 1]"
  by (simp add: sample_file_def ehdr.enc_length phdr.enc_length) code_simp

lemma sample_file_new: "\<exists>bn. ELFBinary_new 0 f (sample_file @ z) m n = Inr bn"
proof -
  let ?head = "sample_file @ z"
  let ?bn = "(ELFBinary_init f ?head m n sample_ehdr)\<lparr>bn_name := basename f\<rparr>"
  have "sample_file ! 5 = take 6 sample_file ! 5" by simp
  then have "?head ! 5 = 1" by (simp only: sample_file_magic nth_append) simp
  moreover have "read_struct dec_Elf_Ehdr 64 ?head 0 = Inr sample_ehdr"
    using ehdr.read_one [of 0 "[]"] by (simp add: sample_file_def)
  moreover have "read_phdr ?bn 0 = Inr sample_note"
    using phdr.read_one [of 64 "enc_Elf_Ehdr sample_ehdr" sample_note z]
    by (simp add: read_phdr_def ELFBinary_init_def sample_file_def sample_ehdr_def ehdr.enc_length)
  ultimately show ?thesis
    by (simp add: ELFBinary_new_def ELFBinary_ParsePhdrs_def ParsePhdrs_collect_def ParsePhdrs_dispatch_def
        sample_ehdr_def sample_note_def ELFBinary_init_def)
qed


section \<open>The symbol list\<close>

text \<open>An entry of the list is the symbol at its pointer, under the name the string table has for it.\<close>

definition symbol_read :: "ELFBinary \<Rightarrow> u64 \<Rightarrow> Syminfo \<Rightarrow> bool" where
  "symbol_read bn p s \<longleftrightarrow>
     (\<exists>y. read_struct dec_Elf_Sym 24 (bn_head bn) p = Inr y \<and> si_sym s = Some y \<and> st_name y \<noteq> 0
        \<and> ELFBinary_Str (ucast (st_name y)) bn = Inr (si_name s))"

definition symbols_wf :: "ELFBinary \<Rightarrow> bool" where
  "symbols_wf bn \<longleftrightarrow> bn_nsyms bn = length (bn_syms bn) \<and> distinct (map si_key (bn_syms bn))
     \<and> list_all2 (symbol_read bn) (bn_sym_ptrs bn) (bn_syms bn)"

definition no_symbols :: "ELFBinary \<Rightarrow> bool" where
  "no_symbols bn \<longleftrightarrow> bn_syms bn = [] \<and> bn_sym_ptrs bn = [] \<and> bn_nsyms bn = 0"

lemma symbol_read_cong:
  "bn_head b = bn_head bn \<Longrightarrow> bn_strtab b = bn_strtab bn \<Longrightarrow> symbol_read b = symbol_read bn"
  by (simp add: symbol_read_def ELFBinary_Str_def fun_eq_iff cong: option.case_cong)

text \<open>Only the symbols of the object change.\<close>

definition only_symbols :: "ELFBinary \<Rightarrow> ELFBinary \<Rightarrow> bool" where
  "only_symbols bn b \<longleftrightarrow> (\<exists>n ps ss. b = bn\<lparr>bn_nsyms := n, bn_sym_ptrs := ps, bn_syms := ss\<rparr>)"

lemma only_symbols_refl: "only_symbols bn bn"
  unfolding only_symbols_def by (intro exI [of _ "bn_nsyms bn"] exI [of _ "bn_sym_ptrs bn"] exI [of _ "bn_syms bn"]) simp

lemma only_symbols_trans: "only_symbols a b \<Longrightarrow> only_symbols b c \<Longrightarrow> only_symbols a c"
  by (clarsimp simp: only_symbols_def) blast

lemma symbols_wf_no_symbols: "no_symbols bn \<Longrightarrow> symbols_wf bn"
  by (simp add: symbols_wf_def no_symbols_def)

lemma ReadDynSymtab_step_wf:
  assumes "ReadDynSymtab_step m symtab idx (dc, bn) = Inr (dc', bn')"
    and "symbols_wf bn" "set dc = si_key ` set (bn_syms bn)"
  shows "symbols_wf bn' \<and> set dc' = si_key ` set (bn_syms bn') \<and> only_symbols bn bn'"
proof -
  obtain s where s: "sym_at bn symtab idx = Inr s" using assms(1) by (auto simp: ReadDynSymtab_step_def)
  show ?thesis
  proof (cases "st_name s = 0")
    case True
    then show ?thesis using assms s by (simp add: ReadDynSymtab_step_def only_symbols_refl)
  next
    case False
    with assms(1) s obtain symname soname version v where
      "ELFBinary_Str (ucast (st_name s)) bn = Inr symname" and new: "(symname, soname, version) \<notin> set dc"
      and dc': "dc' = (symname, soname, version) # dc"
      and bn': "bn' = bn\<lparr>bn_nsyms := bn_nsyms bn + 1, bn_sym_ptrs := bn_sym_ptrs bn @ [symtab + of_int (24 * idx)],
        bn_syms := bn_syms bn @ [\<lparr>si_name = symname, si_soname = soname, si_version = version,
          si_versym = v, si_sym = Some s\<rparr>]\<rparr>"
      by (auto simp: ReadDynSymtab_step_def)
    moreover from this have "symbol_read bn (symtab + of_int (24 * idx)) \<lparr>si_name = symname, si_soname = soname,
        si_version = version, si_versym = v, si_sym = Some s\<rparr>"
      using s False by (simp add: symbol_read_def sym_at_def)
    moreover have "symbol_read bn' = symbol_read bn" by (rule symbol_read_cong) (simp_all add: bn')
    moreover have "only_symbols bn bn'" unfolding only_symbols_def bn' by blast
    ultimately show ?thesis using assms(2,3)
      by (auto simp: symbols_wf_def si_key_def list_all2_appendI)
  qed
qed

text \<open>
  C24: \<^verbatim>\<open>ReadDynSymtab\<close> fills the symbol list of an object well-typed: its count is its length, every entry is the named
  symbol at its own pointer into the symbol table, and no two entries have the same name, file and version.
  Nothing else of the object changes.
\<close>
theorem ReadDynSymtab_wf:
  assumes "ELFBinary_ReadDynSymtab filename_to_soname bn = Inr bn'" and "no_symbols bn"
  shows "symbols_wf bn' \<and> only_symbols bn bn'"
proof -
  obtain symtab indices dc where
    r: "rfold (ReadDynSymtab_step filename_to_soname symtab) indices ([], bn) = Inr (dc, bn')"
    using assms(1) by (auto simp: ELFBinary_ReadDynSymtab_def split: option.splits)
  let ?P = "\<lambda>(d, b). symbols_wf b \<and> set d = si_key ` set (bn_syms b) \<and> only_symbols bn b"
  have "?P (dc, bn')" using r
  proof (rule rfold_inv)
    show "?P ([], bn)" using assms(2) symbols_wf_no_symbols by (simp add: no_symbols_def only_symbols_refl)
    show "?P t'" if "?P t" "ReadDynSymtab_step filename_to_soname symtab x t = Inr t'" for x t t'
      using that by (cases t; cases t') (auto dest: ReadDynSymtab_step_wf intro: only_symbols_trans)
  qed
  then show ?thesis by simp
qed

theorem ReadDynSymtab_wf_witness:
  "\<exists>bn'. ELFBinary_ReadDynSymtab Map.empty sample_symbols_library = Inr bn' \<and> symbols_wf bn'"
proof -
  have "\<not> isl (ELFBinary_ReadDynSymtab Map.empty sample_symbols_library)" by code_simp
  then obtain bn' where "ELFBinary_ReadDynSymtab Map.empty sample_symbols_library = Inr bn'"
    by (metis sum.collapse(2))
  moreover have "no_symbols sample_symbols_library" by code_simp
  ultimately show ?thesis using ReadDynSymtab_wf by blast
qed

end
