(* ===== verification/Renamer.thy ===== *)
theory Renamer
  imports Strtab Hash Library_Search Elf_Symbols
begin

text \<open>
  The second program, \<^verbatim>\<open>renamer_main.cc\<close>: it reads an object, replaces names of dynamic symbols as a mapping
  file says, and writes the object again with a new string table and a new \<^verbatim>\<open>.gnu.hash\<close> at its end, for
  which it uses up the last \<^verbatim>\<open>PT_NOTE\<close> header. \<^verbatim>\<open>getopt_long\<close> is a parameter: the functions below
  take the options and operands it finds. The output stream starts empty; that \<^verbatim>\<open>fopen\<close> succeeds is assumed.
\<close>

section \<open>The mapping file\<close>

text \<open>The lines \<^verbatim>\<open>std::getline\<close> reads, one after another.\<close>

function file_lines :: "string \<Rightarrow> string list" where
  "file_lines f =
     (if f = [] then []
      else takeWhile (\<lambda>c. c \<noteq> CHR 0x0A) f # file_lines (tl (dropWhile (\<lambda>c. c \<noteq> CHR 0x0A) f)))"
  by pat_completeness auto
termination
proof (relation "measure length")
  fix f :: string assume "f \<noteq> []"
  moreover have "length (dropWhile (\<lambda>c. c \<noteq> CHR 0x0A) f) \<le> length f" by (rule length_dropWhile_le)
  ultimately show "(tl (dropWhile (\<lambda>c. c \<noteq> CHR 0x0A) f), f) \<in> measure length" by (cases f) auto
qed simp

declare file_lines.simps [simp del]

definition ReadMapping_step ::
  "string \<Rightarrow> string set \<times> string set \<times> (string \<rightharpoonup> string) \<Rightarrow> (string set \<times> string set \<times> (string \<rightharpoonup> string)) res" where
  "ReadMapping_step line = (\<lambda>(froms, tos, m).
     (let from = fst (get_word line); to = fst (get_word (snd (get_word line)))
      in rbind (CHECK (from \<noteq> [] \<and> to \<noteq> [])) (\<lambda>_.
         rbind (CHECK (from \<notin> froms)) (\<lambda>_.
         rbind (CHECK (to \<notin> tos)) (\<lambda>_.
         Inr (insert from froms, insert to tos, m(from \<mapsto> to)))))))"

definition ReadMappingFile :: "world \<Rightarrow> string \<Rightarrow> (string \<rightharpoonup> string) res" where
  "ReadMappingFile w file =
     (case w_files w file of
        None \<Rightarrow> Inl CHECK_failed
      | Some contents \<Rightarrow>
          rbind (rfold ReadMapping_step (file_lines (map char_of_u8 contents)) ({}, {}, Map.empty))
            (\<lambda>(_, _, m). Inr m))"

datatype PhdrInsertStrategy = kPT_NOTE

definition PhdrInsertStrategyFromString :: "string \<Rightarrow> PhdrInsertStrategy res" where
  "PhdrInsertStrategyFromString str = (if str = ''PT_NOTE'' then Inr kPT_NOTE else Inl LOG_FATAL)"

section \<open>Names\<close>

text \<open>Writing through a pointer into the mapped file.\<close>

definition poke_head :: "u64 \<Rightarrow> u8 list \<Rightarrow> ELFBinary \<Rightarrow> ELFBinary res" where
  "poke_head p bs bn = rbind (write_bytes (bn_head bn) p bs) (\<lambda>head. Inr (bn\<lparr>bn_head := head\<rparr>))"

text \<open>The string table of the output, the object and the names of its symbols.\<close>

definition Rename_symbol ::
  "(string \<rightharpoonup> string) \<Rightarrow> int \<Rightarrow> StrtabBuilder \<times> ELFBinary \<times> string list \<Rightarrow> (StrtabBuilder \<times> ELFBinary \<times> string list) res"
where
  "Rename_symbol mapping i = (\<lambda>(st, bn, sym_names).
     case bn_symtab bn of
       None \<Rightarrow> Inl Bad_access
     | Some symtab \<Rightarrow>
         rbind (sym_at bn symtab i) (\<lambda>s.
         rbind (ELFBinary_Str (ucast (st_name s)) bn) (\<lambda>n.
         rbind (StrtabBuilder_Add n st) (\<lambda>(_, st).
         rbind (StrtabBuilder_GetPos n st) (\<lambda>pos.
         rbind (poke_head (symtab + of_int (24 * i)) (le_bytes 4 (ucast pos :: u32)) bn) (\<lambda>bn.
         Inr (st, bn, sym_names @ [case mapping n of None \<Rightarrow> n | Some t \<Rightarrow> t])))))))"

text \<open>The set of indices is the sorted list of its elements; it must be all of [0, n).\<close>

definition check_indices :: "int list \<Rightarrow> unit res" where
  "check_indices indices =
     (if indices = [] then Inl Undefined
      else rbind (CHECK (hd indices = 0)) (\<lambda>_. CHECK (last indices + 1 = int (length indices))))"

definition Rename_symbols ::
  "(string \<rightharpoonup> string) \<Rightarrow> int list \<Rightarrow> StrtabBuilder \<times> ELFBinary \<Rightarrow> (StrtabBuilder \<times> ELFBinary \<times> string list) res" where
  "Rename_symbols mapping indices = (\<lambda>(st, bn).
     rbind (rfold (Rename_symbol mapping) indices (st, bn, [])) (\<lambda>(st, bn, sym_names).
     rbind (CHECK (distinct sym_names)) (\<lambda>_. Inr (st, bn, sym_names))))"

section \<open>Strings of the dynamic section and of the versions\<close>

text \<open>The program headers and the entries of a dynamic segment, read where the pointers point.\<close>

definition phdr_ptr :: "ELFBinary \<Rightarrow> nat \<Rightarrow> u64" where
  "phdr_ptr bn i = e_phoff (bn_ehdr bn) + of_nat (56 * i)"

definition phdr_at :: "ELFBinary \<Rightarrow> nat \<Rightarrow> Elf_Phdr res" where
  "phdr_at bn i = read_struct dec_Elf_Phdr 56 (bn_head bn) (phdr_ptr bn i)"

definition each_dyn :: "(u64 \<Rightarrow> Elf_Dyn \<Rightarrow> 's \<times> ELFBinary \<Rightarrow> ('s \<times> ELFBinary) res) \<Rightarrow> Elf_Phdr \<Rightarrow> 's \<times> ELFBinary
    \<Rightarrow> ('s \<times> ELFBinary) res" where
  "each_dyn f p s =
     (if p_type p = PT_DYNAMIC then
        rbind (CHECK (p_filesz p mod 16 = 0)) (\<lambda>_.
        rfold (\<lambda>i s.
            let ptr = p_offset p + of_nat (16 * i)
            in rbind (read_struct dec_Elf_Dyn 16 (bn_head (snd s)) ptr) (\<lambda>dyn. f ptr dyn s))
          [0..<unat (p_filesz p div 16)] s)
      else Inr s)"

definition Rename_dyn :: "u64 \<Rightarrow> Elf_Dyn \<Rightarrow> StrtabBuilder \<times> ELFBinary \<Rightarrow> (StrtabBuilder \<times> ELFBinary) res" where
  "Rename_dyn ptr dyn = (\<lambda>(st, bn).
     if d_tag dyn = DT_NEEDED \<or> d_tag dyn = DT_SONAME then
       rbind (ELFBinary_Str (d_val dyn) bn) (\<lambda>s.
       rbind (StrtabBuilder_Add s st) (\<lambda>(pos, st).
       rbind (poke_head (ptr + 8) (le_bytes 8 pos) bn) (\<lambda>bn. Inr (st, bn))))
     else Inr (st, bn))"

definition Rename_dynamic :: "StrtabBuilder \<times> ELFBinary \<Rightarrow> (StrtabBuilder \<times> ELFBinary) res" where
  "Rename_dynamic s =
     rfold (\<lambda>i s. rbind (phdr_at (snd s) i) (\<lambda>p. each_dyn Rename_dyn p s)) [0..<length (bn_phdrs (snd s))] s"

text \<open>A \<^verbatim>\<open>vn_file\<close> or \<^verbatim>\<open>vna_name\<close> at \<open>ptr\<close> is replaced by the position of its string in the new table.\<close>

definition Rename_string :: "u64 \<Rightarrow> u32 \<Rightarrow> StrtabBuilder \<times> ELFBinary \<Rightarrow> (StrtabBuilder \<times> ELFBinary) res" where
  "Rename_string ptr name = (\<lambda>(st, bn).
     rbind (ELFBinary_Str (ucast name) bn) (\<lambda>s.
     rbind (StrtabBuilder_Add s st) (\<lambda>(pos, st).
     rbind (poke_head ptr (le_bytes 4 (ucast pos :: u32)) bn) (\<lambda>bn. Inr (st, bn)))))"

fun Rename_vernaux :: "nat \<Rightarrow> u64 \<Rightarrow> StrtabBuilder \<times> ELFBinary \<Rightarrow> (StrtabBuilder \<times> ELFBinary) res" where
  "Rename_vernaux 0 vna s = Inr s"
| "Rename_vernaux (Suc n) vna s =
     rbind (read_struct dec_Elf_Vernaux 16 (bn_head (snd s)) vna) (\<lambda>a.
     rbind (Rename_string (vna + 8) (vna_name a) s) (\<lambda>s.
     rbind (read_struct dec_Elf_Vernaux 16 (bn_head (snd s)) vna) (\<lambda>a.
     Rename_vernaux n (vna + ucast (vna_next a)) s)))"

fun Rename_verneed :: "nat \<Rightarrow> u64 \<Rightarrow> StrtabBuilder \<times> ELFBinary \<Rightarrow> (StrtabBuilder \<times> ELFBinary) res" where
  "Rename_verneed 0 vn s = Inr s"
| "Rename_verneed (Suc n) vn s =
     rbind (read_struct dec_Elf_Verneed 16 (bn_head (snd s)) vn) (\<lambda>v.
     rbind (Rename_string (vn + 4) (vn_file v) s) (\<lambda>s.
     rbind (Rename_vernaux (unat (vn_cnt v)) (vn + ucast (vn_aux v)) s) (\<lambda>s.
     rbind (read_struct dec_Elf_Verneed 16 (bn_head (snd s)) vn) (\<lambda>v.
     Rename_verneed n (vn + ucast (vn_next v)) s))))"

definition Rename_version :: "int \<Rightarrow> StrtabBuilder \<times> ELFBinary \<Rightarrow> (StrtabBuilder \<times> ELFBinary) res" where
  "Rename_version index s =
     (let bn = snd s
      in case (bn_verneed bn, bn_versym bn) of
           (Some vn, Some versym) \<Rightarrow>
             rbind (versym_at bn versym index) (\<lambda>v.
             if is_special_ver_ndx v then Inr s else Rename_verneed (unat (bn_verneednum bn)) vn s)
         | _ \<Rightarrow> Inr s)"

section \<open>Addresses\<close>

definition end_vaddr :: "Elf_Phdr list \<Rightarrow> u64" where
  "end_vaddr phdrs = fold (\<lambda>p a. max a (AlignNext (p_vaddr p + p_memsz p))) phdrs 0"

definition rename_gnu_hash :: Elf_GnuHash where
  "rename_gnu_hash = \<lparr>gh_nbuckets = 1, gh_symndx = 1, gh_maskwords = 1, gh_shift2 = 1\<rparr>"

definition gnu_hash_filesize :: "string list \<Rightarrow> u64" where
  "gnu_hash_filesize sym_names = 4 * 4 + 8 + 4 * (1 + of_nat (length sym_names) - ucast (gh_symndx rename_gnu_hash))"

definition str_phdr :: "u64 \<Rightarrow> u64 \<Rightarrow> u64 \<Rightarrow> Elf_Phdr" where
  "str_phdr fileoffset vaddr sz =
     \<lparr>p_type = PT_LOAD, p_flags = PF_R, p_offset = fileoffset, p_vaddr = vaddr, p_paddr = vaddr,
      p_filesz = sz, p_memsz = sz, p_align = 0x1000\<rparr>"

definition rfind_last :: "('a \<Rightarrow> bool) \<Rightarrow> 'a list \<Rightarrow> nat option" where
  "rfind_last P xs = fold (\<lambda>i found. if P (xs ! i) then Some i else found) [0..<length xs] None"

definition insert_phdr :: "Elf_Phdr list \<Rightarrow> Elf_Phdr \<Rightarrow> ELFBinary \<Rightarrow> ELFBinary res" where
  "insert_phdr phdrs p bn =
     (case rfind_last (\<lambda>p. p_type p = PT_NOTE) phdrs of
        None \<Rightarrow> Inl CHECK_failed
      | Some i \<Rightarrow> poke_head (phdr_ptr bn i) (enc_Elf_Phdr p) bn)"

definition Rename_addr :: "u64 \<Rightarrow> u64 \<Rightarrow> u64 \<Rightarrow> Elf_Dyn \<Rightarrow> stream \<times> ELFBinary \<Rightarrow> (stream \<times> ELFBinary) res" where
  "Rename_addr strtab_vaddr gnu_hash_vaddr ptr dyn = (\<lambda>(fp, bn).
     if d_tag dyn = DT_STRTAB then rbind (poke_head (ptr + 8) (le_bytes 8 strtab_vaddr) bn) (\<lambda>bn. Inr (fp, bn))
     else if d_tag dyn = DT_GNU_HASH then rbind (poke_head (ptr + 8) (le_bytes 8 gnu_hash_vaddr) bn) (\<lambda>bn. Inr (fp, bn))
     else if d_tag dyn = DT_HASH then Inl LOG_FATAL
     else Inr (fp, bn))"

definition Rename_phdr :: "u64 \<Rightarrow> u64 \<Rightarrow> nat \<Rightarrow> stream \<times> ELFBinary \<Rightarrow> (stream \<times> ELFBinary) res" where
  "Rename_phdr strtab_vaddr gnu_hash_vaddr i s =
     rbind (phdr_at (snd s) i) (\<lambda>p.
     rbind (each_dyn (Rename_addr strtab_vaddr gnu_hash_vaddr) p s) (\<lambda>(fp, bn).
     rbind (WriteBuf (enc_Elf_Phdr p) fp) (\<lambda>fp. Inr (fp, bn))))"

section \<open>Writing\<close>

definition gnu_hash_value :: "string list \<Rightarrow> nat \<Rightarrow> u32" where
  "gnu_hash_value sym_names i =
     (let h = CalcGnuHash (sym_names ! i) AND NOT 1
      in if i = length sym_names - 1 then h OR 1 else h)"

definition Rename_emit_gnu_hash :: "nat \<Rightarrow> string list \<Rightarrow> stream \<Rightarrow> stream res" where
  "Rename_emit_gnu_hash nsyms sym_names fp =
     (let gh = rename_gnu_hash;
          bucket = (if nsyms > unat (gh_symndx gh) then gh_symndx gh else 0)
      in rbind (WriteBuf (le_bytes 4 (gh_nbuckets gh)) fp) (\<lambda>fp.
         rbind (WriteBuf (le_bytes 4 (gh_symndx gh)) fp) (\<lambda>fp.
         rbind (WriteBuf (le_bytes 4 (gh_maskwords gh)) fp) (\<lambda>fp.
         rbind (WriteBuf (le_bytes 4 (gh_shift2 gh)) fp) (\<lambda>fp.
         rbind (WriteBuf (le_bytes 8 (- 1 :: u64)) fp) (\<lambda>fp.
         rbind (WriteBuf (le_bytes 4 bucket) fp) (\<lambda>fp.
         rfold (\<lambda>i. WriteBuf (le_bytes 4 (gnu_hash_value sym_names i)))
           [unat (gh_symndx gh)..<length sym_names] fp)))))))"

text \<open>What \<^verbatim>\<open>Rename\<close> writes behind the program headers.\<close>

definition Rename_emit_rest :: "ELFBinary \<Rightarrow> StrtabBuilder \<Rightarrow> nat \<Rightarrow> string list \<Rightarrow> stream \<Rightarrow> stream res" where
  "Rename_emit_rest bn st nsyms sym_names fp =
     (let headers = 64 + 56 * of_nat (length (bn_phdrs bn));
          strtab_fileoffset = AlignNext (bn_filesize bn);
          gnu_hash_fileoffset = strtab_fileoffset + StrtabBuilder_size st;
          remaining_pad_fileoffset = gnu_hash_fileoffset + gnu_hash_filesize sym_names;
          eof_fileoffset = strtab_fileoffset + AlignNext (StrtabBuilder_size st + gnu_hash_filesize sym_names)
      in rbind (read_bytes (bn_head bn) headers (unat (bn_filesize bn - headers))) (\<lambda>rest.
         rbind (WriteBuf rest fp) (\<lambda>fp.
         rbind (EmitPad strtab_fileoffset fp) (\<lambda>fp.
         rbind (CHECK (ftell fp = strtab_fileoffset)) (\<lambda>_.
         rbind (WriteBuf (StrtabBuilder_data st) fp) (\<lambda>fp.
         rbind (CHECK (ftell fp = gnu_hash_fileoffset)) (\<lambda>_.
         rbind (Rename_emit_gnu_hash nsyms sym_names fp) (\<lambda>fp.
         rbind (CHECK (ftell fp = remaining_pad_fileoffset)) (\<lambda>_.
         EmitPad eof_fileoffset fp)))))))))"

definition Rename_emit ::
  "ELFBinary \<Rightarrow> StrtabBuilder \<Rightarrow> nat \<Rightarrow> string list \<Rightarrow> stream \<Rightarrow> stream res" where
  "Rename_emit bn st nsyms sym_names fp =
     rbind (rfold (\<lambda>i ps. rbind (phdr_at bn i) (\<lambda>p. Inr (ps @ [p]))) [0..<length (bn_phdrs bn)] []) (\<lambda>phdrs.
     let strtab_vaddr = end_vaddr phdrs;
         gnu_hash_vaddr = strtab_vaddr + StrtabBuilder_size st;
         strs_size = AlignNext (StrtabBuilder_size st + gnu_hash_filesize sym_names)
     in rbind (insert_phdr phdrs (str_phdr (AlignNext (bn_filesize bn)) strtab_vaddr strs_size) bn) (\<lambda>bn.
        rbind (rfold (Rename_phdr strtab_vaddr gnu_hash_vaddr) [0..<length (bn_phdrs bn)] (fp, bn)) (\<lambda>(fp, bn).
        Rename_emit_rest bn st nsyms sym_names fp)))"

definition Rename :: "ELFBinary \<Rightarrow> (string \<rightharpoonup> string) \<Rightarrow> PhdrInsertStrategy \<Rightarrow> stream res" where
  "Rename bn mapping strategy =
     rbind (WriteBuf (enc_Elf_Ehdr ((bn_ehdr bn)\<lparr>e_shstrndx := 0, e_shoff := 0, e_shnum := 0\<rparr>)) []) (\<lambda>fp.
     rbind (ELFBinary_CollectSymbolsFromDynamic bn) (\<lambda>indices.
     rbind (check_indices indices) (\<lambda>_.
     rbind (Rename_symbols mapping indices (StrtabBuilder_new mapping, bn)) (\<lambda>(st, bn, sym_names).
     rbind (Rename_dynamic (st, bn)) (\<lambda>s.
     rbind (rfold Rename_version indices s) (\<lambda>(st, bn).
     Rename_emit bn (StrtabBuilder_Freeze st) (length indices) sym_names fp))))))"

section \<open>The command line\<close>

text \<open>
  An option as \<^verbatim>\<open>getopt_long\<close> reports it (\<open>Opt_unknown\<close> is every other result, \<^verbatim>\<open>-o\<close> and \<^verbatim>\<open>-h\<close> among them,
  which the string of short options does not list), and the state of the variables of \<^verbatim>\<open>main\<close>.
\<close>

datatype renamer_option = Opt_mapping_file string | Opt_strategy string | Opt_output string | Opt_help | Opt_unknown

record renamer_args =
  ra_output :: string
  ra_rename_mapping_file :: string
  ra_phdr_insert_strategy :: string

text \<open>\<^const>\<open>None\<close>: the help was printed and the program returned.\<close>

fun renamer_options :: "renamer_option list \<Rightarrow> renamer_args \<Rightarrow> renamer_args option res" where
  "renamer_options [] a = Inr (Some a)"
| "renamer_options (opt # opts) a =
     (case opt of
        Opt_mapping_file f \<Rightarrow> renamer_options opts (a\<lparr>ra_rename_mapping_file := f\<rparr>)
      | Opt_strategy s \<Rightarrow> renamer_options opts (a\<lparr>ra_phdr_insert_strategy := s\<rparr>)
      | Opt_output f \<Rightarrow> renamer_options opts (a\<lparr>ra_output := f\<rparr>)
      | Opt_help \<Rightarrow> Inr None
      | Opt_unknown \<Rightarrow> Inl CHECK_failed)"

text \<open>The file the program writes and its contents.\<close>

definition renamer_main :: "world \<Rightarrow> renamer_option list \<Rightarrow> string list \<Rightarrow> (string \<times> u8 list) option res" where
  "renamer_main w opts operands =
     rbind (renamer_options opts
              \<lparr>ra_output = [], ra_rename_mapping_file = [], ra_phdr_insert_strategy = ''PT_NOTE''\<rparr>) (\<lambda>args.
     case args of
       None \<Rightarrow> Inr None
     | Some a \<Rightarrow>
         rbind (CHECK (length operands = 1)) (\<lambda>_.
         let input = hd operands;
             output = (if ra_output a = [] then input @ ''.renamed'' else ra_output a)
         in rbind (if ra_rename_mapping_file a \<noteq> [] then ReadMappingFile w (ra_rename_mapping_file a)
                   else Inr Map.empty) (\<lambda>mapping.
            rbind (ReadELF (w_mmap w input) (w_files w) input) (\<lambda>bin.
            rbind (PhdrInsertStrategyFromString (ra_phdr_insert_strategy a)) (\<lambda>strategy.
            case bin of
              None \<Rightarrow> Inl Bad_access
            | Some bn \<Rightarrow> rbind (Rename bn mapping strategy) (\<lambda>fp. Inr (Some (output, fp))))))))"

end
