(* ===== verification/Renamer_Proofs.thy ===== *)
theory Renamer_Proofs
  imports Renamer Library_Resolve
begin

text \<open>
  What \<^verbatim>\<open>renamer_main.cc\<close> guarantees: the names its symbols get, where its new tables stand in the file it
  writes, the mapping it accepts, and what happens to the version records of an object with several versioned symbols.
\<close>

section \<open>Reading after writing\<close>

lemma write_bytes_Inr:
  assumes "write_bytes img off bs = Inr img'"
  shows "img' = take (unat off) img @ bs @ drop (unat off + length bs) img" "unat off + length bs \<le> length img"
  using assms by (auto simp: write_bytes_def split: if_splits)

lemma drop_write:
  assumes "write_bytes img off bs = Inr img'" and "unat off + length bs \<le> n"
  shows "drop n img' = drop n img"
  using write_bytes_Inr [OF assms(1)] assms(2) by (simp add: min_def)

lemma take_write:
  assumes "write_bytes img off bs = Inr img'" and "n \<le> unat off"
  shows "take n img' = take n img"
  using write_bytes_Inr [OF assms(1)] assms(2) by (simp add: min_def)

lemma read_before_write:
  assumes "write_bytes img off bs = Inr img'" and "unat p + n \<le> unat off"
  shows "read_bytes img' p n = read_bytes img p n"
proof -
  have "take (unat p + n) img' = take (unat p + n) img" using assms by (rule take_write)
  then have "drop (unat p) (take (unat p + n) img') = drop (unat p) (take (unat p + n) img)" by simp
  then have "take n (drop (unat p) img') = take n (drop (unat p) img)" by (simp add: drop_take)
  then show ?thesis using write_bytes_length [OF assms(1)] by (simp add: read_bytes_def)
qed

lemma read_after_write:
  assumes "write_bytes img off bs = Inr img'" and "unat off + length bs \<le> unat p"
  shows "read_bytes img' p n = read_bytes img p n"
  using drop_write [OF assms] write_bytes_length [OF assms(1)] by (simp add: read_bytes_def)

lemma read_cstr_drop:
  assumes "drop (unat p) img' = drop (unat p) img" and "length img' = length img"
  shows "read_cstr img' p = read_cstr img p"
  using assms by (simp add: read_cstr_def)

lemma read_start_write:
  assumes "write_bytes img p bs = Inr img'" and "read_bytes img p n = Inr old" and "length bs \<le> n"
  shows "read_bytes img' p n = Inr (bs @ drop (length bs) old)"
proof -
  note w = write_bytes_Inr [OF assms(1)]
  have n: "unat p + n \<le> length img" and old: "old = take n (drop (unat p) img)"
    using assms(2) by (auto simp: read_bytes_def split: if_splits)
  have "drop (unat p) img' = bs @ drop (unat p + length bs) img" using w by simp
  then have "take n (drop (unat p) img') = bs @ take (n - length bs) (drop (unat p + length bs) img)" using assms(3) by simp
  also have "take (n - length bs) (drop (unat p + length bs) img) = drop (length bs) old"
    unfolding old by (simp add: drop_take add.commute)
  finally show ?thesis using n write_bytes_length [OF assms(1)] by (simp add: read_bytes_def)
qed

text \<open>The name of a symbol is its first field.\<close>

lemma dec_sym_name:
  assumes "length bs = 24"
  shows "dec_Elf_Sym (le_bytes 4 v @ drop 4 bs) = (dec_Elf_Sym bs)\<lparr>st_name := v\<rparr>"
proof -
  have "le_word (le_bytes 4 v) = v" for v :: u32 using le_word_le_bytes_take [of 4 v] by (simp add: take_bit_word_eq_self)
  then show ?thesis using assms by (simp add: dec_Elf_Sym_def)
qed

section \<open>Renaming the symbols\<close>

text \<open>
  The symbol table of the object: its entries are inside the file, and the string table stands behind it, so that
  no name changes while the entries are rewritten.
\<close>

definition symtab_before_strtab :: "ELFBinary \<Rightarrow> u64 \<Rightarrow> nat \<Rightarrow> bool" where
  "symtab_before_strtab bn symtab n \<longleftrightarrow>
     bn_symtab bn = Some symtab
     \<and> (\<exists>strtab. bn_strtab bn = Some strtab \<and> unat symtab + 24 * n \<le> unat strtab \<and> unat strtab + 2 ^ 32 \<le> 2 ^ 64)"

definition symbol_name :: "ELFBinary \<Rightarrow> u64 \<Rightarrow> int \<Rightarrow> string res" where
  "symbol_name bn symtab i = rbind (sym_at bn symtab i) (\<lambda>s. ELFBinary_Str (ucast (st_name s)) bn)"

definition renamed_name :: "(string \<rightharpoonup> string) \<Rightarrow> string \<Rightarrow> string" where
  "renamed_name mapping n = (case mapping n of None \<Rightarrow> n | Some t \<Rightarrow> t)"

text \<open>The symbol \<open>i\<close> has been renamed: its entry points to the new name in the new table.\<close>

definition symbol_renamed ::
  "(string \<rightharpoonup> string) \<Rightarrow> ELFBinary \<Rightarrow> u64 \<Rightarrow> StrtabBuilder \<Rightarrow> ELFBinary \<Rightarrow> string list \<Rightarrow> nat \<Rightarrow> bool" where
  "symbol_renamed mapping bn0 symtab st bn names i \<longleftrightarrow>
     (\<exists>s nm pos. sym_at bn0 symtab (int i) = Inr s \<and> symbol_name bn0 symtab (int i) = Inr nm
        \<and> names ! i = renamed_name mapping nm \<and> StrtabBuilder_GetPos nm st = Inr pos
        \<and> sym_at bn symtab (int i) = Inr (s\<lparr>st_name := ucast pos\<rparr>))"

text \<open>The state after the first \<open>k\<close> symbols: the names, where their entries point, and what is untouched.\<close>

definition renaming ::
  "(string \<rightharpoonup> string) \<Rightarrow> ELFBinary \<Rightarrow> u64 \<Rightarrow> nat \<Rightarrow> nat \<Rightarrow> StrtabBuilder \<times> ELFBinary \<times> string list \<Rightarrow> bool" where
  "renaming mapping bn0 symtab n k = (\<lambda>(st, bn, names).
     (\<exists>h. bn = bn0\<lparr>bn_head := h\<rparr> \<and> length h = length (bn_head bn0)
        \<and> drop (unat symtab + 24 * n) h = drop (unat symtab + 24 * n) (bn_head bn0))
     \<and> sb_rename_mapping st = mapping
     \<and> length names = k
     \<and> (\<forall>i < k. symbol_renamed mapping bn0 symtab st bn names i)
     \<and> (\<forall>i. k \<le> i \<and> i < n \<longrightarrow> sym_at bn symtab (int i) = sym_at bn0 symtab (int i)))"

lemma entry_offset:
  assumes "unat (symtab :: u64) + 24 * n < 2 ^ 64" and "i \<le> n"
  shows "unat (symtab + of_int (24 * int i)) = unat symtab + 24 * i"
proof -
  have "symtab + of_int (24 * int i) = of_nat (unat symtab + 24 * i)" by simp
  moreover have "unat symtab + 24 * i < 2 ^ 64" using assms by simp
  ultimately show ?thesis by (simp only: unat_of_nat) simp
qed

lemma Str_untouched:
  assumes "symtab_before_strtab bn0 symtab n" and "length h = length (bn_head bn0)"
    and "drop (unat symtab + 24 * n) h = drop (unat symtab + 24 * n) (bn_head bn0)"
  shows "ELFBinary_Str (ucast (nm :: u32)) (bn0\<lparr>bn_head := h\<rparr>) = ELFBinary_Str (ucast nm) bn0"
proof -
  from assms(1) obtain strtab where st: "bn_strtab bn0 = Some strtab" "unat symtab + 24 * n \<le> unat strtab"
    "unat strtab + 2 ^ 32 \<le> 2 ^ 64" by (auto simp: symtab_before_strtab_def)
  have "unat nm < 2 ^ 32" using unsigned_less [of nm, where ?'a = nat] by simp
  then have "unat strtab + unat nm < 2 ^ 64" using st(3) by linarith
  then have "unat (strtab + ucast nm) = unat strtab + unat nm"
    by (simp add: unat_word_ariths unat_ucast_32_64)
  then have le: "unat symtab + 24 * n \<le> unat (strtab + ucast nm)" using st(2) by simp
  have "drop (unat (strtab + ucast nm)) h = drop (unat (strtab + ucast nm)) (bn_head bn0)"
    using arg_cong [OF assms(3), of "drop (unat (strtab + ucast nm) - (unat symtab + 24 * n))"] le by simp
  from read_cstr_drop [OF this assms(2)] show ?thesis using st(1) by (simp add: ELFBinary_Str_def)
qed

lemma Rename_symbol_renaming:
  assumes "Rename_symbol mapping (int k) x = Inr x'" and "renaming mapping bn0 symtab n k x" and "k < n"
    and "symtab_before_strtab bn0 symtab n"
  shows "renaming mapping bn0 symtab n (Suc k) x'"
proof -
  obtain st bn names where x: "x = (st, bn, names)" by (cases x)
  note inv = assms(2) [unfolded renaming_def x split]
  from inv obtain h where h: "bn = bn0\<lparr>bn_head := h\<rparr>" "length h = length (bn_head bn0)"
    "drop (unat symtab + 24 * n) h = drop (unat symtab + 24 * n) (bn_head bn0)" by blast
  have small: "unat symtab + 24 * n < 2 ^ 64" and tab: "bn_symtab bn = Some symtab"
    using assms(4) h(1) by (auto simp: symtab_before_strtab_def)
  let ?p = "symtab + of_int (24 * int k)"
  from assms(1) obtain s nm pos0 st1 pos h1 where
    s: "sym_at bn symtab (int k) = Inr s" and nm: "ELFBinary_Str (ucast (st_name s)) bn = Inr nm"
    and add: "StrtabBuilder_Add nm st = Inr (pos0, st1)" and pos: "StrtabBuilder_GetPos nm st1 = Inr pos"
    and w: "write_bytes h ?p (le_bytes 4 (ucast pos :: u32)) = Inr h1"
    and x': "x' = (st1, bn0\<lparr>bn_head := h1\<rparr>, names @ [renamed_name mapping nm])"
    unfolding Rename_symbol_def x split tab option.case poke_head_def by (auto simp: h(1) renamed_name_def)
  have s0: "sym_at bn0 symtab (int k) = Inr s" using inv s assms(3) by auto
  have nm0: "symbol_name bn0 symtab (int k) = Inr nm"
    using nm s0 Str_untouched [OF assms(4) h(2,3)] by (simp add: symbol_name_def h(1))
  have p: "unat ?p = unat symtab + 24 * k" using entry_offset [OF small, of k] assms(3) by simp
  have len: "length h1 = length (bn_head bn0)" using write_bytes_length [OF w] h(2) by simp
  have rest: "drop (unat symtab + 24 * n) h1 = drop (unat symtab + 24 * n) (bn_head bn0)"
    using drop_write [OF w, of "unat symtab + 24 * n"] p assms(3) h(3) by simp
  have other: "sym_at (bn0\<lparr>bn_head := h1\<rparr>) symtab (int i) = sym_at bn symtab (int i)" if "i < n" "i \<noteq> k" for i
  proof -
    have q: "unat (symtab + of_int (24 * int i)) = unat symtab + 24 * i" using entry_offset [OF small, of i] that by simp
    have "read_bytes h1 (symtab + of_int (24 * int i)) 24 = read_bytes h (symtab + of_int (24 * int i)) 24"
    proof (cases "i < k")
      case True
      then show ?thesis by (intro read_before_write [OF w]) (simp only: p q)
    next
      case False
      with that(2) show ?thesis by (intro read_after_write [OF w]) (simp only: p q length_le_bytes)
    qed
    then show ?thesis by (simp add: sym_at_def read_struct_def h(1))
  qed
  have entry: "sym_at (bn0\<lparr>bn_head := h1\<rparr>) symtab (int k) = Inr (s\<lparr>st_name := ucast pos\<rparr>)"
  proof -
    from s obtain old where old: "read_bytes h ?p 24 = Inr old" "s = dec_Elf_Sym old"
      by (auto simp: sym_at_def read_struct_def h(1))
    from read_start_write [OF w old(1)] have "read_bytes h1 ?p 24 = Inr (le_bytes 4 (ucast pos :: u32) @ drop 4 old)"
      by (simp del: le_bytes.simps)
    then show ?thesis using dec_sym_name [of old] read_bytes_Inr_length [OF old(1)] old(2)
      by (simp add: sym_at_def read_struct_def del: le_bytes.simps)
  qed
  have le: "strtab_le st st1" using add by (rule Add_le)
  then have map: "sb_rename_mapping st1 = mapping" using inv by (simp add: strtab_le_def)
  let ?names = "names @ [renamed_name mapping nm]"
  have len_names: "length names = k" using inv by simp
  have all: "symbol_renamed mapping bn0 symtab st1 (bn0\<lparr>bn_head := h1\<rparr>) ?names i" if "i < Suc k" for i
  proof (cases "i = k")
    case True
    with s0 nm0 pos entry len_names show ?thesis
      by (intro symbol_renamed_def [THEN iffD2] exI [of _ s] exI [of _ nm] exI [of _ pos]) (simp add: nth_append)
  next
    case False
    with that have i: "i < k" by simp
    then have "symbol_renamed mapping bn0 symtab st bn names i" using inv by blast
    then obtain s nm pos where "sym_at bn0 symtab (int i) = Inr s" "symbol_name bn0 symtab (int i) = Inr nm"
      "names ! i = renamed_name mapping nm" "StrtabBuilder_GetPos nm st = Inr pos"
      "sym_at bn symtab (int i) = Inr (s\<lparr>st_name := ucast pos\<rparr>)" by (auto simp: symbol_renamed_def)
    with other [of i] i assms(3) GetPos_le [OF le] len_names show ?thesis
      by (intro symbol_renamed_def [THEN iffD2] exI [of _ s] exI [of _ nm] exI [of _ pos]) (simp add: nth_append)
  qed
  have todo: "sym_at (bn0\<lparr>bn_head := h1\<rparr>) symtab (int i) = sym_at bn0 symtab (int i)" if "Suc k \<le> i" "i < n" for i
    using inv other [of i] that by simp
  have "length ?names = Suc k" using len_names by simp
  then show ?thesis unfolding renaming_def x' split
    using len rest map all todo by (intro conjI exI [of _ h1] allI impI) simp_all
qed

lemma Rename_symbols_renaming:
  assumes "rfold (Rename_symbol mapping) (map int [0..<k]) (StrtabBuilder_new mapping, bn0, []) = Inr x" and "k \<le> n"
    and "symtab_before_strtab bn0 symtab n"
  shows "renaming mapping bn0 symtab n k x"
  using assms(1,2)
proof (induction k arbitrary: x)
  case 0
  then show ?case by (auto simp: renaming_def StrtabBuilder_new_def intro!: exI [of _ "bn_head bn0"])
next
  case (Suc k)
  then obtain y where y: "rfold (Rename_symbol mapping) (map int [0..<k]) (StrtabBuilder_new mapping, bn0, []) = Inr y"
    "Rename_symbol mapping (int k) y = Inr x" by (auto simp: rfold_append)
  show ?case using Rename_symbol_renaming [OF y(2) Suc.IH [OF y(1)] _ assms(3)] Suc.prems(2) by simp
qed

section \<open>The indices of the symbols\<close>

definition index_set :: "int list \<Rightarrow> bool" where
  "index_set xs \<longleftrightarrow> sorted xs \<and> distinct xs"

lemma index_set_Nil: "index_set []"
  by (simp add: index_set_def)

lemma index_set_insert: "index_set xs \<Longrightarrow> index_set (insort_insert x xs)"
  by (simp add: index_set_def sorted_insort_insert distinct_insort_insert)

lemma index_set_fold: "index_set xs \<Longrightarrow> index_set (fold (\<lambda>n. insort_insert (f n)) ns xs)"
  by (induction ns arbitrary: xs) (auto intro: index_set_insert)

lemma gnu_chain_index_set: "gnu_chain head hv n xs = Inr ys \<Longrightarrow> index_set xs \<Longrightarrow> index_set ys"
proof (induction head hv n xs rule: gnu_chain.induct)
  case (1 head hv n xs)
  then show ?case by (subst (asm) gnu_chain.simps) (auto intro: index_set_insert split: if_splits)
qed

lemma elf_chain_index_set: "elf_chain fuel head chns n xs = Inr ys \<Longrightarrow> index_set xs \<Longrightarrow> index_set ys"
  by (induction fuel head chns n xs rule: elf_chain.induct) (auto intro: index_set_insert split: if_splits)

lemma gnu_hash_index_set:
  assumes "CollectSymbolsFromGnuHash head g = Inr ys"
  shows "index_set ys"
proof -
  from assms obtain xs ns hashvals buckets symndx where
    r: "rfold (\<lambda>i indices. rbind (word_at 4 head (buckets + 4 * i)) (\<lambda>n :: u32.
            if n = 0 then Inr indices
            else gnu_chain head (hashvals + 4 * unat (n - symndx)) (sint n) indices)) ns [] = Inr xs"
    and ys: "ys = fold (\<lambda>n. insort_insert (sint (of_nat n :: u32))) [0..<unat symndx] xs"
    by (auto simp: CollectSymbolsFromGnuHash_def Let_def)
  have "index_set xs"
    by (rule rfold_inv [OF r]) (auto simp: index_set_Nil split: if_splits dest: gnu_chain_index_set)
  then show ?thesis unfolding ys by (rule index_set_fold)
qed

lemma elf_hash_index_set:
  assumes "CollectSymbolsFromElfHash head h = Inr ys"
  shows "index_set ys"
proof -
  from assms obtain ns buckets chns where
    r: "rfold (\<lambda>i indices. rbind (word_at 4 head (unat (buckets :: u64) + 4 * i)) (\<lambda>n :: u32.
          elf_chain (2 + length head) head chns (sint n) indices)) ns [] = Inr ys"
    by (auto simp: CollectSymbolsFromElfHash_def Let_def)
  show ?thesis
    by (rule rfold_inv [OF r]) (auto simp: index_set_Nil simp del: elf_chain.simps dest: elf_chain_index_set)
qed

lemma CollectSymbols_index_set:
  assumes "ELFBinary_CollectSymbolsFromDynamic bn = Inr indices"
  shows "index_set indices"
proof -
  from assms obtain xs rs ps where "index_set xs" and i: "indices = fold insort_insert ps (fold insort_insert rs xs)"
    by (auto simp: ELFBinary_CollectSymbolsFromDynamic_def dest: gnu_hash_index_set elf_hash_index_set split: option.splits)
  then show ?thesis using index_set_fold [of _ "\<lambda>n. n"] by simp
qed

text \<open>The indices \<^verbatim>\<open>Rename\<close> accepts are all of 0, 1, ..., n - 1.\<close>

lemma last_less:
  fixes ys :: "int list"
  assumes "sorted (ys @ [y])" and "distinct (ys @ [y])" and "ys \<noteq> []"
  shows "last ys < y"
  using assms last_in_set [OF assms(3)] by (auto simp: sorted_append order_less_le)

lemma sorted_from:
  fixes xs :: "int list"
  assumes "sorted xs" and "distinct xs" and "xs \<noteq> []" and "last xs + 1 = hd xs + int (length xs)"
  shows "xs = map (\<lambda>i. hd xs + int i) [0..<length xs]"
  using assms
proof (induction xs rule: rev_induct)
  case (snoc x xs)
  show ?case
  proof (cases "xs = []")
    case False
    have s: "sorted xs" "distinct xs" using snoc.prems by (simp_all add: sorted_append)
    have lower: "hd xs + int (length xs) \<le> last xs + 1" if "sorted xs" "distinct xs" "xs \<noteq> []" for xs :: "int list"
      using that
    proof (induction xs rule: rev_induct)
      case (snoc y ys)
      then show ?case
      proof (cases "ys = []")
        case False
        with snoc have "hd ys + int (length ys) \<le> last ys + 1" by (simp add: sorted_append)
        moreover have "last ys < y" using snoc.prems False by (intro last_less)
        ultimately show ?thesis using False by simp
      qed simp
    qed simp
    have "last xs < x" using snoc.prems False by (intro last_less)
    with snoc.prems(4) lower [OF s False] False have last: "last xs + 1 = hd xs + int (length xs)" and x: "x = hd xs + int (length xs)"
      by simp_all
    from snoc.IH [OF s False last] x False show ?thesis by simp
  qed simp
qed simp

lemma check_indices_all:
  assumes "ELFBinary_CollectSymbolsFromDynamic bn = Inr indices" and "check_indices indices = Inr u"
  shows "indices = map int [0..<length indices]"
  using sorted_from [of indices] CollectSymbols_index_set [OF assms(1)] assms(2)
  by (auto simp: check_indices_def index_set_def split: if_splits)

lemma char_of_u8_nul: "char_of_u8 b = CHR 0x00 \<Longrightarrow> b = 0"
proof -
  assume "char_of_u8 b = CHR 0x00"
  then have "b = u8_of_char (CHR 0x00)" by (metis u8_of_char_of_u8)
  then show "b = 0" by (simp add: u8_of_char_def)
qed

lemma read_cstr_no_nul:
  assumes "read_cstr img p = Inr s"
  shows "no_nul s"
proof -
  from assms have s: "s = map char_of_u8 (takeWhile (\<lambda>b. b \<noteq> 0) (drop (unat p) img))"
    by (auto simp: read_cstr_def split: if_splits)
  have "char_of_u8 b \<noteq> CHR 0x00" if "b \<in> set (takeWhile (\<lambda>b. b \<noteq> 0) (drop (unat p) img))" for b
    using set_takeWhileD [OF that] char_of_u8_nul by blast
  then show ?thesis unfolding s no_nul_def by (metis (no_types, lifting) imageE set_map)
qed

text \<open>
  C17: \<^verbatim>\<open>Rename\<close> gives every symbol of the object the name the mapping has for it, its own name if there is
  none, and no two symbols the same one: the entry keeps all its fields but \<^verbatim>\<open>st_name\<close>, which is where the
  finished string table, whatever is added to it later, holds the new name.
\<close>

theorem Rename_symbols_names:
  assumes "ELFBinary_CollectSymbolsFromDynamic bn = Inr indices" and "check_indices indices = Inr u"
    and "Rename_symbols mapping indices (StrtabBuilder_new mapping, bn) = Inr (st, bn', names)"
    and "symtab_before_strtab bn symtab (length indices)" and "\<forall>t \<in> ran mapping. no_nul t"
    and "strtab_le st st2" and "strtab_wf st2"
  defines "n \<equiv> length indices"
  shows "length names = n \<and> distinct names
    \<and> (\<forall>i < n. \<exists>s nm name. sym_at bn symtab (int i) = Inr s \<and> symbol_name bn symtab (int i) = Inr nm
         \<and> names ! i = renamed_name mapping nm \<and> sym_at bn' symtab (int i) = Inr (s\<lparr>st_name := name\<rparr>)
         \<and> strz_at (sb_strtab st2) (unat name) = names ! i)"
proof -
  from assms(3) check_indices_all [OF assms(1,2)] have r: "rfold (Rename_symbol mapping) (map int [0..<n]) (StrtabBuilder_new mapping, bn, []) = Inr (st, bn', names)"
    and dist: "distinct names" by (auto simp: Rename_symbols_def n_def)
  have "renaming mapping bn symtab n n (st, bn', names)" by (rule Rename_symbols_renaming [OF r _ assms(4) [folded n_def]]) simp
  then have len: "length names = n" and map: "sb_rename_mapping st = mapping"
    and all: "\<forall>i < n. symbol_renamed mapping bn symtab st bn' names i" by (auto simp: renaming_def)
  have "\<exists>s nm name. sym_at bn symtab (int i) = Inr s \<and> symbol_name bn symtab (int i) = Inr nm
         \<and> names ! i = renamed_name mapping nm \<and> sym_at bn' symtab (int i) = Inr (s\<lparr>st_name := name\<rparr>)
         \<and> strz_at (sb_strtab st2) (unat name) = names ! i" if i: "i < n" for i
  proof -
    from all i obtain s nm pos where s: "sym_at bn symtab (int i) = Inr s" "symbol_name bn symtab (int i) = Inr nm"
      "names ! i = renamed_name mapping nm" "StrtabBuilder_GetPos nm st = Inr pos"
      "sym_at bn' symtab (int i) = Inr (s\<lparr>st_name := ucast pos\<rparr>)" by (auto simp: symbol_renamed_def)
    have ren: "StrtabBuilder_renamed st nm = names ! i" by (simp add: s(3) StrtabBuilder_renamed_def map renamed_name_def)
    have "sb_cache st (names ! i) = Some pos" using s(4) by (auto simp: StrtabBuilder_GetPos_def ren split: option.splits)
    with assms(6) have cached: "sb_cache st2 (names ! i) = Some pos" by (rule cached_le)
    have "no_nul nm" using s(2) by (auto simp: symbol_name_def ELFBinary_Str_def split: option.splits dest: read_cstr_no_nul)
    then have "no_nul (names ! i)" using assms(5) s(3) by (auto simp: renamed_name_def ranI split: option.split)
    from strz_at_cached [OF assms(7) cached this] have at: "strz_at (sb_strtab st2) (unat pos) = names ! i" .
    have "unat pos < 2 ^ 32" using cached assms(7) by (fastforce simp: strtab_wf_def)
    then have "unat (ucast pos :: u32) = unat pos" by (simp add: unsigned_ucast_eq take_bit_nat_eq_self)
    with s at show ?thesis by auto
  qed
  with len dist show ?thesis by blast
qed

lemma Rename_symbol_table:
  assumes "Rename_symbol mapping i (st, bn, ns) = Inr (st', bn', ns')"
  shows "strtab_le st st' \<and> (strtab_wf st \<and> length (sb_strtab st') < 2 ^ 32 \<longrightarrow> strtab_wf st')"
proof -
  from assms obtain n pos where "StrtabBuilder_Add n st = Inr (pos, st')"
    by (auto simp: Rename_symbol_def split: option.splits)
  from Add_le [OF this] Add_wf [OF this] show ?thesis by blast
qed

lemma Rename_symbols_table:
  assumes "rfold (Rename_symbol mapping) is (st, bn, ns) = Inr (st', bn', ns')"
  shows "strtab_le st st' \<and> (strtab_wf st \<and> length (sb_strtab st') < 2 ^ 32 \<longrightarrow> strtab_wf st')"
  using assms
proof (induction "is" arbitrary: st bn ns)
  case (Cons i "is")
  then obtain st1 bn1 ns1 where s: "Rename_symbol mapping i (st, bn, ns) = Inr (st1, bn1, ns1)"
    "rfold (Rename_symbol mapping) is (st1, bn1, ns1) = Inr (st', bn', ns')" by auto
  note one = Rename_symbol_table [OF s(1)] and rest = Cons.IH [OF s(2)]
  have "length (sb_strtab st1) \<le> length (sb_strtab st')"
    using rest by (auto simp: strtab_le_def dest: prefix_length_le)
  with one rest show ?case by (auto intro: strtab_le_trans)
qed simp

text \<open>An object with a hash table, the null symbol, a function \<open>f\<close> and the string table that names it.\<close>

definition renamer_object :: ELFBinary where
  "renamer_object = (ELFBinary_init ''a'' (concat (map (\<lambda>w :: u32. le_bytes 4 w) [1, 1, 1, 1, 0, 0, 1, 1]) @ replicate 24 0
       @ enc_Elf_Sym \<lparr>st_name = 1, st_info = 0x12, st_other = 0, st_shndx = 7, st_value = 0x30, st_size = 4\<rparr>
       @ [0, 0x66, 0]) 0 0
       \<lparr>e_ident = 0, e_type = 3, e_machine = 62, e_version = 1, e_entry = 0, e_phoff = 64, e_shoff = 0, e_flags = 0,
         e_ehsize = 64, e_phentsize = 56, e_phnum = 1, e_shentsize = 0, e_shnum = 0, e_shstrndx = 0\<rparr>)
     \<lparr>bn_gnu_hash := Some 0, bn_symtab := Some 32, bn_strtab := Some 80\<rparr>"

lemma renamer_object_run:
  "\<exists>st bn' names. ELFBinary_CollectSymbolsFromDynamic renamer_object = Inr [0, 1] \<and> check_indices [0, 1] = Inr ()
    \<and> Rename_symbols [''f'' \<mapsto> ''gg''] [0, 1] (StrtabBuilder_new [''f'' \<mapsto> ''gg''], renamer_object) = Inr (st, bn', names)
    \<and> length (sb_strtab st) = 4 \<and> names = [[], ''gg'']"
proof -
  let ?r = "Rename_symbols [''f'' \<mapsto> ''gg''] [0, 1] (StrtabBuilder_new [''f'' \<mapsto> ''gg''], renamer_object)"
  have "ELFBinary_CollectSymbolsFromDynamic renamer_object = Inr [0, 1] \<and> check_indices [0, 1] = Inr ()" by code_simp
  moreover have "\<not> isl ?r \<and> length (sb_strtab (fst (projr ?r))) = 4 \<and> snd (snd (projr ?r)) = [[], ''gg'']" by code_simp
  ultimately show ?thesis by (cases ?r) auto
qed

theorem Rename_symbols_names_witness:
  "\<exists>st bn' names s. Rename_symbols [''f'' \<mapsto> ''gg''] [0, 1] (StrtabBuilder_new [''f'' \<mapsto> ''gg''], renamer_object)
      = Inr (st, bn', names)
    \<and> sym_at bn' 32 1 = Inr s \<and> strz_at (sb_strtab st) (unat (st_name s)) = ''gg''"
proof -
  obtain st bn' names where r: "ELFBinary_CollectSymbolsFromDynamic renamer_object = Inr [0, 1]" "check_indices [0, 1] = Inr ()"
    "Rename_symbols [''f'' \<mapsto> ''gg''] [0, 1] (StrtabBuilder_new [''f'' \<mapsto> ''gg''], renamer_object) = Inr (st, bn', names)"
    and len: "length (sb_strtab st) = 4" and names: "names = [[], ''gg'']" using renamer_object_run by blast
  from r(3) have "rfold (Rename_symbol [''f'' \<mapsto> ''gg'']) [0, 1] (StrtabBuilder_new [''f'' \<mapsto> ''gg''], renamer_object, [])
      = Inr (st, bn', names)" by (auto simp: Rename_symbols_def simp del: rfold.simps)
  from Rename_symbols_table [OF this] have "strtab_wf st" by (simp add: strtab_wf_new len)
  moreover have "symtab_before_strtab renamer_object 32 (length [0, 1 :: int])"
    by (simp add: symtab_before_strtab_def renamer_object_def)
  ultimately show ?thesis
    using Rename_symbols_names [OF r _ _ strtab_le_refl, of 32] r(3) names by (fastforce simp: no_nul_def)
qed

section \<open>The file the renamer writes\<close>

definition rename_hash_bytes :: "nat \<Rightarrow> string list \<Rightarrow> u8 list" where
  "rename_hash_bytes nsyms names = le_bytes 4 (1 :: u32) @ le_bytes 4 (1 :: u32) @ le_bytes 4 (1 :: u32) @ le_bytes 4 (1 :: u32)
     @ le_bytes 8 (- 1 :: u64) @ le_bytes 4 (if nsyms > 1 then 1 else 0 :: u32)
     @ concat (map (\<lambda>i. le_bytes 4 (gnu_hash_value names i)) [1..<length names])"

lemma Rename_emit_gnu_hash_bytes: "Rename_emit_gnu_hash nsyms names fp = Inr (fp @ rename_hash_bytes nsyms names)"
  by (simp add: Rename_emit_gnu_hash_def rename_hash_bytes_def rename_gnu_hash_def Let_def rfold_WriteBuf)
    (simp add: WriteBuf_def rfold_WriteBuf del: le_bytes.simps)

lemma length_concat_words: "length (concat (map (\<lambda>i. le_bytes k (f i)) is)) = k * length is"
  by (induction "is") auto

lemma length_rename_hash_bytes: "names \<noteq> [] \<Longrightarrow> length (rename_hash_bytes nsyms names) = 24 + 4 * length names"
  by (cases names) (auto simp: rename_hash_bytes_def length_concat_words Suc_le_eq simp del: le_bytes.simps)

definition zeros_to :: "nat \<Rightarrow> nat \<Rightarrow> u8 list" where
  "zeros_to n to = replicate (to - n) 0"



section \<open>The mapping file\<close>

text \<open>
  C35: A mapping file that is accepted is an injective mapping between non-empty names without white space, which
  has exactly one entry for each line of the file.
\<close>

theorem ReadMappingFile_injective:
  assumes "ReadMappingFile w file = Inr m"
  shows "inj_on m (dom m) \<and> (\<forall>n \<in> dom m \<union> ran m. n \<noteq> [] \<and> \<not> list_ex is_space n)
    \<and> (\<exists>contents. w_files w file = Some contents \<and> finite (dom m)
         \<and> card (dom m) = length (file_lines (map char_of_u8 contents)))"
proof -
  define P where "P = (\<lambda>n (froms, tos, m :: string \<rightharpoonup> string). froms = dom m \<and> tos = ran m \<and> inj_on m (dom m)
    \<and> (\<forall>n \<in> dom m \<union> ran m. n \<noteq> [] \<and> \<not> list_ex is_space n) \<and> finite (dom m) \<and> card (dom m) = (n :: nat))"
  have word: "\<not> list_ex is_space (fst (get_word f))" for f
    by (auto simp: get_word_def list_ex_iff dest: set_takeWhileD)
  have step: "P (Suc n) t" if "P n s" and "ReadMapping_step line s = Inr t" for n s t line
  proof -
    obtain froms tos m where s: "s = (froms, tos, m)" by (cases s)
    let ?from = "fst (get_word line)" and ?to = "fst (get_word (snd (get_word line)))"
    from that(2) have new: "?from \<noteq> []" "?to \<noteq> []" "?from \<notin> dom m" "?to \<notin> ran m"
      and t: "t = (insert ?from froms, insert ?to tos, m(?from \<mapsto> ?to))"
      using that(1) by (auto simp: s ReadMapping_step_def Let_def P_def)
    have none: "m ?from = None" using new(3) by auto
    then have "ran (m(?from \<mapsto> ?to)) = insert ?to (ran m)" by (simp add: ran_map_upd)
    moreover have "inj_on (m(?from \<mapsto> ?to)) (dom (m(?from \<mapsto> ?to)))"
      using that(1) new none by (auto simp: s P_def inj_on_def ran_def split: if_splits)
    ultimately show ?thesis using that(1) new word unfolding P_def s t split by auto
  qed
  have all: "P (n + length ls) t" if "rfold ReadMapping_step ls s = Inr t" "P n s" for ls n s t
    using that by (induction ls arbitrary: n s) (auto dest: step, metis add_Suc step)
  from assms obtain contents froms tos where c: "w_files w file = Some contents"
    and r: "rfold ReadMapping_step (file_lines (map char_of_u8 contents)) ({}, {}, Map.empty) = Inr (froms, tos, m)"
    by (auto simp: ReadMappingFile_def split: option.splits)
  have "P 0 ({}, {}, Map.empty)" by (simp add: P_def)
  from all [OF r this] c show ?thesis by (simp add: P_def)
qed

section \<open>The version records\<close>

text \<open>
  The records of the needed versions are rewritten once for every versioned symbol. Here is an object with
  two of them, which need the version \<open>V\<close> of the file \<open>libc\<close>.
\<close>

definition verneed_object :: ELFBinary where
  "verneed_object = (ELFBinary_init ''a'' (concat (map (\<lambda>w :: u16. le_bytes 2 w) [0, 2, 2, 0])
       @ enc_Elf_Verneed \<lparr>vn_version = 1, vn_cnt = 1, vn_file = 3, vn_aux = 16, vn_next = 0\<rparr>
       @ enc_Elf_Vernaux \<lparr>vna_hash = 0, vna_flags = 0, vna_other = 2, vna_name = 1, vna_next = 0\<rparr>
       @ [0, 0x56, 0, 0x6c, 0x69, 0x62, 0x63, 0]) 0 0
       \<lparr>e_ident = 0, e_type = 3, e_machine = 62, e_version = 1, e_entry = 0, e_phoff = 64, e_shoff = 0, e_flags = 0,
         e_ehsize = 64, e_phentsize = 56, e_phnum = 3, e_shentsize = 0, e_shnum = 0, e_shstrndx = 0\<rparr>)
     \<lparr>bn_versym := Some 0, bn_verneed := Some 8, bn_verneednum := 1, bn_strtab := Some 40\<rparr>"

text \<open>The file name the rewritten record has in the new string table.\<close>

definition renamed_file :: "int list \<Rightarrow> string res" where
  "renamed_file indices =
     rbind (rfold Rename_version indices (StrtabBuilder_new Map.empty, verneed_object)) (\<lambda>(st, bn).
     rbind (read_struct dec_Elf_Verneed 16 (bn_head bn) 8) (\<lambda>vn.
     Inr (strz_at (sb_strtab st) (unat (vn_file vn)))))"

text \<open>
  With one versioned symbol the record keeps its file name. With two, the second round reads the position in the new
  string table as one in the old table, and the name becomes another one: here the empty one.
\<close>

theorem Rename_version_twice: "renamed_file [0, 1] = Inr ''libc'' \<and> renamed_file [0, 1, 2] = Inr ''''"
  by code_simp

theorem ReadMappingFile_injective_witness:
  "\<exists>m. ReadMappingFile (empty_world\<lparr>w_files := [''m'' \<mapsto> map u8_of_char (''a b'' @ [CHR 0x0A] @ ''c d'')]\<rparr>) ''m'' = Inr m
    \<and> inj_on m (dom m)"
proof -
  let ?w = "empty_world\<lparr>w_files := [''m'' \<mapsto> map u8_of_char (''a b'' @ [CHR 0x0A] @ ''c d'')]\<rparr>"
  have "\<not> isl (ReadMappingFile ?w ''m'')" by code_simp
  then obtain m where "ReadMappingFile ?w ''m'' = Inr m" by (metis sum.collapse(2))
  with ReadMappingFile_injective [OF this] show ?thesis by blast
qed

end
