(* ===== verification/Gnu_Hash_Table.thy ===== *)
theory Gnu_Hash_Table
  imports Tables Renamer_Proofs
begin

text \<open>
  The hash tables both programs write, read back by the reader of \<^verbatim>\<open>elf_binary.cc\<close>.
\<close>

section \<open>Reading a hash table back\<close>

text \<open>
  The one shape of \<^verbatim>\<open>.gnu.hash\<close> both programs write: one bucket, a bloom filter that lets everything pass, and
  a chain of the symbols from index 1 on, whose end is marked by the lowest bit.
\<close>

definition one_bucket_table :: "u32 list \<Rightarrow> u8 list" where
  "one_bucket_table vals = le_bytes 4 (1 :: u32) @ le_bytes 4 (1 :: u32) @ le_bytes 4 (1 :: u32) @ le_bytes 4 (1 :: u32)
     @ le_bytes 8 (- 1 :: u64) @ le_bytes 4 (if vals = [] then 0 else 1 :: u32) @ concat (map (le_bytes 4) vals)"

definition ends_chain :: "u32 list \<Rightarrow> bool" where
  "ends_chain vals \<longleftrightarrow> (\<forall>i < length vals. vals ! i AND 1 \<noteq> 0 \<longleftrightarrow> i = length vals - 1)"

lemma ends_chain_Cons: "vals \<noteq> [] \<Longrightarrow> ends_chain (v # vals) \<longleftrightarrow> v AND 1 = 0 \<and> ends_chain vals"
proof
  assume ne: "vals \<noteq> []" and e: "ends_chain (v # vals)"
  have "vals ! i AND 1 \<noteq> 0 \<longleftrightarrow> i = length vals - 1" if "i < length vals" for i
    using e [unfolded ends_chain_def, rule_format, of "Suc i"] that by auto
  moreover have "v AND 1 = 0" using e [unfolded ends_chain_def, rule_format, of 0] ne by simp
  ultimately show "v AND 1 = 0 \<and> ends_chain vals" by (simp add: ends_chain_def)
next
  assume ne: "vals \<noteq> []" and e: "v AND 1 = 0 \<and> ends_chain vals"
  have "(v # vals) ! i AND 1 \<noteq> 0 \<longleftrightarrow> i = length (v # vals) - 1" if "i < length (v # vals)" for i
    using e ne that by (cases i) (auto simp: ends_chain_def)
  then show "ends_chain (v # vals)" by (simp add: ends_chain_def)
qed

lemma insort_insert_last: "\<forall>y \<in> set xs. y < x \<Longrightarrow> insort_insert x xs = xs @ [x]" for x :: int
proof -
  assume a: "\<forall>y \<in> set xs. y < x"
  then have "insort x xs = xs @ [x]" by (induction xs) auto
  moreover from a have "x \<notin> set xs" by auto
  ultimately show ?thesis by (simp add: insort_insert_insort)
qed

lemma insort_insert_first: "\<forall>y \<in> set xs. x < y \<Longrightarrow> insort_insert x xs = x # xs" for x :: int
proof -
  assume a: "\<forall>y \<in> set xs. x < y"
  then have "insort x xs = x # xs" by (cases xs) auto
  moreover from a have "x \<notin> set xs" by auto
  ultimately show ?thesis by (simp add: insort_insert_insort)
qed

lemma gnu_chain_reads:
  assumes "hv = length pre" and "vals \<noteq> []" and "ends_chain vals" and "k + length vals \<le> 0x7fffffff" and "1 \<le> k"
  shows "gnu_chain (pre @ concat (map (le_bytes 4) vals) @ post) hv (int k) (map int [1..<k])
    = Inr (map int [1..<k + length vals])"
  using assms
proof (induction vals arbitrary: pre hv k)
  case (Cons v vals)
  let ?head = "pre @ concat (map (le_bytes 4) (v # vals)) @ post"
  have w: "word_at 4 ?head hv = Inr v"
    using word_at_append [of 4 pre hv v "concat (map (le_bytes 4) vals) @ post"] Cons.prems(1) by simp
  have new: "int k \<notin> set (map int [1..<k])" by auto
  have ins: "insort_insert (int k) (map int [1..<k]) = map int [1..<Suc k]"
    using insort_insert_last [of "map int [1..<k]" "int k"] Cons.prems(5) by simp
  show ?case
  proof (cases "vals = []")
    case True
    with Cons.prems(3) have "v AND 1 \<noteq> 0" by (simp add: ends_chain_def)
    with True show ?thesis by (subst gnu_chain.simps) (use w new ins in \<open>simp del: upt_Suc\<close>)
  next
    case False
    with Cons.prems(3) have v: "v AND 1 = 0" "ends_chain vals" by (simp_all add: ends_chain_Cons)
    have "gnu_chain ((pre @ le_bytes 4 v) @ concat (map (le_bytes 4) vals) @ post) (hv + 4) (int (Suc k)) (map int [1..<Suc k])
        = Inr (map int [1..<Suc k + length vals])"
      using Cons.prems False v(2) by (intro Cons.IH) simp_all
    moreover have "int k \<noteq> 0x7fffffff" using Cons.prems(4) False by simp
    ultimately show ?thesis
      by (subst gnu_chain.simps) (use w new ins v(1) in \<open>simp del: upt_Suc le_bytes.simps add: add.commute\<close>)
  qed
qed simp

lemma CollectSymbolsFromGnuHash_reads:
  assumes "unat g = length pre" and "vals \<noteq> [] \<Longrightarrow> ends_chain vals" and "length vals < 0x7fffffff"
  shows "CollectSymbolsFromGnuHash (pre @ one_bucket_table vals @ post) g = Inr (map int [0..<Suc (length vals)])"
proof -
  let ?c = "concat (map (le_bytes 4) vals)" and ?b = "if vals = [] then 0 else 1 :: u32"
  let ?one = "le_bytes 4 (1 :: u32)" and ?bloom = "le_bytes 8 (- 1 :: u64)"
  let ?head = "pre @ one_bucket_table vals @ post"
  have field: "gnu_hash_field ?head g i = Inr 1" if "i < 3" for i
  proof -
    have h: "?head = (pre @ concat (replicate i ?one)) @ ?one
        @ concat (replicate (3 - i) ?one) @ ?bloom @ le_bytes 4 ?b @ ?c @ post"
      using that by (auto simp: one_bucket_table_def numeral_3_eq_3 less_Suc_eq simp del: le_bytes.simps)
    have "length (pre @ concat (replicate i ?one)) = unat g + 4 * i" using assms(1) by (induction i) (auto simp del: le_bytes.simps)
    then show ?thesis unfolding gnu_hash_field_def h by (intro word_at_append) simp_all
  qed
  have hb: "?head = (pre @ ?one @ ?one @ ?one @ ?one @ ?bloom) @ le_bytes 4 ?b @ ?c @ post"
    by (simp add: one_bucket_table_def del: le_bytes.simps)
  have bucket: "word_at 4 ?head (unat g + 24) = Inr ?b"
    unfolding hb by (rule word_at_append) (simp_all add: assms(1) del: le_bytes.simps)
  have chain: "gnu_chain ?head (unat g + 28) 1 [] = Inr (map int [1..<Suc (length vals)])" if "vals \<noteq> []"
  proof -
    have hc: "?head = (pre @ ?one @ ?one @ ?one @ ?one @ ?bloom @ le_bytes 4 ?b) @ ?c @ post"
      by (simp add: one_bucket_table_def del: le_bytes.simps)
    have "gnu_chain ?head (unat g + 28) (int 1) (map int [1..<1]) = Inr (map int [1..<1 + length vals])"
      unfolding hc using that assms by (intro gnu_chain_reads) (simp_all del: le_bytes.simps)
    then show ?thesis by simp
  qed
  have "insort_insert 0 (map int [1..<m]) = map int [0..<m]" if "0 < m" for m
  proof -
    have "[0..<m] = 0 # [1..<m]" using that by (simp add: upt_conv_Cons)
    then show ?thesis using insort_insert_first [of "map int [1..<m]" 0] by simp
  qed
  note zero = this [of "Suc (length vals)"]
  have fields: "gnu_hash_field ?head g 0 = Inr 1" "gnu_hash_field ?head g 1 = Inr 1" "gnu_hash_field ?head g 2 = Inr 1"
    by (rule field, simp)+
  have one: "[0..<1] = [0::nat]" "unat g + 16 + 8 * 1 = unat g + 24" "unat g + 24 + 4 * 1 = unat g + 28" by simp_all
  show ?thesis
    unfolding CollectSymbolsFromGnuHash_def Let_def fields rbind.simps unat_1 one
    using bucket chain zero by (cases "vals = []") (simp_all del: upt_Suc)
qed

lemma marked_word: "(h AND NOT 1 :: u32) AND 1 = 0" "((h AND NOT 1 :: u32) OR 1) AND 1 = 1"
  by (auto intro!: bit_word_eqI simp: bit_simps)

lemma ends_chain_map:
  assumes "\<And>i. w i = (let h = f i AND NOT 1 in if i = n - 1 then h OR 1 else h)"
  shows "ends_chain (map w [1..<n])"
  by (auto simp: ends_chain_def assms Let_def marked_word [simplified])

lemma gnu_hash_bytes_table:
  "gnu_hash_bytes sm = one_bucket_table (map (gnu_hash_word (sm_exposed_syms sm)) [1..<length (sm_exposed_syms sm)])"
  by (auto simp: gnu_hash_bytes_def one_bucket_table_def comp_def simp del: le_bytes.simps)

lemma rename_hash_bytes_table:
  "rename_hash_bytes (length names) names = one_bucket_table (map (gnu_hash_value names) [1..<length names])"
  by (auto simp: rename_hash_bytes_def one_bucket_table_def comp_def simp del: le_bytes.simps)



end
