(* ===== verification/Command_Line.thy ===== *)
theory Command_Line
  imports Output Library_Resolve
begin

text \<open>
  \<^verbatim>\<open>main\<close> of the linker, \<^verbatim>\<open>sold_main.cc\<close>: the options, the run that writes the output and the second run that
  \<^verbatim>\<open>--check-output\<close> makes on it. \<^verbatim>\<open>getopt_long\<close> is a parameter: the functions below take the options it reports,
  in order, and the operands it leaves.
\<close>

section \<open>Options\<close>

text \<open>One constructor for each \<^verbatim>\<open>case\<close> of the \<^verbatim>\<open>switch\<close>; \<open>Unknown_option\<close> is \<^verbatim>\<open>'?'\<close>.\<close>

datatype sold_option =
    Section_headers | Check_output | Exclude_from_fini string | Exclude_so string | Custom_library_path string
  | Input_file string | Output_file string | Help | Unknown_option

record sold_args =
  sa_input_file :: string
  sa_output_file :: string
  sa_exclude_sos :: "string list"
  sa_exclude_finis :: "string list"
  sa_custome_library_path :: "string list"
  sa_emit_section_header :: bool
  sa_check_output :: bool

definition sold_args_init :: sold_args where
  "sold_args_init = \<lparr>sa_input_file = [], sa_output_file = [], sa_exclude_sos = [], sa_exclude_finis = [],
     sa_custome_library_path = [], sa_emit_section_header = False, sa_check_output = False\<rparr>"

text \<open>\<^const>\<open>Inl\<close> is the status with which \<^verbatim>\<open>main\<close> returns from the loop.\<close>

fun sold_options :: "sold_option list \<Rightarrow> sold_args \<Rightarrow> nat + sold_args" where
  "sold_options [] a = Inr a"
| "sold_options (opt # opts) a =
     (case opt of
        Section_headers \<Rightarrow> sold_options opts (a\<lparr>sa_emit_section_header := True\<rparr>)
      | Check_output \<Rightarrow> sold_options opts (a\<lparr>sa_check_output := True\<rparr>)
      | Exclude_from_fini s \<Rightarrow> sold_options opts (a\<lparr>sa_exclude_finis := sa_exclude_finis a @ [s]\<rparr>)
      | Exclude_so s \<Rightarrow> sold_options opts (a\<lparr>sa_exclude_sos := sa_exclude_sos a @ [s]\<rparr>)
      | Custom_library_path s \<Rightarrow> sold_options opts (a\<lparr>sa_custome_library_path := sa_custome_library_path a @ [s]\<rparr>)
      | Input_file s \<Rightarrow> sold_options opts (a\<lparr>sa_input_file := s\<rparr>)
      | Output_file s \<Rightarrow> sold_options opts (a\<lparr>sa_output_file := s\<rparr>)
      | Help \<Rightarrow> Inl 0
      | Unknown_option \<Rightarrow> Inl 1)"

definition sold_operand :: "string list \<Rightarrow> sold_args \<Rightarrow> sold_args" where
  "sold_operand operands a =
     (if operands \<noteq> [] \<and> sa_input_file a = [] then a\<lparr>sa_input_file := hd operands\<rparr> else a)"

section \<open>Runs\<close>

text \<open>The files after a run: the output is a regular file with the bytes written.\<close>

definition write_file :: "string \<Rightarrow> u8 list \<Rightarrow> world \<Rightarrow> world" where
  "write_file f bs w = w\<lparr>w_files := (w_files w)(f \<mapsto> bs), w_mode := (w_mode w)(f \<mapsto> 0x81ed)\<rparr>"

definition remove_file :: "string \<Rightarrow> world \<Rightarrow> world" where
  "remove_file f w = w\<lparr>w_files := (w_files w)(f := None), w_mode := (w_mode w)(f := None)\<rparr>"

text \<open>
  One \<^verbatim>\<open>Sold\<close> object that links \<open>input\<close> into \<open>output\<close>, in a process whose static variables are \<open>sc\<close>; it leaves the
  variables to the next one.
\<close>

definition sold_run ::
  "nat \<Rightarrow> (nat \<Rightarrow> u8 list) \<Rightarrow> sold_args \<Rightarrow> string \<Rightarrow> string \<Rightarrow> world \<times> statics \<Rightarrow> (world \<times> statics) run" where
  "sold_run fuel malloc a input output = (\<lambda>(w, sc).
     dbind (Sold_new fuel w sc input (sa_exclude_sos a) (sa_exclude_finis a) (sa_custome_library_path a)
              (sa_emit_section_header a)) (\<lambda>so.
     dbind (Some (Sold_Link malloc so)) (\<lambda>(so, fp).
     Some (Inr (write_file output fp w, so_statics so)))))"

definition statics_init :: statics where
  "statics_init = \<lparr>sc_TLSFileSize = 0, sc_EHFrameSize = 0, sc_TLSMemSize = 0\<rparr>"

text \<open>The exit status and the files afterwards.\<close>

definition sold_main ::
  "nat \<Rightarrow> (nat \<Rightarrow> u8 list) \<Rightarrow> world \<Rightarrow> sold_option list \<Rightarrow> string list \<Rightarrow> (nat \<times> world) run" where
  "sold_main fuel malloc w opts operands =
     (case sold_options opts sold_args_init of
        Inl status \<Rightarrow> Some (Inr (status, w))
      | Inr a \<Rightarrow>
          (let a = sold_operand operands a
           in if sa_output_file a = [] then Some (Inr (1, w))
              else
                dbind (sold_run fuel malloc a (sa_input_file a) (sa_output_file a) (w, statics_init)) (\<lambda>(w, sc).
                if sa_check_output a then
                  (let dummy = sa_output_file a @ ''.dummy-for-check-output''
                   in dbind (sold_run fuel malloc a (sa_output_file a) dummy (w, sc)) (\<lambda>(w, _).
                      Some (Inr (0, remove_file dummy w))))
                else Some (Inr (0, w)))))"

section \<open>What a run leaves behind\<close>

definition linked_files :: "(nat \<Rightarrow> u8 list) \<Rightarrow> nat \<Rightarrow> sold_args \<Rightarrow> string \<Rightarrow> world \<Rightarrow> statics \<Rightarrow> u8 list \<Rightarrow> bool" where
  "linked_files malloc fuel a input w sc fp \<longleftrightarrow>
     (\<exists>so so'. Sold_new fuel w sc input (sa_exclude_sos a) (sa_exclude_finis a) (sa_custome_library_path a)
        (sa_emit_section_header a) = Some (Inr so) \<and> Sold_Link malloc so = Inr (so', fp))"

lemma sold_run_Inr:
  "sold_run fuel malloc a input out (w, sc) = Some (Inr (w', sc')) \<Longrightarrow>
    \<exists>fp. linked_files malloc fuel a input w sc fp \<and> w' = write_file out fp w"
  by (auto simp: sold_run_def linked_files_def)



end
