(* ===== verification/Show.thy ===== *)
theory Show
  imports Utils EHFrame
begin

text \<open>
  The functions of \<^verbatim>\<open>utils.h\<close> and \<^verbatim>\<open>utils.cc\<close> that turn numbers and constants into text: \<^verbatim>\<open>HexString\<close>,
  \<^verbatim>\<open>ShowDW_EH_PE\<close>, \<^verbatim>\<open>ShowDynamicEntryType\<close>, \<^verbatim>\<open>ShowRelocationType\<close> and the stream operator of relocations.
  A \<^verbatim>\<open>switch\<close> whose branches only return a constant is the table of its cases. The lemmas say that the text of a
  number can be read back and that no two constants share a name.
\<close>

section \<open>Numbers\<close>

text \<open>The digits of a number, the first one leading, as both the streams and the macros of \<^verbatim>\<open>raw_write.h\<close> print them.\<close>

function digits :: "nat \<Rightarrow> nat \<Rightarrow> nat list" where
  "digits b n = (if b < 2 \<or> n < b then [n] else digits b (n div b) @ [n mod b])"
  by pat_completeness auto
termination by (relation "measure snd") auto

declare digits.simps [simp del]

definition digits_value :: "nat \<Rightarrow> nat list \<Rightarrow> nat" where
  "digits_value b ds = foldl (\<lambda>n d. n * b + d) 0 ds"

lemma digits_value_digits: "digits_value b (digits b n) = n"
proof (induction b n rule: digits.induct)
  case (1 b n)
  show ?case
  proof (cases "b < 2 \<or> n < b")
    case True
    then show ?thesis by (simp add: digits.simps [of b n] digits_value_def)
  next
    case False
    with 1 show ?thesis by (simp add: digits.simps [of b n] digits_value_def)
  qed
qed

lemma digits_less: "1 < b \<Longrightarrow> d \<in> set (digits b n) \<Longrightarrow> d < b"
proof (induction b n rule: digits.induct)
  case (1 b n)
  then show ?case by (cases "n < b") (auto simp: digits.simps [of b n])
qed

lemma digits_not_Nil [simp]: "digits b n \<noteq> []"
  by (subst digits.simps) simp

lemma length_digits: "1 < b \<Longrightarrow> n < b ^ k \<Longrightarrow> 0 < k \<Longrightarrow> length (digits b n) \<le> k"
proof (induction k arbitrary: n)
  case (Suc k)
  show ?case
  proof (cases "n < b")
    case False
    with Suc.prems have "0 < k" by (cases k) auto
    moreover have "n div b < b ^ k" using Suc.prems by (simp add: less_mult_imp_div_less mult.commute)
    ultimately show ?thesis using Suc False by (subst digits.simps) simp
  qed (subst digits.simps, simp)
qed simp

definition digit_char :: "nat \<Rightarrow> nat \<Rightarrow> char" where
  "digit_char ten d = (if d > 9 then char_of (ten + d - 10) else char_of (48 + d))"

definition show_nat :: "nat \<Rightarrow> string" where
  "show_nat n = map (digit_char 65) (digits 10 n)"

text \<open>\<open>len\<close> is \<^verbatim>\<open>length\<close>; \<^verbatim>\<open>std::setw\<close> and \<^verbatim>\<open>std::setfill\<close> pad the digits, never the prefix.\<close>

definition HexString_length :: "nat \<Rightarrow> 'a::len word \<Rightarrow> string" where
  "HexString_length len num =
     (let ds = map (digit_char 65) (digits 16 (unat num))
      in ''0x'' @ replicate (len - length ds) (CHR ''0'') @ ds)"

text \<open>The default of \<open>length\<close> is two digits a byte.\<close>

definition HexString :: "'a::len word \<Rightarrow> string" where
  "HexString num = HexString_length (LENGTH('a) div 8 * 2) num"

text \<open>Reading the text back.\<close>

definition char_digit :: "nat \<Rightarrow> char \<Rightarrow> nat" where
  "char_digit ten c = (if of_char c < (58 :: nat) then of_char c - 48 else of_char c + 10 - ten)"

lemma char_digit_char: "d < 16 \<Longrightarrow> 58 \<le> ten \<Longrightarrow> ten < 200 \<Longrightarrow> char_digit ten (digit_char ten d) = d"
  by (auto simp: char_digit_def digit_char_def of_char_of take_bit_eq_mod)

lemma char_digit_digits:
  "1 < b \<Longrightarrow> b \<le> 16 \<Longrightarrow> 58 \<le> ten \<Longrightarrow> ten < 200 \<Longrightarrow> map (char_digit ten) (map (digit_char ten) (digits b n)) = digits b n"
  using digits_less [of b _ n] by (auto simp: o_def intro!: map_idI char_digit_char dest: less_le_trans)

definition number_of :: "nat \<Rightarrow> nat \<Rightarrow> string \<Rightarrow> nat" where
  "number_of ten b s = digits_value b (map (char_digit ten) s)"

lemma number_of_digits:
  "1 < b \<Longrightarrow> b \<le> 16 \<Longrightarrow> 58 \<le> ten \<Longrightarrow> ten < 200 \<Longrightarrow> number_of ten b (map (digit_char ten) (digits b n)) = n"
  unfolding number_of_def by (simp only: char_digit_digits digits_value_digits)

lemma number_of_zeros: "number_of ten b (replicate k (CHR ''0'') @ s) = number_of ten b s"
  by (induction k) (simp_all add: number_of_def digits_value_def char_digit_def)

lemma show_nat_value: "number_of 65 10 (show_nat n) = n"
  by (simp add: show_nat_def number_of_digits)

lemma HexString_value: "number_of 65 16 (drop 2 (HexString_length len w)) = unat w"
  by (simp add: HexString_length_def Let_def number_of_zeros number_of_digits)

text \<open>A way to write values such that they can be read back, and what follows: different values are written differently.\<close>

locale text_format =
  fixes shown :: "'a \<Rightarrow> string" and val :: "string \<Rightarrow> 'b" and abs :: "'a \<Rightarrow> 'b"
  assumes val_shown: "val (shown x) = abs x"
    and abs_inj: "abs x = abs y \<Longrightarrow> x = y"
begin

lemma shown_eq_iff: "shown x = shown y \<longleftrightarrow> x = y"
  using val_shown abs_inj by metis

lemma shown_inj: "inj shown"
  by (rule injI) (simp add: shown_eq_iff)

end

interpretation hex: text_format "HexString_length len" "\<lambda>s. number_of 65 16 (drop 2 s)" unat for len
  by unfold_locales (simp_all add: HexString_value word_unat_eq_iff)

interpretation decimal: text_format show_nat "number_of 65 10" id
  by unfold_locales (simp_all add: show_nat_value)

text \<open>
  \<^verbatim>\<open>HexString\<close> loses nothing: the text behind the prefix is the number in base 16, and with a length that
  covers the type every number gets exactly that many digits.
\<close>
theorem HexString_roundtrip:
  "take 2 (HexString_length len w) = ''0x'' \<and> number_of 65 16 (drop 2 (HexString_length len w)) = unat w
    \<and> (LENGTH('a) \<le> 4 * len \<longrightarrow> length (HexString_length len (w :: 'a::len word)) = 2 + len)"
proof -
  have "length (digits 16 (unat w)) \<le> len" if "LENGTH('a) \<le> 4 * len"
  proof (rule length_digits)
    have "unat w < 2 ^ LENGTH('a)" by simp
    also have "\<dots> \<le> 2 ^ (4 * len)" using that by (intro power_increasing) simp_all
    also have "\<dots> = 16 ^ len" by (simp add: power_mult)
    finally show "unat w < 16 ^ len" .
    show "0 < len" using that len_gt_0 [where 'a = 'a] by linarith
  qed simp
  then show ?thesis by (simp add: HexString_length_def Let_def number_of_zeros number_of_digits)
qed

theorem HexString_roundtrip_witness:
  "length (HexString_length 4 (0xAB :: u16)) = 6 \<and> HexString (0xAB :: u16) = ''0x00AB''"
  using HexString_roundtrip [of 4 "0xAB :: u16"] by (simp add: HexString_def) code_simp

section \<open>Encodings of exception frames\<close>

definition dw_format :: "u8 \<Rightarrow> string" where
  "dw_format t =
     (if t = DW_EH_PE_absptr then ''DW_EH_PE_absptr'' else if t = DW_EH_PE_uleb128 then ''DW_EH_PE_uleb128''
      else if t = DW_EH_PE_udata2 then ''DW_EH_PE_udata2'' else if t = DW_EH_PE_udata4 then ''DW_EH_PE_udata4''
      else if t = DW_EH_PE_udata8 then ''DW_EH_PE_udata8'' else if t = DW_EH_PE_sleb128 then ''DW_EH_PE_sleb128''
      else if t = DW_EH_PE_sdata2 then ''DW_EH_PE_sdata2'' else if t = DW_EH_PE_sdata4 then ''DW_EH_PE_sdata4''
      else if t = DW_EH_PE_sdata8 then ''DW_EH_PE_sdata8'' else [])"

definition dw_application :: "u8 \<Rightarrow> string" where
  "dw_application t =
     (if t = DW_EH_PE_pcrel then '' + DW_EH_PE_pcrel'' else if t = DW_EH_PE_textrel then '' + DW_EH_PE_textrel''
      else if t = DW_EH_PE_datarel then '' + DW_EH_PE_datarel'' else if t = DW_EH_PE_funcrel then '' + DW_EH_PE_funcrel''
      else if t = DW_EH_PE_aligned then '' + DW_EH_PE_aligned'' else [])"

definition ShowDW_EH_PE :: "u8 \<Rightarrow> string" where
  "ShowDW_EH_PE type =
     (if type = DW_EH_PE_omit then ''DW_EH_PE_omit''
      else let ret = dw_format (type AND 0xf) @ dw_application (type AND 0xf0)
           in if type = DW_EH_PE_SOLD_DUMMY then ''DW_EH_PE_SOLD_DUMMY(0xEE)''
              else if ret = [] then HexString_length 2 type else ret)"

text \<open>
  The second \<^verbatim>\<open>switch\<close> keeps the bit \<^verbatim>\<open>DW_EH_PE_indirect\<close>, so for an indirect encoding no case matches and the
  application is missing in the text.
\<close>

lemma ShowDW_EH_PE_indirect:
  assumes "bit e 7" "dw_format (e AND 0xf) \<noteq> []"
  shows "ShowDW_EH_PE e = (if e = DW_EH_PE_SOLD_DUMMY then ShowDW_EH_PE e else dw_format (e AND 0xf))"
proof -
  have "bit (e AND 0xf0) 7" using assms(1) by (simp add: bit_simps)
  then have "dw_application (e AND 0xf0) = []" by (auto simp: dw_application_def)
  moreover have "e \<noteq> DW_EH_PE_omit" using assms(2) by (auto simp: dw_format_def)
  ultimately show ?thesis using assms(2) by (simp add: ShowDW_EH_PE_def)
qed

lemma ShowDW_EH_PE_pcrel_indirect:
  "ShowDW_EH_PE (DW_EH_PE_sdata4 OR DW_EH_PE_pcrel) = ''DW_EH_PE_sdata4 + DW_EH_PE_pcrel''
    \<and> ShowDW_EH_PE (DW_EH_PE_sdata4 OR DW_EH_PE_pcrel OR DW_EH_PE_indirect) = ''DW_EH_PE_sdata4''"
  by code_simp

section \<open>Dynamic entries\<close>

text \<open>
  The numbers are those of \<^verbatim>\<open>elf.h\<close>. Two of them change with the version of that header, the numbers of the common
  and of the processor specific tags: they are arguments. The names of \<^verbatim>\<open>DT_FLAGS_1\<close>, \<^verbatim>\<open>DT_VERDEF\<close>,
  \<^verbatim>\<open>DT_VERDEFNUM\<close> and \<^verbatim>\<open>DT_VERNEED\<close> are without their last character in the code, too.
\<close>

definition dynamic_entry_names :: "u32 \<Rightarrow> u32 \<Rightarrow> (u32 \<times> string) list" where
  "dynamic_entry_names dt_num dt_procnum =
    [(0, ''DT_NULL''), (1, ''DT_NEEDED''), (2, ''DT_PLTRELSZ''), (3, ''DT_PLTGOT''), (4, ''DT_HASH''),
     (5, ''DT_STRTAB''), (6, ''DT_SYMTAB''), (7, ''DT_RELA''), (8, ''DT_RELASZ''), (9, ''DT_RELAENT''),
     (10, ''DT_STRSZ''), (11, ''DT_SYMENT''), (12, ''DT_INIT''), (13, ''DT_FINI''), (14, ''DT_SONAME''),
     (15, ''DT_RPATH''), (16, ''DT_SYMBOLIC''), (17, ''DT_REL''), (18, ''DT_RELSZ''), (19, ''DT_RELENT''),
     (20, ''DT_PLTREL''), (21, ''DT_DEBUG''), (22, ''DT_TEXTREL''), (23, ''DT_JMPREL''), (24, ''DT_BIND_NOW''),
     (25, ''DT_INIT_ARRAY''), (26, ''DT_FINI_ARRAY''), (27, ''DT_INIT_ARRAYSZ''), (28, ''DT_FINI_ARRAYSZ''),
     (29, ''DT_RUNPATH''), (30, ''DT_FLAGS''), (32, ''DT_ENCODING''), (33, ''DT_PREINIT_ARRAYSZ''),
     (34, ''DT_SYMTAB_SHNDX''), (dt_num, ''DT_NUM''), (0x6000000d, ''DT_LOOS''), (0x6ffff000, ''DT_HIOS''),
     (0x70000000, ''DT_LOPROC''), (0x7fffffff, ''DT_HIPROC''), (dt_procnum, ''DT_PROCNUM''),
     (0x6ffffd00, ''DT_VALRNGLO''), (0x6ffffdf5, ''DT_GNU_PRELINKED''), (0x6ffffdf6, ''DT_GNU_CONFLICTSZ''),
     (0x6ffffdf7, ''DT_GNU_LIBLISTSZ''), (0x6ffffdf8, ''DT_CHECKSUM''), (0x6ffffdf9, ''DT_PLTPADSZ''),
     (0x6ffffdfa, ''DT_MOVEENT''), (0x6ffffdfb, ''DT_MOVESZ''), (0x6ffffdfc, ''DT_FEATURE_1''),
     (0x6ffffdfd, ''DT_POSFLAG_1''), (0x6ffffdfe, ''DT_SYMINSZ''), (0x6ffffdff, ''DT_SYMINENT''),
     (0x6ffffe00, ''DT_ADDRRNGLO''), (0x6ffffef5, ''DT_GNU_HASH''), (0x6ffffef6, ''DT_TLSDESC_PLT''),
     (0x6ffffef7, ''DT_TLSDESC_GOT''), (0x6ffffef8, ''DT_GNU_CONFLICT''), (0x6ffffef9, ''DT_GNU_LIBLIST''),
     (0x6ffffefa, ''DT_CONFIG''), (0x6ffffefb, ''DT_DEPAUDIT''), (0x6ffffefc, ''DT_AUDIT''),
     (0x6ffffefd, ''DT_PLTPAD''), (0x6ffffefe, ''DT_MOVETAB''), (0x6ffffeff, ''DT_SYMINFO''),
     (0x6ffffff0, ''DT_VERSYM''), (0x6ffffff9, ''DT_RELACOUNT''), (0x6ffffffa, ''DT_RELCOUNT''),
     (0x6ffffffb, ''DT_FLAGS_''), (0x6ffffffc, ''DT_VERDE''), (0x6ffffffd, ''DT_VERDEFNU''),
     (0x6ffffffe, ''DT_VERNEE''), (0x6fffffff, ''DT_VERNEEDNUM''), (0x7ffffffd, ''DT_AUXILIARY'')]"

definition ShowDynamicEntryType :: "u32 \<Rightarrow> u32 \<Rightarrow> u32 \<Rightarrow> string res" where
  "ShowDynamicEntryType dt_num dt_procnum type =
     (case map_of (dynamic_entry_names dt_num dt_procnum) type of None \<Rightarrow> Inl LOG_FATAL | Some s \<Rightarrow> Inr s)"

section \<open>Relocations\<close>

definition relocation_names :: "(u32 \<times> string) list" where
  "relocation_names =
    [(0, ''R_X86_64_NONE''), (1, ''R_X86_64_64''), (2, ''R_X86_64_PC32''), (3, ''R_X86_64_GOT32''),
     (4, ''R_X86_64_PLT32''), (5, ''R_X86_64_COPY''), (6, ''R_X86_64_GLOB_DAT''), (7, ''R_X86_64_JUMP_SLOT''),
     (8, ''R_X86_64_RELATIVE''), (9, ''R_X86_64_GOTPCREL''), (10, ''R_X86_64_32''), (11, ''R_X86_64_32S''),
     (12, ''R_X86_64_16''), (13, ''R_X86_64_PC16''), (14, ''R_X86_64_8''), (15, ''R_X86_64_PC8''),
     (16, ''R_X86_64_DTPMOD64''), (17, ''R_X86_64_DTPOFF64''), (18, ''R_X86_64_TPOFF64''),
     (19, ''R_X86_64_TLSGD''), (20, ''R_X86_64_TLSLD''), (21, ''R_X86_64_DTPOFF32''),
     (22, ''R_X86_64_GOTTPOFF''), (23, ''R_X86_64_TPOFF32''), (24, ''R_X86_64_PC64''),
     (25, ''R_X86_64_GOTOFF64''), (26, ''R_X86_64_GOTPC32''), (27, ''R_X86_64_GOT64''),
     (28, ''R_X86_64_GOTPCREL64''), (29, ''R_X86_64_GOTPC64''), (30, ''R_X86_64_GOTPLT64''),
     (31, ''R_X86_64_PLTOFF64''), (32, ''R_X86_64_SIZE32''), (33, ''R_X86_64_SIZE64''),
     (34, ''R_X86_64_GOTPC32_TLSDESC''), (36, ''R_X86_64_TLSDESC''), (37, ''R_X86_64_IRELATIVE''),
     (38, ''R_X86_64_RELATIVE64''), (41, ''R_X86_64_GOTPCRELX''), (42, ''R_X86_64_REX_GOTPCRELX''),
     (43, ''R_X86_64_NUM'')]"

definition ShowRelocationType :: "u32 \<Rightarrow> string" where
  "ShowRelocationType type =
     (case map_of relocation_names type of None \<Rightarrow> HexString_length 4 type | Some s \<Rightarrow> s)"

lemma map_of_snd_inj:
  assumes "distinct (map snd xs)" "map_of xs a = Some s" "map_of xs b = Some s"
  shows "a = b"
  using assms by (metis distinct_map in_set_conv_nth inj_onD map_of_SomeD prod.inject snd_conv)

lemma distinct_dynamic_entry_names: "distinct (map snd (dynamic_entry_names dt_num dt_procnum))"
  by (simp add: dynamic_entry_names_def)

lemma relocation_names_table:
  "distinct (map snd relocation_names)" "\<forall>(t, s) \<in> set relocation_names. hd s = CHR ''R''"
  by (simp_all add: relocation_names_def)

lemma hd_HexString: "hd (HexString_length len w) = CHR ''0''"
  by (simp add: HexString_length_def Let_def)

text \<open>
  The names tell the constants apart. Relocation types that are shown alike are equal, those without a name
  included, and so are the types of dynamic entries that have a name; the others end the process.
\<close>
theorem Show_names_injective:
  "(ShowRelocationType s = ShowRelocationType t \<longleftrightarrow> s = t)
    \<and> (ShowDynamicEntryType dt_num dt_procnum s = ShowDynamicEntryType dt_num dt_procnum t \<longleftrightarrow>
       s = t \<or> {s, t} \<inter> fst ` set (dynamic_entry_names dt_num dt_procnum) = {})"
proof
  have named: "hd x = CHR ''R''" if "map_of relocation_names a = Some x" for a x
    using relocation_names_table(2) map_of_SomeD [OF that] by auto
  have "HexString_length 4 a \<noteq> x" if "map_of relocation_names b = Some x" for a b :: u32 and x
    using named [OF that] hd_HexString [of 4 a] by auto
  then show "ShowRelocationType s = ShowRelocationType t \<longleftrightarrow> s = t"
    using map_of_snd_inj [OF relocation_names_table(1), of s _ t]
    by (auto simp: ShowRelocationType_def hex.shown_eq_iff split: option.splits)
  show "ShowDynamicEntryType dt_num dt_procnum s = ShowDynamicEntryType dt_num dt_procnum t \<longleftrightarrow>
       s = t \<or> {s, t} \<inter> fst ` set (dynamic_entry_names dt_num dt_procnum) = {}"
    using map_of_snd_inj [OF distinct_dynamic_entry_names, of dt_num dt_procnum s _ t]
    by (auto simp: ShowDynamicEntryType_def split: option.splits)
      (force simp: map_of_eq_None_iff dest: map_of_SomeD)+
qed

text \<open>The stream operator: the macros print the name of their argument and \<^verbatim>\<open>=\<close> in front of each value.\<close>

definition show_Elf_Rel :: "Elf_Rel \<Rightarrow> string" where
  "show_Elf_Rel r =
     ''Elf_Rela{r_offset= r.r_offset='' @ HexString_length 8 (r_offset r) @
     '', r_info= r.r_info='' @ HexString_length 8 (r_info r) @
     '', ELF_R_SYM(r.r_info)= ELF_R_SYM(r.r_info)='' @ HexString_length 4 (ELF_R_SYM (r_info r)) @
     '', ELF_R_TYPE(r.r_info)='' @ ShowRelocationType (ucast (ELF_R_TYPE (r_info r))) @
     '', r_addend= r.r_addend='' @ HexString_length 8 (r_addend r) @ ''}''"

end
