(* ===== verification/Raw_Write.thy ===== *)
theory Raw_Write
  imports Show
begin

text \<open>
  \<^verbatim>\<open>tools/raw_write.h\<close>: the macros that print to the standard error without the C library, for code that runs
  before it is ready. The system call is the appending of bytes to a text; the assembler that makes it, and the
  macros that are a single machine instruction, are not modelled.
\<close>

section \<open>Strings\<close>

definition RAW_WRITE :: "string \<Rightarrow> string \<Rightarrow> string res" where
  "RAW_WRITE buf err = Inr (err @ buf)"

text \<open>The loop looks for the terminating NUL.\<close>

definition RAW_PRINT_STR :: "string \<Rightarrow> string \<Rightarrow> string res" where
  "RAW_PRINT_STR buf err = RAW_WRITE (takeWhile (\<lambda>c. c \<noteq> CHR 0x00) buf) err"

section \<open>Numbers\<close>

text \<open>
  The digits are written into the 21 bytes of \<open>buf\<close> from the last one down, the first argument is what is already
  there; a position below the array is undefined behaviour.
\<close>

function RAW_digits :: "string \<Rightarrow> nat \<Rightarrow> nat \<Rightarrow> string res" where
  "RAW_digits buf b n =
     (if length buf > 20 then Inl Undefined
      else let v = n mod b;
               c = (if v > 9 then char_of (97 + v - 10) else char_of (48 + v));
               n' = n div b
           in if n' \<noteq> 0 then RAW_digits (c # buf) b n' else Inr (c # buf))"
  by pat_completeness auto
termination by (relation "measure (\<lambda>(buf, _, _). 21 - length buf)") auto

declare RAW_digits.simps [simp del]

definition RAW_PRINT_BASE_N :: "64 word \<Rightarrow> nat \<Rightarrow> string \<Rightarrow> string res" where
  "RAW_PRINT_BASE_N num b err =
     (let was_minus = sint num < 0
      in rbind (if was_minus then if sint num = - (2 ^ 63) then Inl Undefined else Inr (- num) else Inr num) (\<lambda>n.
         rbind (RAW_digits [] b (nat (sint n))) (\<lambda>buf.
         rbind (if was_minus then if length buf > 20 then Inl Undefined else Inr (CHR ''-'' # buf) else Inr buf) (\<lambda>p.
         RAW_WRITE p err))))"

definition RAW_PRINT_HEX :: "64 word \<Rightarrow> string \<Rightarrow> string res" where
  "RAW_PRINT_HEX num = RAW_PRINT_BASE_N num 16"

definition RAW_PRINT_INT :: "64 word \<Rightarrow> string \<Rightarrow> string res" where
  "RAW_PRINT_INT num = RAW_PRINT_BASE_N num 10"

definition RAW_PRINT_PTR :: "64 word \<Rightarrow> string \<Rightarrow> string res" where
  "RAW_PRINT_PTR num err = rbind (RAW_WRITE ''0x'' err) (RAW_PRINT_BASE_N num 16)"

definition RAW_PRINT_NL_AFTER_SOMETHING :: "(string \<Rightarrow> string res) \<Rightarrow> string \<Rightarrow> string res" where
  "RAW_PRINT_NL_AFTER_SOMETHING print err = rbind (print err) (RAW_WRITE [CHR 0x0A])"

definition RAW_PUTS_STR :: "string \<Rightarrow> string \<Rightarrow> string res" where
  "RAW_PUTS_STR buf = RAW_PRINT_NL_AFTER_SOMETHING (RAW_PRINT_STR buf)"

definition RAW_PUTS_HEX :: "64 word \<Rightarrow> string \<Rightarrow> string res" where
  "RAW_PUTS_HEX num = RAW_PRINT_NL_AFTER_SOMETHING (RAW_PRINT_HEX num)"

definition RAW_PUTS_INT :: "64 word \<Rightarrow> string \<Rightarrow> string res" where
  "RAW_PUTS_INT num = RAW_PRINT_NL_AFTER_SOMETHING (RAW_PRINT_INT num)"

definition RAW_PUTS_PTR :: "64 word \<Rightarrow> string \<Rightarrow> string res" where
  "RAW_PUTS_PTR num = RAW_PRINT_NL_AFTER_SOMETHING (RAW_PRINT_PTR num)"

section \<open>What is printed\<close>

lemma RAW_digits_eq:
  "1 < b \<Longrightarrow> length (digits b n) + length buf \<le> 21 \<Longrightarrow> RAW_digits buf b n = Inr (map (digit_char 97) (digits b n) @ buf)"
proof (induction buf b n rule: RAW_digits.induct)
  case (1 buf b n)
  have room: "length buf \<le> 20" using 1(3) by (cases "digits b n") simp_all
  show ?case
  proof (cases "n < b")
    case True
    then show ?thesis using 1(2) room
      by (subst RAW_digits.simps) (simp add: digits.simps [of b n] digit_char_def)
  next
    case False
    then have "n div b \<noteq> 0" using 1(2) by (simp add: div_eq_0_iff)
    moreover have "digits b n = digits b (n div b) @ [n mod b]" using False 1(2) by (subst digits.simps) simp
    ultimately show ?thesis using 1 room
      by (subst RAW_digits.simps) (simp add: digit_char_def)
  qed
qed

definition number_of_signed :: "nat \<Rightarrow> string \<Rightarrow> int" where
  "number_of_signed b s =
     (if s \<noteq> [] \<and> hd s = CHR ''-'' then - int (number_of 97 b (tl s)) else int (number_of 97 b s))"

lemma digit_char_not_minus:
  assumes "d < 16"
  shows "digit_char 97 d \<noteq> CHR ''-''"
proof
  assume "digit_char 97 d = CHR ''-''"
  then have "of_char (digit_char 97 d) = (45 :: nat)" by simp
  moreover have "of_char (digit_char 97 d) = (if d > 9 then 87 + d else 48 + d)"
    using assms by (simp add: digit_char_def of_char_of take_bit_eq_mod)
  ultimately show False by (simp split: if_splits)
qed

lemma length_digits_63:
  assumes "b \<in> {10, 16}" "n < 2 ^ 63"
  shows "length (digits b n) \<le> 19"
proof (rule length_digits)
  have "(2 ^ 63 :: nat) \<le> 10 ^ 19" "(2 ^ 63 :: nat) \<le> 16 ^ 19" by simp_all
  then show "n < b ^ 19" using assms by auto
qed (use assms in auto)

text \<open>
  A number is printed in base 10 or 16 such that it can be read back, within the 21 bytes the macro has for it:
  for every number but the least one, whose negation overflows.
\<close>
theorem RAW_PRINT_BASE_N_value:
  assumes "b \<in> {10, 16}"
  shows "if sint num = - (2 ^ 63) then RAW_PRINT_BASE_N num b err = Inl Undefined
    else \<exists>p. RAW_PRINT_BASE_N num b err = Inr (err @ p) \<and> length p \<le> 20 \<and> number_of_signed b p = sint num"
proof -
  have b: "1 < b" "b \<le> 16" using assms by auto
  have lo: "- (2 ^ 63) \<le> sint num" and hi: "sint num < 2 ^ 63"
    using sint_greater_eq [of num] sint_less [of num] by simp_all
  define n where "n = nat \<bar>sint num\<bar>"
  have dig: "RAW_digits [] b n = Inr (map (digit_char 97) (digits b n)) \<and> length (digits b n) \<le> 19"
    if "sint num \<noteq> - (2 ^ 63)"
  proof -
    have "n < 2 ^ 63" using that lo hi by (simp add: n_def nat_less_iff)
    then show ?thesis using RAW_digits_eq [of b n "[]"] length_digits_63 [OF assms] b by fastforce
  qed
  have hd: "hd (map (digit_char 97) (digits b n)) \<noteq> CHR ''-''"
    using digit_char_not_minus digits_less [OF b(1), of _ n] b(2)
    by (simp add: hd_map) (meson digits_not_Nil hd_in_set le_trans less_le_trans)
  have val: "number_of 97 b (map (digit_char 97) (digits b n)) = n" using b by (simp add: number_of_digits)
  show ?thesis
  proof (cases "sint num < 0")
    case True
    have "nat (sint (- num)) = n" if "sint num \<noteq> - (2 ^ 63)"
    proof -
      have "sint (- num) = - sint num"
        using that lo hi True by (simp add: sint_word_ariths signed_take_bit_int_eq_self)
      then show ?thesis using True by (simp add: n_def)
    qed
    then show ?thesis using True dig val
      by (cases "sint num = - (2 ^ 63)")
        (simp_all add: RAW_PRINT_BASE_N_def Let_def RAW_WRITE_def number_of_signed_def n_def)
  next
    case False
    then have "nat (sint num) = n" by (simp add: n_def)
    then show ?thesis using False dig val hd
      by (auto simp: RAW_PRINT_BASE_N_def Let_def RAW_WRITE_def number_of_signed_def n_def)
  qed
qed

theorem RAW_PRINT_BASE_N_value_witness:
  "\<exists>p. RAW_PRINT_BASE_N (- 42) 10 [] = Inr ([] @ p) \<and> length p \<le> 20 \<and> number_of_signed 10 p = - 42"
proof -
  have "sint (- 42 :: 64 word) = - 42" by simp
  then show ?thesis using RAW_PRINT_BASE_N_value [of 10 "- 42" "[]"] by simp
qed

text \<open>A pointer into the upper half of the address space is printed as a negative number.\<close>

lemma RAW_PRINT_PTR_upper: "RAW_PRINT_PTR 0xffffffffffffff00 [] = Inr ''0x-100''"
  by code_simp

end
