(* ===== verification/Printing.thy ===== *)
theory Printing
  imports Show Elf_Wf Relocate
begin

text \<open>
  The functions of \<^verbatim>\<open>elf_binary.cc\<close> that show what the reader found, and the five programs
  \<^verbatim>\<open>print_dtrela.cc\<close>, \<^verbatim>\<open>print_dynsymtab.cc\<close>, \<^verbatim>\<open>print_ehframe.cc\<close>, \<^verbatim>\<open>print_tls.cc\<close> and \<^verbatim>\<open>print_version.cc\<close> around
  them. A stream is the text written to it; a failure in the middle is the failure of the program.
\<close>

section \<open>Versions\<close>

definition show_num :: "string \<Rightarrow> 'a::len word \<Rightarrow> string" where
  "show_num key v = key @ show_nat (unat v)"

text \<open>\<^verbatim>\<open>PrintVersyms\<close>: the lines it logs.\<close>

definition ELFBinary_PrintVersyms :: "ELFBinary \<Rightarrow> string list res" where
  "ELFBinary_PrintVersyms bn =
     (case bn_versym bn of
        None \<Rightarrow> Inr []
      | Some versym \<Rightarrow>
          if bn_nsyms bn = 0 then Inr []
          else rfold (\<lambda>i ls.
                 rbind (versym_at bn versym (int i)) (\<lambda>v.
                 if is_special_ver_ndx v then
                   rbind (special_ver_ndx_to_str v) (\<lambda>s. Inr (ls @ [''VERSYM: '' @ s]))
                 else Inr (ls @ [show_num ''VERSYM: '' v])))
               [0..<bn_nsyms bn + 1] [])"

fun show_vernaux :: "ELFBinary \<Rightarrow> nat \<Rightarrow> u64 \<Rightarrow> string \<Rightarrow> string res" where
  "show_vernaux bn 0 vna ss = Inr ss"
| "show_vernaux bn (Suc n) vna ss =
     rbind (read_struct dec_Elf_Vernaux 16 (bn_head bn) vna) (\<lambda>a.
     rbind (ELFBinary_Str (ucast (vna_name a)) bn) (\<lambda>name.
     show_vernaux bn n (vna + ucast (vna_next a))
       (ss @ show_num '' VERNAUX: hash='' (vna_hash a) @ show_num '' flags='' (vna_flags a) @
        show_num '' other='' (vna_other a) @ '' name='' @ name @ show_num '' next='' (vna_next a) @ [CHR 0x0A])))"

fun show_verneed :: "ELFBinary \<Rightarrow> nat \<Rightarrow> u64 \<Rightarrow> string \<Rightarrow> string res" where
  "show_verneed bn 0 vn ss = Inr ss"
| "show_verneed bn (Suc n) vn ss =
     rbind (read_struct dec_Elf_Verneed 16 (bn_head bn) vn) (\<lambda>v.
     rbind (ELFBinary_Str (ucast (vn_file v)) bn) (\<lambda>file.
     rbind (show_vernaux bn (unat (vn_cnt v)) (vn + ucast (vn_aux v))
       (ss @ show_num ''VERNEED: ver='' (vn_version v) @ show_num '' cnt='' (vn_cnt v) @ '' file='' @ file @
        show_num '' aux='' (vn_aux v) @ show_num '' next='' (vn_next v) @ [CHR 0x0A])) (\<lambda>ss.
     show_verneed bn n (vn + ucast (vn_next v)) ss)))"

fun show_verdaux :: "ELFBinary \<Rightarrow> nat \<Rightarrow> u64 \<Rightarrow> string \<Rightarrow> string res" where
  "show_verdaux bn 0 vda ss = Inr ss"
| "show_verdaux bn (Suc n) vda ss =
     rbind (read_struct dec_Elf_Verdaux 8 (bn_head bn) vda) (\<lambda>a.
     rbind (ELFBinary_Str (ucast (vda_name a)) bn) (\<lambda>name.
     show_verdaux bn n (vda + ucast (vda_next a))
       (ss @ ''    VERDEF: name='' @ name @ show_num '' next='' (vda_next a) @ [CHR 0x0A])))"

fun show_verdef :: "ELFBinary \<Rightarrow> nat \<Rightarrow> u64 \<Rightarrow> string \<Rightarrow> string res" where
  "show_verdef bn 0 vd ss = Inr ss"
| "show_verdef bn (Suc n) vd ss =
     rbind (read_struct dec_Elf_Verdef 20 (bn_head bn) vd) (\<lambda>d.
     rbind (show_verdaux bn (unat (vd_cnt d)) (vd + ucast (vd_aux d))
       (ss @ show_num ''VERDEF: flags='' (vd_flags d) @ show_num '' ndx='' (vd_ndx d) @ show_num '' cnt='' (vd_cnt d) @
        show_num '' hash='' (vd_hash d) @ show_num '' next='' (vd_next d) @ [CHR 0x0A])) (\<lambda>ss.
     show_verdef bn n (vd + ucast (vd_next d)) ss))"

definition ELFBinary_ShowVersion :: "ELFBinary \<Rightarrow> string res" where
  "ELFBinary_ShowVersion bn =
     rbind (case bn_verneed bn of
              None \<Rightarrow> Inr []
            | Some vn \<Rightarrow> show_verneed bn (unat (bn_verneednum bn)) vn []) (\<lambda>ss.
     case bn_verdef bn of
       None \<Rightarrow> Inr ss
     | Some vd \<Rightarrow> show_verdef bn (unat (bn_verdefnum bn)) vd ss)"

section \<open>The exception frame header\<close>

text \<open>An index behind the end of one of the three vectors is undefined behaviour.\<close>

definition show_eh_entry :: "EHFrameHeader \<Rightarrow> nat \<Rightarrow> string \<Rightarrow> string res" where
  "show_eh_entry h i ss =
     (if length (eh_table h) \<le> i \<or> length (eh_cies h) \<le> i \<or> length (eh_fdes h) \<le> i then Inl Undefined
      else let t = eh_table h ! i; cie = eh_cies h ! i; fde = eh_fdes h ! i
           in Inr (ss @ concat (map (\<lambda>l. l @ [CHR 0x0A])
                [''---------- table['' @ show_nat i @ ''] ----------'',
                 ''initial_loc: '' @ HexString (te_initial_loc t),
                 ''fde_ptr: '' @ HexString (te_fde_ptr t),
                 ''cie.length: '' @ HexString (cie_length cie),
                 ''cie.CIE_id: '' @ HexString (cie_CIE_id cie),
                 ''cie.version: '' @ HexString (cie_version cie),
                 ''cie.FDE_encoding: '' @ ShowDW_EH_PE (cie_FDE_encoding cie),
                 ''cie.LSDA_encoding: '' @ ShowDW_EH_PE (cie_LSDA_encoding cie),
                 ''fde.length: '' @ HexString (fde_length fde),
                 ''fde.CIE_delta: '' @ HexString (fde_CIE_delta fde),
                 ''fde.initial_loc: '' @ HexString (fde_initial_loc fde)])))"

definition ELFBinary_ShowEHFrame :: "ELFBinary \<Rightarrow> string res" where
  "ELFBinary_ShowEHFrame bn =
     (let h = bn_eh_frame_header bn
      in rfold (show_eh_entry h) [0..<unat (eh_fde_count h)]
           (concat (map (\<lambda>l. l @ [CHR 0x0A])
              [''version: '' @ HexString (eh_version h),
               ''eh_frame_ptr_enc: '' @ ShowDW_EH_PE (eh_frame_ptr_enc h),
               ''fde_count_enc: '' @ ShowDW_EH_PE (eh_fde_count_enc h),
               ''table_enc: '' @ ShowDW_EH_PE (eh_table_enc h),
               ''eh_frame_ptr: '' @ HexString (eh_frame_ptr h),
               show_num ''fde_count: '' (eh_fde_count h)])))"

section \<open>Symbols, relocations and thread-local storage\<close>

definition show_syminfo :: "Syminfo \<Rightarrow> string \<Rightarrow> string res" where
  "show_syminfo it ss =
     rbind (if si_versym it = NO_VERSION_INFO then Inr ''NO_VERSION_INFO''
            else if is_special_ver_ndx (si_versym it) then special_ver_ndx_to_str (si_versym it)
            else Inr (si_soname it @ '' '' @ si_version it)) (\<lambda>v.
     Inr (ss @ si_name it @ '': '' @ v @ [CHR 0x0A]))"

definition ELFBinary_ShowDynSymtab :: "ELFBinary \<Rightarrow> string res" where
  "ELFBinary_ShowDynSymtab bn = rfold show_syminfo (bn_syms bn) []"

text \<open>One of the two loops of \<^verbatim>\<open>ShowDtRela\<close>, over \<open>num\<close> relocations at \<open>rels\<close>.\<close>

definition show_rel :: "ELFBinary \<Rightarrow> u64 option \<Rightarrow> nat \<Rightarrow> string \<Rightarrow> string res" where
  "show_rel bn rels i ss =
     (case (rels, bn_symtab bn) of
        (Some p, Some symtab) \<Rightarrow>
          rbind (read_rel bn p i) (\<lambda>r.
          rbind (sym_at bn symtab (uint (ELF_R_SYM (r_info r)))) (\<lambda>sym.
          rbind (ELFBinary_Str (ucast (st_name sym)) bn) (\<lambda>name.
          Inr (ss @ show_num ''r_offset = '' (r_offset r) @ show_num '', r_info = '' (r_info r) @
               '', r_addend = '' @ (if sint (r_addend r) < 0 then ''-'' else []) @ show_nat (nat \<bar>sint (r_addend r)\<bar>) @
               '', symbol name = '' @ name @ [CHR 0x0A]))))
      | _ \<Rightarrow> Inl Bad_access)"

definition ELFBinary_ShowDtRela :: "ELFBinary \<Rightarrow> string res" where
  "ELFBinary_ShowDtRela bn =
     rbind (CHECK (bn_rel bn \<noteq> None)) (\<lambda>_.
     rbind (rfold (show_rel bn (bn_rel bn)) [0..<unat (bn_num_rels bn)]
              (show_num ''num_rels_ = '' (bn_num_rels bn) @ [CHR 0x0A])) (\<lambda>ss.
     rfold (show_rel bn (bn_plt_rel bn)) [0..<unat (bn_num_plt_rels bn)]
       (ss @ show_num ''num_plt_rels_ = '' (bn_num_plt_rels bn) @ [CHR 0x0A])))"

definition ELFBinary_ShowTLS :: "ELFBinary \<Rightarrow> string res" where
  "ELFBinary_ShowTLS bn =
     (case bn_tls bn of
        None \<Rightarrow> Inl Bad_access
      | Some t \<Rightarrow>
          Inr (concat (map (\<lambda>l. l @ [CHR 0x0A])
            [show_num ''p_offset = '' (p_offset t), show_num ''p_vaddr = '' (p_vaddr t),
             show_num ''p_paddr = '' (p_paddr t), show_num ''p_filesz = '' (p_filesz t),
             show_num ''p_memsz = '' (p_memsz t), show_num ''p_flags = '' (p_flags t),
             show_num ''p_align = '' (p_align t)])))"

text \<open>
  The stream operator of \<^verbatim>\<open>Syminfo\<close>, for the value \<open>p\<close> of the pointer \<^verbatim>\<open>sym\<close>. A pointer is written in hexadecimal
  with its prefix, the null pointer as a digit, and the fill characters stand before the prefix.
\<close>

definition show_pointer16 :: "u64 \<Rightarrow> string" where
  "show_pointer16 p =
     (let ds = (if p = 0 then ''0'' else ''0x'' @ map (digit_char 97) (digits 16 (unat p)))
      in replicate (16 - length ds) (CHR ''0'') @ ds)"

definition show_Syminfo :: "u64 \<Rightarrow> Syminfo \<Rightarrow> string" where
  "show_Syminfo p s =
     ''Syminfo{name='' @ si_name s @ '', soname='' @ si_soname s @ '', version='' @ si_version s @
     show_num '', versym='' (si_versym s) @ '', sym=0x'' @ show_pointer16 p @ ''}''"

text \<open>\<^verbatim>\<open>PrintAllVersion\<close> and \<^verbatim>\<open>PrintAllVersyms\<close> of the linker, over the objects it links.\<close>

definition Sold_PrintAllVersion :: "Sold \<Rightarrow> string res" where
  "Sold_PrintAllVersion so =
     rfold (\<lambda>b out. rbind (ELFBinary_ShowVersion (binary so b)) (\<lambda>s. Inr (out @ s @ [CHR 0x0A]))) (so_link_binaries so) []"

definition Sold_PrintAllVersyms :: "Sold \<Rightarrow> string list res" where
  "Sold_PrintAllVersyms so =
     rfold (\<lambda>b ls. rbind (ELFBinary_PrintVersyms (binary so b)) (\<lambda>l. Inr (ls @ l))) (so_link_binaries so) []"

section \<open>The programs\<close>

text \<open>
  The exit status and the standard output, for the arguments without the program's name. For an object of another
  class \<^verbatim>\<open>ReadELF\<close> returns no object and the programs use a null pointer.
\<close>

definition print_tool :: "(ELFBinary \<Rightarrow> string res) \<Rightarrow> world \<Rightarrow> string list \<Rightarrow> (nat \<times> string) res" where
  "print_tool show w args =
     (if length args \<noteq> 1 then Inr (1, [])
      else let f = hd args
           in rbind (ReadELF (w_mmap w f) (w_files w) f) (\<lambda>b.
              case b of
                None \<Rightarrow> Inl Bad_access
              | Some bn \<Rightarrow> rbind (show bn) (\<lambda>s. Inr (0, s))))"

definition print_dtrela_main :: "world \<Rightarrow> string list \<Rightarrow> (nat \<times> string) res" where
  "print_dtrela_main = print_tool ELFBinary_ShowDtRela"

definition print_ehframe_main :: "world \<Rightarrow> string list \<Rightarrow> (nat \<times> string) res" where
  "print_ehframe_main = print_tool ELFBinary_ShowEHFrame"

definition print_tls_main :: "world \<Rightarrow> string list \<Rightarrow> (nat \<times> string) res" where
  "print_tls_main = print_tool ELFBinary_ShowTLS"

definition print_version_main :: "world \<Rightarrow> string list \<Rightarrow> (nat \<times> string) res" where
  "print_version_main = print_tool ELFBinary_ShowVersion"

text \<open>The linker object is made only for its map of file names; its search for libraries may not end.\<close>

definition print_dynsymtab_main :: "nat \<Rightarrow> world \<Rightarrow> statics \<Rightarrow> string list \<Rightarrow> (nat \<times> string) run" where
  "print_dynsymtab_main fuel w sc args =
     (if length args \<noteq> 1 then Some (Inr (1, []))
      else let f = hd args
           in dbind (Sold_new fuel w sc f [] [] [] False) (\<lambda>so.
              Some (rbind (ReadELF (w_mmap w f) (w_files w) f) (\<lambda>b.
                case b of
                  None \<Rightarrow> Inl Bad_access
                | Some bn \<Rightarrow>
                    rbind (ELFBinary_ReadDynSymtab (so_filename_to_soname so) bn) (\<lambda>bn.
                    rbind (ELFBinary_ShowDynSymtab bn) (\<lambda>s. Inr (0, s)))))))"

section \<open>What the programs do\<close>

lemma show_eh_entry_total:
  "eh_wf h \<Longrightarrow> i < unat (eh_fde_count h) \<Longrightarrow> \<exists>s'. show_eh_entry h i s = Inr s'"
  by (auto simp: show_eh_entry_def eh_wf_def Let_def)

lemma ShowEHFrame_total: "eh_wf (bn_eh_frame_header bn) \<Longrightarrow> \<exists>s. ELFBinary_ShowEHFrame bn = Inr s"
  unfolding ELFBinary_ShowEHFrame_def Let_def
  using rfold_total [where P = "\<lambda>_. True" and f = "show_eh_entry (bn_eh_frame_header bn)"
      and xs = "[0..<unat (eh_fde_count (bn_eh_frame_header bn))]"] show_eh_entry_total
  by (metis atLeastLessThan_iff set_upt)


text \<open>\<^verbatim>\<open>print_tls\<close> follows a null pointer for an object without thread-local storage.\<close>

lemma print_tls_null: "bn_tls bn = None \<Longrightarrow> ELFBinary_ShowTLS bn = Inl Bad_access"
  by (simp add: ELFBinary_ShowTLS_def)

end
