(* ===== verification/Tracer.thy ===== *)
theory Tracer
  imports Show Library_Search
begin

text \<open>
  \<^verbatim>\<open>tools/tracer.cc\<close>: the program that runs another one, or attaches to it, a single instruction at a time and prints
  the address of every instruction it executes. The system calls are a parameter, a record of functions on the state
  \<open>'k\<close> of the system; the text on \<^verbatim>\<open>stdout\<close> and \<^verbatim>\<open>stderr\<close> is part of the state. The loop ends when the process it
  waits for does, so it is a partial function; the theorem says when it returns and what it has printed by then.
\<close>

section \<open>System calls\<close>

text \<open>What the child of \<^verbatim>\<open>fork\<close> does, in its order; \<open>Child_traceme\<close> has the line of the call, for its message.\<close>

datatype child_step = Child_traceme nat | Child_execv string "string list" | Child_abort

text \<open>
  A call of \<^verbatim>\<open>ptrace\<close> that fails has the text of its error as \<^const>\<open>Inl\<close>. \<^verbatim>\<open>wait\<close> has \<^const>\<open>None\<close> when it fails, the
  status otherwise. \<^verbatim>\<open>fork\<close> takes what the child is to do and has its result in the parent.
\<close>

record 'k system =
  sys_attach :: "u32 \<Rightarrow> 'k \<Rightarrow> (string + unit) \<times> 'k"
  sys_getregs :: "u32 \<Rightarrow> 'k \<Rightarrow> (string + u64) \<times> 'k"
  sys_singlestep :: "u32 \<Rightarrow> 'k \<Rightarrow> (string + unit) \<times> 'k"
  sys_fork :: "child_step list \<Rightarrow> 'k \<Rightarrow> u32 \<times> 'k"
  sys_wait :: "'k \<Rightarrow> u32 option \<times> 'k"

record 'k tracer =
  tr_sys :: 'k
  tr_stdout :: string
  tr_stderr :: string

text \<open>The macro of \<^verbatim>\<open>sys/wait.h\<close>.\<close>

definition WIFSTOPPED :: "u32 \<Rightarrow> bool" where
  "WIFSTOPPED status \<longleftrightarrow> status AND 0xff = 0x7f"

text \<open>\<^verbatim>\<open>printf("%p\\n")\<close> as the C library of Linux writes it.\<close>

definition pointer_line :: "u64 \<Rightarrow> string" where
  "pointer_line p =
     (if p = 0 then ''(nil)'' else ''0x'' @ map (digit_char 97) (digits 16 (unat p))) @ [CHR 0x0A]"

text \<open>\<^verbatim>\<open>strtol(s, 0, 10)\<close>: white space, a sign, digits; out of range values become the nearest bound.\<close>

definition is_digit :: "char \<Rightarrow> bool" where
  "is_digit c \<longleftrightarrow> 48 \<le> (of_char c :: nat) \<and> (of_char c :: nat) \<le> 57"

definition strtol :: "string \<Rightarrow> int" where
  "strtol s =
     (let s = dropWhile is_space s;
          negative = (s \<noteq> [] \<and> hd s = CHR ''-'');
          ds = takeWhile is_digit (if s \<noteq> [] \<and> (hd s = CHR ''-'' \<or> hd s = CHR ''+'') then tl s else s);
          n = int (number_of 65 10 ds)
      in max (- (2 ^ 63)) (min (2 ^ 63 - 1) (if negative then - n else n)))"

lemma strtol_show_nat:
  assumes "n < 2 ^ 63"
  shows "strtol (show_nat n) = int n"
proof -
  have dig: "is_digit c" if "c \<in> set (show_nat n)" for c
    using that digits_less [of 10 _ n]
    by (fastforce simp: show_nat_def digit_char_def is_digit_def of_char_of take_bit_eq_mod)
  obtain c cs where c: "show_nat n = c # cs" by (cases "show_nat n") (auto simp: show_nat_def)
  then have "is_digit c" using dig by simp
  then have "\<not> is_space c" "c \<noteq> CHR ''-''" "c \<noteq> CHR ''+''" by (auto simp: is_digit_def is_space_def)
  moreover have "takeWhile is_digit (show_nat n) = show_nat n" using dig by (simp add: takeWhile_eq_all_conv)
  ultimately have "strtol (show_nat n) = max (- (2 ^ 63)) (min (2 ^ 63 - 1) (int (number_of 65 10 (show_nat n))))"
    by (simp add: strtol_def c)
  then show ?thesis using assms by (simp add: show_nat_value)
qed

section \<open>The program\<close>

text \<open>The message of \<^verbatim>\<open>checked_ptrace\<close>; the macro passes the name of the request and its place.\<close>

definition checked_ptrace :: "string \<Rightarrow> nat \<Rightarrow> string \<Rightarrow> (string + 'a) \<times> 'k \<Rightarrow> 'k tracer \<Rightarrow> (string + 'a) \<times> 'k tracer" where
  "checked_ptrace srcfile line req_str = (\<lambda>(r, k) t.
     (let t = t\<lparr>tr_sys := k\<rparr>
      in (r, case r of
               Inl msg \<Rightarrow> t\<lparr>tr_stderr := tr_stderr t @ srcfile @ '':'' @ show_nat line @ '': ptrace('' @ req_str @ ''): ''
                             @ msg @ [CHR 0x0A]\<rparr>
             | Inr _ \<Rightarrow> t)))"

text \<open>
  \<^verbatim>\<open>main\<close> up to the loop, for the arguments behind the program's name; the pointers behind them are null. The result of
  \<^verbatim>\<open>strtol\<close> is cut to a \<^verbatim>\<open>pid_t\<close>.
\<close>

definition tracer_start :: "'k system \<Rightarrow> string \<Rightarrow> string list \<Rightarrow> 'k tracer \<Rightarrow> (u32 \<times> 'k tracer) res" where
  "tracer_start sys srcfile args t =
     (case args of
        [] \<Rightarrow> Inl Bad_access
      | program # rest \<Rightarrow>
          if program = ''-p'' then
            (case rest of
               [] \<Rightarrow> Inl Bad_access
             | number # _ \<Rightarrow>
                 (let pid = of_int (strtol number);
                      (_, t) = checked_ptrace srcfile 44 ''PTRACE_ATTACH'' (sys_attach sys pid (tr_sys t)) t
                  in Inr (pid, t)))
          else
            (let (pid, k) = sys_fork sys [Child_traceme 48, Child_execv program args, Child_abort] (tr_sys t)
             in Inr (pid, t\<lparr>tr_sys := k\<rparr>)))"

text \<open>
  One round of the loop on \<^verbatim>\<open>prev\<close> and the state; the flag says whether it goes on. \<^verbatim>\<open>status\<close> and \<^verbatim>\<open>regs\<close> have no value
  before the calls write them, so a round in which a call fails reads what was never written.
\<close>

definition tracer_step :: "'k system \<Rightarrow> string \<Rightarrow> u32 \<Rightarrow> u64 \<times> 'k tracer \<Rightarrow> (bool \<times> u64 \<times> 'k tracer) res" where
  "tracer_step sys srcfile pid = (\<lambda>(prev, t).
     (case sys_wait sys (tr_sys t) of
        (None, k) \<Rightarrow> Inl Undefined
      | (Some status, k) \<Rightarrow>
          (let t = t\<lparr>tr_sys := k\<rparr>
           in if \<not> WIFSTOPPED status then Inr (False, prev, t)
              else
                (case checked_ptrace srcfile 61 ''PTRACE_GETREGS'' (sys_getregs sys pid (tr_sys t)) t of
                   (Inl _, t) \<Rightarrow> Inl Undefined
                 | (Inr ip, t) \<Rightarrow>
                     (let t = (if prev \<noteq> ip then t\<lparr>tr_stdout := tr_stdout t @ pointer_line ip\<rparr> else t);
                          (_, t) = checked_ptrace srcfile 65 ''PTRACE_SINGLESTEP'' (sys_singlestep sys pid (tr_sys t)) t
                      in Inr (True, ip, t))))))"

partial_function (option) tracer_loop ::
  "'k system \<Rightarrow> string \<Rightarrow> u32 \<Rightarrow> u64 \<times> 'k tracer \<Rightarrow> (u64 \<times> 'k tracer) run" where
  "tracer_loop sys srcfile pid st =
     (case tracer_step sys srcfile pid st of
        Inl e \<Rightarrow> Some (Inl e)
      | Inr (go_on, st') \<Rightarrow> if go_on then tracer_loop sys srcfile pid st' else Some (Inr st'))"

definition tracer_main :: "'k system \<Rightarrow> string \<Rightarrow> string list \<Rightarrow> 'k \<Rightarrow> 'k tracer run" where
  "tracer_main sys srcfile args k =
     dbind (Some (tracer_start sys srcfile args \<lparr>tr_sys = k, tr_stdout = [], tr_stderr = []\<rparr>)) (\<lambda>(pid, t).
     dbind (tracer_loop sys srcfile pid (0, t)) (\<lambda>(_, t). Some (Inr t)))"

section \<open>The trace\<close>

text \<open>
  The instruction pointers at which the process stops, from a state of the system on to the end of the process: a run
  of the system that knows nothing of the program's output.
\<close>

inductive traced :: "'k system \<Rightarrow> u32 \<Rightarrow> 'k \<Rightarrow> u64 list \<Rightarrow> bool" for sys pid where
  ended: "sys_wait sys k = (Some status, k') \<Longrightarrow> \<not> WIFSTOPPED status \<Longrightarrow> traced sys pid k []"
| stopped: "sys_wait sys k = (Some status, k1) \<Longrightarrow> WIFSTOPPED status \<Longrightarrow> sys_getregs sys pid k1 = (Inr ip, k2)
    \<Longrightarrow> sys_singlestep sys pid k2 = (r, k3) \<Longrightarrow> traced sys pid k3 ips \<Longrightarrow> traced sys pid k (ip # ips)"

text \<open>What is printed for a trace: an address for every stop at another instruction than the stop before.\<close>

definition trace_text :: "u64 \<Rightarrow> u64 list \<Rightarrow> string" where
  "trace_text prev ips = concat (map pointer_line (tl (remdups_adj (prev # ips))))"

lemma trace_text_simps [simp]:
  "trace_text prev [] = []"
  "trace_text prev (ip # ips) = (if prev \<noteq> ip then pointer_line ip else []) @ trace_text ip ips"
proof -
  have "concat (map pointer_line (ip # tl (remdups_adj (ip # ips)))) = pointer_line ip @ trace_text ip ips"
    by (simp add: trace_text_def del: remdups_adj_Cons_alt)
  then show "trace_text prev (ip # ips) = (if prev \<noteq> ip then pointer_line ip else []) @ trace_text ip ips"
    by (simp add: trace_text_def)
qed (simp add: trace_text_def)

lemma checked_ptrace_ok [simp]:
  "fst (checked_ptrace srcfile line req rk t) = fst rk" "tr_sys (snd (checked_ptrace srcfile line req rk t)) = snd rk"
  "tr_stdout (snd (checked_ptrace srcfile line req rk t)) = tr_stdout t"
  by (simp_all add: checked_ptrace_def Let_def case_prod_unfold split: sum.split)

text \<open>A round of the program is a step of the trace or its end.\<close>

lemma tracer_step_stopped:
  assumes "sys_wait sys (tr_sys t) = (Some status, k1)" and "WIFSTOPPED status"
    and "sys_getregs sys pid k1 = (Inr ip, k2)" and "sys_singlestep sys pid k2 = (r, k3)"
  shows "\<exists>t'. tracer_step sys srcfile pid (prev, t) = Inr (True, ip, t') \<and> tr_sys t' = k3
    \<and> tr_stdout t' = tr_stdout t @ (if prev \<noteq> ip then pointer_line ip else [])"
  using assms
  by (auto simp: tracer_step_def Let_def case_prod_unfold checked_ptrace_def split: sum.split)

lemma tracer_step_cases:
  assumes "tracer_step sys srcfile pid (prev, t) = Inr (go_on, prev', t')"
  obtains status k' where "\<not> go_on" "sys_wait sys (tr_sys t) = (Some status, k')" "\<not> WIFSTOPPED status"
      "tr_stdout t' = tr_stdout t"
  | status k1 k2 r where go_on "sys_wait sys (tr_sys t) = (Some status, k1)" "WIFSTOPPED status"
      "sys_getregs sys pid k1 = (Inr prev', k2)" "sys_singlestep sys pid k2 = (r, tr_sys t')"
      "tr_stdout t' = tr_stdout t @ (if prev \<noteq> prev' then pointer_line prev' else [])"
  using assms
  by (auto simp: tracer_step_def Let_def case_prod_unfold checked_ptrace_def prod_eq_iff
      split: option.splits sum.splits if_splits)

lemma tracer_loop_traced:
  assumes "traced sys pid k ips" and "tr_sys t = k"
  shows "\<exists>prev' t'. tracer_loop sys srcfile pid (prev, t) = Some (Inr (prev', t')) \<and> tr_stdout t' = tr_stdout t @ trace_text prev ips"
  using assms
proof (induction arbitrary: prev t)
  case (ended k status k')
  then show ?case by (subst tracer_loop.simps) (simp add: tracer_step_def)
next
  case (stopped k status k1 ip k2 r k3 ips)
  obtain t1 where t1: "tracer_step sys srcfile pid (prev, t) = Inr (True, ip, t1)" "tr_sys t1 = k3"
    "tr_stdout t1 = tr_stdout t @ (if prev \<noteq> ip then pointer_line ip else [])"
    using tracer_step_stopped [of sys t status k1 pid ip k2 r k3] stopped.hyps(1-4) stopped.prems by blast
  from stopped.IH [OF t1(2), of ip] show ?case
    by (subst tracer_loop.simps) (auto simp: t1(1,3))
qed

lemma tracer_loop_returns:
  assumes "tracer_loop sys srcfile pid (prev, t) = Some (Inr (prev', t'))"
  shows "\<exists>ips. traced sys pid (tr_sys t) ips \<and> tr_stdout t' = tr_stdout t @ trace_text prev ips"
proof -
  let ?P = "\<lambda>sys pid st r. \<forall>prev t prev' t'. st = (prev, t) \<longrightarrow> r = Inr (prev', t') \<longrightarrow>
      (\<exists>ips. traced sys pid (tr_sys t) ips \<and> tr_stdout t' = tr_stdout t @ trace_text prev ips)"
  have "?P sys pid st r" if "tracer_loop sys srcfile pid st = Some r" for st r
  proof (rule tracer_loop.raw_induct [where P = "\<lambda>sys srcfile pid st r. ?P sys pid st r", OF _ that])
    fix loop :: "'a system \<Rightarrow> string \<Rightarrow> u32 \<Rightarrow> u64 \<times> 'a tracer \<Rightarrow> (u64 \<times> 'a tracer) run" and sys srcfile pid st r
    assume IH: "\<And>sys srcfile pid st r. loop sys srcfile pid st = Some r \<Longrightarrow> ?P sys pid st r"
      and body: "(case tracer_step sys srcfile pid st of Inl e \<Rightarrow> Some (Inl e)
        | Inr (go_on, st') \<Rightarrow> if go_on then loop sys srcfile pid st' else Some (Inr st')) = Some r"
    show "?P sys pid st r"
    proof (intro allI impI)
      fix prev t prev' t' assume st: "st = (prev, t)" and r: "r = Inr (prev', t')"
      from body r obtain go_on p1 t1 where s: "tracer_step sys srcfile pid (prev, t) = Inr (go_on, p1, t1)"
        and rest: "if go_on then loop sys srcfile pid (p1, t1) = Some r else r = Inr (p1, t1)"
        by (auto simp: st split: sum.splits if_splits)
      from s show "\<exists>ips. traced sys pid (tr_sys t) ips \<and> tr_stdout t' = tr_stdout t @ trace_text prev ips"
      proof (cases rule: tracer_step_cases)
        case (1 status k')
        with rest r have "traced sys pid (tr_sys t) []" "t' = t1" by (auto intro: traced.ended)
        with 1 show ?thesis by (intro exI [of _ "[]"]) simp
      next
        case (2 status k1 k2 e)
        then have "loop sys srcfile pid (p1, t1) = Some r" using rest by simp
        from IH [OF this] r obtain ips where "traced sys pid (tr_sys t1) ips" "tr_stdout t' = tr_stdout t1 @ trace_text p1 ips"
          by blast
        with 2 show ?thesis by (intro exI [of _ "p1 # ips"]) (auto intro: traced.stopped)
      qed
    qed
  qed
  with assms show ?thesis by blast
qed

lemma tracer_start_stdout: "tracer_start sys srcfile args t = Inr (pid, t') \<Longrightarrow> tr_stdout t' = tr_stdout t"
  by (auto simp: tracer_start_def Let_def case_prod_unfold checked_ptrace_def split: list.splits if_splits sum.splits)

text \<open>
  C40: \<^verbatim>\<open>tracer\<close> ends exactly when the process it follows does, after stops at which every system call it depends on
  succeeds; and what it has printed then is the addresses of these stops in their order, each once however often the
  process is stopped at it in a row, and not the null address the program starts from. In particular the program does not
  run on, fail or read an unwritten \<^verbatim>\<open>status\<close> or \<^verbatim>\<open>regs\<close> for such a process.
\<close>
theorem tracer_prints_trace:
  "(\<exists>t'. tracer_main sys srcfile args k = Some (Inr t') \<and> tr_stdout t' = out) \<longleftrightarrow>
   (\<exists>pid t ips. tracer_start sys srcfile args \<lparr>tr_sys = k, tr_stdout = [], tr_stderr = []\<rparr> = Inr (pid, t)
      \<and> traced sys pid (tr_sys t) ips \<and> out = concat (map pointer_line (tl (remdups_adj (0 # ips)))))"
  (is "?ends \<longleftrightarrow> ?trace")
proof
  assume ?ends
  then obtain pid t prev t' where start: "tracer_start sys srcfile args \<lparr>tr_sys = k, tr_stdout = [], tr_stderr = []\<rparr> = Inr (pid, t)"
    and loop: "tracer_loop sys srcfile pid (0, t) = Some (Inr (prev, t'))" and out: "tr_stdout t' = out"
    by (auto simp: tracer_main_def)
  from tracer_loop_returns [OF loop] obtain ips where "traced sys pid (tr_sys t) ips" "tr_stdout t' = tr_stdout t @ trace_text 0 ips"
    by blast
  with start out tracer_start_stdout [OF start] show ?trace by (auto simp: trace_text_def)
next
  assume ?trace
  then obtain pid t ips where start: "tracer_start sys srcfile args \<lparr>tr_sys = k, tr_stdout = [], tr_stderr = []\<rparr> = Inr (pid, t)"
    and tr: "traced sys pid (tr_sys t) ips" and out: "out = trace_text 0 ips" by (auto simp: trace_text_def)
  from tracer_loop_traced [OF tr refl, of srcfile 0] tracer_start_stdout [OF start] start out show ?ends
    by (auto simp: tracer_main_def)
qed

text \<open>A process that is stopped twice at an instruction, then at another one, and ends.\<close>

definition sample_system :: "u64 list system" where
  "sample_system = \<lparr>sys_attach = \<lambda>_ k. (Inr (), k), sys_getregs = \<lambda>_ k. (Inr (hd k), k),
     sys_singlestep = \<lambda>_ k. (Inr (), tl k), sys_fork = \<lambda>_ k. (7, k),
     sys_wait = \<lambda>k. (Some (if k = [] then 0 else 0x57f), k)\<rparr>"

lemma sample_traced: "traced sample_system pid ks ks"
proof (induction ks)
  case Nil
  show ?case by (rule traced.ended [of _ _ 0 "[]"]) (simp_all add: sample_system_def WIFSTOPPED_def)
next
  case (Cons k ks)
  show ?case
  proof (rule traced.stopped [OF _ _ _ _ Cons])
    show "sys_wait sample_system (k # ks) = (Some 0x57f, k # ks)" "sys_getregs sample_system pid (k # ks) = (Inr k, k # ks)"
      "sys_singlestep sample_system pid (k # ks) = (Inr (), ks)" by (simp_all add: sample_system_def)
  qed (simp add: WIFSTOPPED_def)
qed

theorem tracer_prints_trace_witness:
  "\<exists>t'. tracer_main sample_system ''tracer.cc'' [''/bin/true''] [0x401000, 0x401000, 0x40100a] = Some (Inr t')
    \<and> tr_stdout t' = ''0x401000'' @ [CHR 0x0A] @ ''0x40100a'' @ [CHR 0x0A]"
proof -
  let ?ips = "[0x401000, 0x401000, 0x40100a] :: u64 list"
  let ?t = "\<lparr>tr_sys = ?ips, tr_stdout = [], tr_stderr = []\<rparr>"
  have "tracer_start sample_system ''tracer.cc'' [''/bin/true''] ?t = Inr (7, ?t)"
    by (simp add: tracer_start_def sample_system_def)
  moreover have "traced sample_system 7 (tr_sys ?t) ?ips" using sample_traced by simp
  moreover have "''0x401000'' @ [CHR 0x0A] @ ''0x40100a'' @ [CHR 0x0A] = concat (map pointer_line (tl (remdups_adj (0 # ?ips))))"
    by (simp add: pointer_line_def digits.simps digit_char_def) code_simp
  ultimately show ?thesis unfolding tracer_prints_trace by blast
qed

end
