(* ===== verification/Output_Readback.thy ===== *)
theory Output_Readback
  imports Layout
begin

text \<open>
  The output as the reader of \<^verbatim>\<open>elf_binary.cc\<close> sees it: the file \<^verbatim>\<open>Sold::Emit\<close> writes, mapped into memory, gives back
  the headers, symbols, relocations, dynamic entries and names the linker put into its tables.
\<close>

section \<open>Writers never change what is written\<close>

definition extends :: "(stream \<Rightarrow> stream res) \<Rightarrow> bool" where
  "extends f \<longleftrightarrow> (\<forall>fp fp'. f fp = Inr fp' \<longrightarrow> prefix fp fp')"

lemma extendsD: "extends f \<Longrightarrow> f fp = Inr fp' \<Longrightarrow> prefix fp fp'"
  by (simp add: extends_def)

lemma extends_WriteBuf [intro]: "extends (WriteBuf bs)"
  by (simp add: extends_def WriteBuf_def)

lemma extends_EmitPad [intro]: "extends (EmitPad to)"
  by (auto simp: extends_def EmitPad_Inr)

lemma extends_bind [intro]: "extends f \<Longrightarrow> extends g \<Longrightarrow> extends (\<lambda>fp. rbind (f fp) g)"
  unfolding extends_def by (clarsimp, blast intro: prefix_order.trans)

lemma extends_after [intro]: "(\<And>x. extends (f x)) \<Longrightarrow> extends (\<lambda>fp. rbind (m fp) (\<lambda>x. f x fp))"
  by (auto simp: extends_def)

lemma extends_rfold [intro]:
  assumes "\<And>x. x \<in> set xs \<Longrightarrow> extends (f x)"
  shows "extends (rfold f xs)"
  unfolding extends_def
proof (intro allI impI)
  fix fp fp' assume "rfold f xs fp = Inr fp'"
  then show "prefix fp fp'"
    by (rule rfold_inv [where P = "prefix fp"]) (use assms extendsD prefix_order.trans in blast)+
qed

lemma extends_EmitShdrs: "extends (ShdrBuilder_EmitShdrs sb)"
proof -
  have "EmitShdrs_loop ss found n fp = Inr (found', n', fp') \<Longrightarrow> prefix fp fp'" for ss found n fp found' n' fp'
    by (induction ss arbitrary: found n fp) (fastforce simp: WriteBuf_def split: if_splits dest: append_prefixD)+
  then show ?thesis unfolding extends_def ShdrBuilder_EmitShdrs_def
    by (fastforce simp: WriteBuf_def split: option.splits)
qed

lemma extends_EHFrame: "extends (EHFrameBuilder_Emit eb)"
  unfolding EHFrameBuilder_Emit_def Let_def by (intro extends_bind extends_WriteBuf extends_rfold)

lemma extends_Mprotect: "extends (MprotectBuilder_Emit malloc code mb)"
proof -
  have "extends (MprotectBuilder_EmitX86_64 malloc code mb)"
    by (auto simp: extends_def MprotectBuilder_EmitX86_64_def WriteBuf_def)
  moreover have "extends (MprotectBuilder_EmitAarch64 code mb)"
    unfolding extends_def MprotectBuilder_EmitAarch64_def Let_def
    using extends_rfold [of _ "\<lambda>i fp. WriteBuf (le_bytes 4 i) fp", OF extends_WriteBuf, THEN extendsD] by auto
  ultimately show ?thesis by (simp add: extends_def MprotectBuilder_Emit_def)
qed

lemma extends_emit_segments:
  assumes "f \<in> set (emit_segments malloc so)"
  shows "extends f"
proof -
  have code: "extends (EmitCode_step so ld)" for ld
    unfolding EmitCode_step_def by (intro extends_bind extends_EmitPad extends_after extends_WriteBuf)
  have "extends (Sold_EmitCode so)" unfolding Sold_EmitCode_def
    by (intro extends_after extends_rfold code)
  moreover have "extends (Sold_EmitTLS so)" unfolding Sold_EmitTLS_def
    by (intro extends_bind extends_after extends_EmitPad extends_rfold extends_WriteBuf)
  moreover have "extends (Sold_EmitEHFrame so)" unfolding Sold_EmitEHFrame_def
    by (intro extends_bind extends_after extends_EmitPad extends_EHFrame)
  moreover have "extends (Sold_EmitMemprotect malloc so)" unfolding Sold_EmitMemprotect_def
    by (intro extends_bind extends_after extends_EmitPad extends_Mprotect)
  moreover have "extends (Sold_EmitShdr so)" unfolding Sold_EmitShdr_def
    by (intro extends_after extends_EmitShdrs)
  ultimately show ?thesis using assms by (auto simp: emit_segments_def split: if_splits)
qed

section \<open>Reading a table back\<close>

lemma at_offset_split:
  assumes "at_offset fp (Inr off) bs" and "prefix fp img"
  obtains pre post where "img = pre @ bs @ post" "length pre = unat off"
proof -
  obtain rest where img: "img = fp @ rest" using assms(2) by (auto simp: prefix_def)
  from assms(1) have le: "unat off + length bs \<le> length fp" and bs: "take (length bs) (drop (unat off) fp) = bs"
    by (simp_all add: at_offset_def)
  have "fp = take (unat off) fp @ bs @ drop (length bs) (drop (unat off) fp)"
    using bs by (metis append_take_drop_id)
  then show ?thesis using that [of "take (unat off) fp" "drop (length bs) (drop (unat off) fp) @ rest"] le
    by (simp add: img)
qed

context codec
begin

text \<open>A table of structs that stands at \<open>off\<close> is read entry by entry.\<close>

lemma read_at_offset:
  assumes "at_offset fp (Inr off) (concat (map enc xs))" and "prefix fp img" and "length fp < 2 ^ 64"
    and "i < length xs" and "0 < sz"
  shows "read_struct dec sz img (off + of_nat (sz * i)) = Inr (xs ! i)"
proof -
  obtain pre post where img: "img = pre @ concat (map enc xs) @ post" and pre: "length pre = unat off"
    using at_offset_split [OF assms(1,2)] .
  have "unat off + sz * length xs \<le> length fp" using assms(1) by (simp add: at_offset_def table_length)
  moreover have "sz * i \<le> sz * length xs" using assms(4) by simp
  ultimately have "unat off + sz * i < 2 ^ 64" using assms(3) by linarith
  moreover have "unat (off + of_nat k) = unat off + k" if "unat off + k < 2 ^ 64" for k
    using that by (simp add: unat_word_ariths unat_of_nat)
  ultimately have "unat (off + of_nat (sz * i)) = length pre + sz * i" by (simp only: pre)
  then show ?thesis unfolding img by (rule read_table [OF assms(4)])
qed

end

lemma read_name:
  assumes "at_offset fp (Inr off) (StrtabBuilder_data st)" and "prefix fp img" and "length fp < 2 ^ 64"
    and "strtab_wf st" and "StrtabBuilder_GetPos s st = Inr pos" and "no_nul (StrtabBuilder_renamed st s)"
  shows "read_cstr img (off + pos) = Inr (StrtabBuilder_renamed st s)"
proof -
  let ?t = "StrtabBuilder_renamed st s"
  obtain pre post where img: "img = pre @ map u8_of_char (sb_strtab st) @ post" and pre: "length pre = unat off"
    using at_offset_split [OF assms(1,2)] by (auto simp: StrtabBuilder_data_def)
  have "sb_cache st ?t = Some pos" using assms(5) by (simp add: StrtabBuilder_GetPos_def split: option.splits)
  with assms(4) have le: "unat pos + length ?t < length (sb_strtab st)"
    and at: "take (length ?t + 1) (drop (unat pos) (sb_strtab st)) = ?t @ [CHR 0x00]" by (auto simp: strtab_wf_def)
  have "unat off + length (sb_strtab st) \<le> length fp" using assms(1) by (simp add: at_offset_def StrtabBuilder_data_def)
  with le assms(3) have off: "unat (off + pos) = unat off + unat pos" by (simp add: unat_word_ariths)
  obtain r where r: "drop (unat pos) (sb_strtab st) = ?t @ CHR 0x00 # r"
    using at by (metis append_take_drop_id append.assoc append_Cons append_Nil)
  have d: "drop (unat (off + pos)) img = map u8_of_char ?t @ u8_of_char (CHR 0x00) # map u8_of_char r @ post"
    using le by (simp add: img off pre drop_map r flip: drop_drop)
  have nul: "u8_of_char (CHR 0x00) = 0" by (simp add: u8_of_char_def)
  have nz: "\<forall>b \<in> set (map u8_of_char ?t). b \<noteq> 0"
    using assms(6) nul by (metis (no_types, lifting) char_of_u8_of_char image_iff list.set_map no_nul_def)
  have "takeWhile (\<lambda>b. b \<noteq> 0) (drop (unat (off + pos)) img) = map u8_of_char ?t"
    unfolding d nul using nz by (subst takeWhile_append2) auto
  moreover have "unat (off + pos) < length img" using le by (simp add: img off pre)
  moreover have "0 \<in> set (drop (unat (off + pos)) img)" unfolding d nul by simp
  ultimately show ?thesis by (simp add: read_cstr_def comp_def)
qed

section \<open>Reading the output back\<close>

lemma Emit_split:
  "Sold_Emit malloc so = rbind (rfold id ([WriteBuf (enc_Elf_Ehdr (so_ehdr so)), Sold_EmitPhdrs so] @ emit_tables so
     @ [EmitAlign]) []) (rfold id (emit_segments malloc so))" (is "_ = rbind (rfold id ?front []) _")
proof -
  have "Sold_Emit malloc so = rfold id (?front @ emit_segments malloc so) []" by (simp only: Sold_Emit_def append_assoc)
  also have "\<dots> = rbind (rfold id ?front []) (rfold id (emit_segments malloc so))" by (rule rfold_append)
  finally show ?thesis .
qed

lemma Emit_front:
  assumes "Sold_Emit malloc so = Inr fp" and "tables_ok so" and "output_phdrs so = Inr phs"
    and "of_nat (length phs) = Sold_CountPhdrs so" and "total_size (output_tables so phs) < 2 ^ 31"
  obtains front where "prefix front fp" "length front < 2 ^ 32"
    "list_all (\<lambda>(off, bs). at_offset front off bs) (output_tables so phs)"
proof -
  obtain front where front: "rfold id ([WriteBuf (enc_Elf_Ehdr (so_ehdr so)), Sold_EmitPhdrs so] @ emit_tables so @ [EmitAlign]) []
      = Inr front" "length front < 2 ^ 32" "list_all (\<lambda>(off, bs). at_offset front off bs) (output_tables so phs)"
    using tables_placed [OF assms(2-5)] by blast
  have "rfold id (emit_segments malloc so) front = Inr fp"
    using assms(1) by (simp only: Emit_split front(1) rbind.simps)
  moreover have "extends (rfold id (emit_segments malloc so))"
    by (rule extends_rfold) (simp add: extends_emit_segments)
  ultimately show ?thesis using that front(2,3) extendsD by blast
qed

text \<open>
  The output is what the reader takes it for: in a file \<^verbatim>\<open>Emit\<close> has written, mapped as the head of any object, the
  reader finds the ELF header, every program header, and at the offsets the linker computed every symbol, relocation
  and dynamic entry, and each name at its position in the string table.
\<close>

lemma output_reads:
  assumes "Sold_Emit malloc so = Inr fp" and "tables_ok so" and "output_phdrs so = Inr phs"
    and "of_nat (length phs) = Sold_CountPhdrs so" and "total_size (output_tables so phs) < 2 ^ 31"
    and "prefix fp (bn_head bn)" and "strtab_wf (so_strtab so)"
  shows "read_struct dec_Elf_Ehdr 64 (bn_head bn) 0 = Inr (so_ehdr so)
    \<and> (\<forall>i < length phs. read_struct dec_Elf_Phdr 56 (bn_head bn) (64 + of_nat (56 * i)) = Inr (phs ! i))
    \<and> (\<exists>symtab. Sold_SymtabOffset so = Inr symtab
         \<and> (\<forall>i < length (sm_symtab (so_syms so)). sym_at bn symtab (int i) = Inr (sm_symtab (so_syms so) ! i)))
    \<and> (\<exists>rel. Sold_RelOffset so = Inr rel \<and> (\<forall>i < length (so_rels so). read_rel bn rel i = Inr (so_rels so ! i)))
    \<and> (\<exists>dyn. Sold_DynamicOffset so = Inr dyn \<and> (\<forall>i < length (so_dynamic so). read_dyn bn dyn i = Inr (so_dynamic so ! i)))
    \<and> (\<exists>strtab. Sold_StrtabOffset so = Inr strtab
         \<and> (bn_strtab bn = Some strtab \<longrightarrow> (\<forall>s pos. StrtabBuilder_GetPos s (so_strtab so) = Inr pos
              \<and> no_nul (StrtabBuilder_renamed (so_strtab so) s)
              \<longrightarrow> ELFBinary_Str pos bn = Inr (StrtabBuilder_renamed (so_strtab so) s))))"
proof -
  obtain front where front: "prefix front fp" "length front < 2 ^ 32"
    "list_all (\<lambda>(off, bs). at_offset front off bs) (output_tables so phs)"
    by (rule Emit_front [OF assms(1-5)])
  have img: "prefix front (bn_head bn)" by (rule prefix_order.trans [OF front(1) assms(6)])
  have len: "length front < 2 ^ 64" using front(2) by simp
  have known: "\<exists>pos. off = Inr pos \<and> at_offset front (Inr pos) bs" if "at_offset front off bs" for off bs
    using that by (cases off) (simp_all add: at_offset_def)
  have place: "at_offset front (Inr 0) (concat (map enc_Elf_Ehdr [so_ehdr so]))"
    "at_offset front (Inr 64) (concat (map enc_Elf_Phdr phs))"
    and tabs: "at_offset front (Sold_SymtabOffset so) (concat (map enc_Elf_Sym (sm_symtab (so_syms so))))"
    "at_offset front (Sold_RelOffset so) (concat (map enc_Elf_Rel (so_rels so)))"
    "at_offset front (Sold_DynamicOffset so) (concat (map enc_Elf_Dyn (so_dynamic so)))"
    "at_offset front (Sold_StrtabOffset so) (StrtabBuilder_data (so_strtab so))"
    using front(3) by (simp_all add: output_tables_def table_stages_def)
  have "read_struct dec_Elf_Ehdr 64 (bn_head bn) 0 = Inr (so_ehdr so)"
    using ehdr.read_at_offset [OF place(1) img len, of 0] by simp
  moreover have "\<forall>i < length phs. read_struct dec_Elf_Phdr 56 (bn_head bn) (64 + of_nat (56 * i)) = Inr (phs ! i)"
    using phdr.read_at_offset [OF place(2) img len] by simp
  moreover have "\<exists>symtab. Sold_SymtabOffset so = Inr symtab
         \<and> (\<forall>i < length (sm_symtab (so_syms so)). sym_at bn symtab (int i) = Inr (sm_symtab (so_syms so) ! i))"
    using known [OF tabs(1)] sym.read_at_offset [OF _ img len] by (fastforce simp: sym_at_def)
  moreover have "\<exists>rel. Sold_RelOffset so = Inr rel \<and> (\<forall>i < length (so_rels so). read_rel bn rel i = Inr (so_rels so ! i))"
    using known [OF tabs(2)] rel.read_at_offset [OF _ img len] by (fastforce simp: read_rel_def)
  moreover have "\<exists>dyn. Sold_DynamicOffset so = Inr dyn \<and> (\<forall>i < length (so_dynamic so). read_dyn bn dyn i = Inr (so_dynamic so ! i))"
    using known [OF tabs(3)] dyn.read_at_offset [OF _ img len] by (fastforce simp: read_dyn_def)
  moreover have "\<exists>strtab. Sold_StrtabOffset so = Inr strtab
         \<and> (bn_strtab bn = Some strtab \<longrightarrow> (\<forall>s pos. StrtabBuilder_GetPos s (so_strtab so) = Inr pos
              \<and> no_nul (StrtabBuilder_renamed (so_strtab so) s)
              \<longrightarrow> ELFBinary_Str pos bn = Inr (StrtabBuilder_renamed (so_strtab so) s)))"
    using known [OF tabs(4)] read_name [OF _ img len assms(7)] by (auto simp: ELFBinary_Str_def)
  ultimately show ?thesis by blast
qed

end
