(* ===== verification/Link_Readback.thy ===== *)
theory Link_Readback
  imports Dynamic_Section Output_Readback
begin

text \<open>
  \<^verbatim>\<open>Sold::Link\<close> from an empty state to the file: the tables it builds satisfy what the theorems about writing and
  reading them ask for, so that the file a successful run leaves gives back the linker's symbols, relocations and
  dynamic entries, each with its name.
\<close>

section \<open>The tables while they grow\<close>

text \<open>The string table is well formed as long as it is small, and renames nothing; versions refer to names it has.\<close>

definition strtab_sound :: "StrtabBuilder \<Rightarrow> bool" where
  "strtab_sound st \<longleftrightarrow> (length (sb_strtab st) < 2 ^ 32 \<longrightarrow> strtab_wf st)"

definition tables_inv :: "VersionBuilder \<Rightarrow> StrtabBuilder \<Rightarrow> bool" where
  "tables_inv vb st \<longleftrightarrow> version_wf vb \<and> version_names_in vb st \<and> strtab_sound st \<and> sb_rename_mapping st = Map.empty"

lemma strtab_le_length: "strtab_le st st' \<Longrightarrow> length (sb_strtab st) \<le> length (sb_strtab st')"
  by (simp add: strtab_le_def prefix_length_le)

lemma strtab_sound_Add: "StrtabBuilder_Add s st = Inr (pos, st') \<Longrightarrow> strtab_sound st \<Longrightarrow> strtab_sound st'"
  using Add_le [THEN strtab_le_length] Add_wf unfolding strtab_sound_def by fastforce

lemma tables_inv_Add: "StrtabBuilder_Add s st = Inr (pos, st') \<Longrightarrow> tables_inv vb st \<Longrightarrow> tables_inv vb st'"
  using Add_le [of s st pos st'] unfolding tables_inv_def
  by (auto simp: strtab_le_def intro: version_names_in_le strtab_sound_Add Add_le)

lemma tables_inv_Version_Add:
  assumes "VersionBuilder_Add versym soname version info vb st = Inr (vb', st')" and "tables_inv vb st"
  shows "tables_inv vb' st'"
proof -
  have "strtab_sound st'"
    using assms by (cases "is_special_ver_ndx (infer_versym versym info)")
      (auto simp: Add_special tables_inv_def elim!: Add_versioned intro: strtab_sound_Add)
  then show ?thesis
    using assms VersionBuilder_Add_wf version_names_in_Add VersionBuilder_Add_le [OF assms(1)]
    unfolding tables_inv_def strtab_le_def by metis
qed

lemma Build_inv:
  assumes "rfold (Build_step syms) ss (tab, st, vb) = Inr (tab', st', vb')" and "tables_inv vb st"
  shows "tables_inv vb' st'"
proof -
  have "case (tab', st', vb') of (_, st, vb) \<Rightarrow> tables_inv vb st"
  proof (rule rfold_inv [OF assms(1)])
    fix s t t' assume "case t of (_, st, vb) \<Rightarrow> tables_inv vb st" "Build_step syms s t = Inr t'"
    then show "case t' of (_, st, vb) \<Rightarrow> tables_inv vb st"
      by (cases t; cases t') (auto elim!: Build_step_Inr intro: tables_inv_Add tables_inv_Version_Add)
  qed (simp add: assms(2))
  then show ?thesis by simp
qed

lemma Merge_inv:
  assumes "rfold Merge_step ps (seen, sm, st, vb) = Inr (seen', sm', st', vb')" and "tables_inv vb st"
  shows "tables_inv vb' st'"
proof -
  have "case (seen', sm', st', vb') of (_, _, st, vb) \<Rightarrow> tables_inv vb st"
  proof (rule rfold_inv [OF assms(1)])
    fix s t t' assume "case t of (_, _, st, vb) \<Rightarrow> tables_inv vb st" "Merge_step s t = Inr t'"
    then show "case t' of (_, _, st, vb) \<Rightarrow> tables_inv vb st"
      by (cases t; cases t') (auto simp: Merge_step_def Let_def split: option.splits if_splits
          intro: tables_inv_Add tables_inv_Version_Add)
  qed (simp add: assms(2))
  then show ?thesis by simp
qed

text \<open>An entry of the symbol table names the symbol it stands for.\<close>

definition names_symbol :: "StrtabBuilder \<Rightarrow> Syminfo \<Rightarrow> Elf_Sym \<Rightarrow> bool" where
  "names_symbol st s e \<longleftrightarrow> (\<exists>pos. StrtabBuilder_GetPos (si_name s) st = Inr pos \<and> st_name e = ucast pos)"

lemma names_symbol_le: "names_symbol st s e \<Longrightarrow> strtab_le st st' \<Longrightarrow> names_symbol st' s e"
  unfolding names_symbol_def by (blast intro: strtab.getpos_le)

lemma build_symbols_tables:
  assumes "build_symbols so = Inr so'" and "sm_symtab (so_syms so) = []" and "sm_exposed_syms (so_syms so) \<noteq> []"
    and "tables_inv (so_version so) (so_strtab so)"
  shows "tables_ok so' \<and> tables_inv (so_version so') (so_strtab so')
    \<and> list_all2 (names_symbol (so_strtab so')) (sm_exposed_syms (so_syms so')) (sm_symtab (so_syms so'))"
proof -
  let ?sm = "so_syms so"
  obtain st1 vb1 sm1 st2 vb2 sm2 where b: "SymtabBuilder_Build (so_strtab so) (so_version so) ?sm = Inr (st1, vb1, sm1)"
    and m: "SymtabBuilder_MergePublicSymbols st1 vb1 sm1 = Inr (st2, vb2, sm2)"
    and so': "so' = so\<lparr>so_strtab := st2, so_version := vb2, so_syms := sm2\<rparr>"
    using assms(1) by (auto simp: build_symbols_def)
  from b obtain tab where loop: "rfold (Build_step (sm_syms ?sm)) (sm_exposed_syms ?sm) ([], so_strtab so, so_version so)
      = Inr (tab, st1, vb1)" and sm1: "sm1 = ?sm\<lparr>sm_symtab := tab\<rparr>"
    by (auto simp: SymtabBuilder_Build_def assms(2))
  have entries: "list_all2 (output_entry (sm_syms ?sm) st1) (sm_exposed_syms ?sm) tab"
    using Build_loop_facts [OF loop] by simp
  from MergePublicSymbols_facts [OF m] obtain news es where
    f: "sm_exposed_syms sm2 = sm_exposed_syms ?sm @ news" "sm_symtab sm2 = tab @ es"
    "list_all2 (merged_entry (sm_public_syms sm1) st2) news es" "sm_public_syms sm2 = []" "strtab_le st1 st2"
    "sm_gnu_hash sm2 = \<lparr>gh_nbuckets = 1, gh_symndx = 1, gh_maskwords = 1, gh_shift2 = 1\<rparr>"
    by (auto simp: sm1)
  have "tables_inv vb1 st1" by (rule Build_inv [OF loop assms(4)])
  with m have inv: "tables_inv vb2 st2"
    by (auto simp: SymtabBuilder_MergePublicSymbols_def Let_def dest!: Merge_inv)
  have "list_all2 (names_symbol st2) (sm_exposed_syms ?sm) tab"
    by (rule list_all2_mono [OF entries])
      (auto simp: output_entry_def names_symbol_def intro: strtab.getpos_le [OF f(5)])
  moreover have "list_all2 (names_symbol st2) news es"
    by (rule list_all2_mono [OF f(3)]) (auto simp: merged_entry_def names_symbol_def)
  ultimately have names: "list_all2 (names_symbol st2) (sm_exposed_syms sm2) (sm_symtab sm2)"
    by (simp add: f(1,2) list_all2_appendI)
  have "length (sm_symtab sm2) = length (sm_exposed_syms sm2)" using list_all2_lengthD [OF names] by simp
  moreover have "sm_symtab sm2 \<noteq> []" using calculation f(1) assms(3) by auto
  ultimately have "tables_ok so'" using f(4,6) inv by (simp add: tables_ok_def so' Let_def tables_inv_def)
  then show ?thesis using inv names by (simp add: so')
qed


text \<open>The steps behind leave symbols and versions alone and only add strings.\<close>

lemma tables_inv_Freeze: "StrtabBuilder_Freeze st' = StrtabBuilder_Freeze st \<Longrightarrow> tables_inv vb st \<Longrightarrow> tables_inv vb st'"
proof -
  assume fz: "StrtabBuilder_Freeze st' = StrtabBuilder_Freeze st" and inv: "tables_inv vb st"
  have eq: "sb_strtab st' = sb_strtab st" "sb_cache st' = sb_cache st" "StrtabBuilder_GetPos n st' = StrtabBuilder_GetPos n st"
    "sb_rename_mapping st' = sb_rename_mapping st" for n
    using arg_cong [OF fz, of sb_strtab] arg_cong [OF fz, of sb_cache] arg_cong [OF fz, of sb_rename_mapping]
      arg_cong [OF fz, of "StrtabBuilder_GetPos n", unfolded GetPos_Freeze]
    by (simp_all add: StrtabBuilder_Freeze_def)
  show "tables_inv vb st'"
    using inv by (simp add: tables_inv_def version_names_in_def strtab_sound_def strtab_wf_def eq)
qed

lemma BuildDynamic_tables:
  assumes "Sold_BuildDynamic so = Inr so'" and "tables_inv (so_version so) (so_strtab so)"
  shows "so_syms so' = so_syms so \<and> so_version so' = so_version so \<and> strtab_le (so_strtab so) (so_strtab so')
    \<and> tables_inv (so_version so') (so_strtab so')"
proof -
  from BuildDynamic_strings [OF assms(1)] obtain s1 entries where
    s: "rfold (\<lambda>e. dyn_string (fst e) (snd e)) (string_entries so) so = Inr s1"
    and so': "so' = s1\<lparr>so_dynamic := so_dynamic s1 @ address_entries so @ entries\<rparr>" by blast
  have "tables_inv (so_version so) (so_strtab s1)"
    by (rule rfold_inv [OF s]) (use assms(2) in \<open>auto simp: dyn_string_def Sold_AddStr_def Sold_MakeDyn_def intro: tables_inv_Add\<close>)
  with dyn_strings [OF s] show ?thesis by (auto simp: so')
qed

lemma prepare_tables:
  assumes "Sold_prepare so = Inr so'" and "sm_symtab (so_syms so) = []" and "sm_exposed_syms (so_syms so) \<noteq> []"
    and "tables_inv (so_version so) (so_strtab so)"
  shows "tables_ok so' \<and> strtab_sound (so_strtab so') \<and> sb_rename_mapping (so_strtab so') = Map.empty
    \<and> list_all2 (names_symbol (so_strtab so')) (sm_exposed_syms (so_syms so')) (sm_symtab (so_syms so'))"
proof -
  obtain s1 s2 s3 where s1: "rfold id collect_steps so = Inr s1" and s2: "rfold id table_steps s1 = Inr s2"
    and s3: "Sold_BuildDynamic s2 = Inr s3" and s4: "rfold id finish_steps s3 = Inr so'"
    using assms(1) by (auto simp: Sold_prepare_steps front_steps_def rfold_append)
  note u = collect_steps_untouched [OF s1, unfolded untouched_def exposes_more_def]
  obtain b where b: "build_symbols s1 = Inr b" and e2: "so_syms s2 = so_syms b" "so_version s2 = so_version b"
    and st2: "so_strtab s2 = so_strtab b \<or> (\<exists>name pos. StrtabBuilder_Add name (so_strtab b) = Inr (pos, so_strtab s2))"
    using s2 by (rule table_steps_symbols)
  have "tables_ok b \<and> tables_inv (so_version b) (so_strtab b)
    \<and> list_all2 (names_symbol (so_strtab b)) (sm_exposed_syms (so_syms b)) (sm_symtab (so_syms b))"
    by (rule build_symbols_tables [OF b]) (use u assms(2-4) in auto)
  then have ok: "tables_ok b" and ib: "tables_inv (so_version b) (so_strtab b)"
    and nb: "list_all2 (names_symbol (so_strtab b)) (sm_exposed_syms (so_syms b)) (sm_symtab (so_syms b))" by simp_all
  have le2: "strtab_le (so_strtab b) (so_strtab s2)" and i2: "tables_inv (so_version s2) (so_strtab s2)"
    using st2 ib e2 by (auto intro: Add_le tables_inv_Add)
  note d = BuildDynamic_tables [OF s3 i2]
  have view: "so_syms so' = so_syms s3" "so_version so' = so_version s3"
    "StrtabBuilder_Freeze (so_strtab so') = StrtabBuilder_Freeze (so_strtab s3)"
    using finish_steps_keep [OF s4] by (simp_all add: layout_view_def)
  have inv: "tables_inv (so_version so') (so_strtab so')" using d view(2) tables_inv_Freeze [OF view(3)] by metis
  have "names_symbol (so_strtab so') s e" if "names_symbol (so_strtab b) s e" for s e
  proof -
    have "strtab_le (so_strtab b) (so_strtab s3)" using strtab_le_trans [OF le2] d by blast
    with that have "names_symbol (so_strtab s3) s e" by (rule names_symbol_le)
    moreover have "StrtabBuilder_GetPos n (so_strtab so') = StrtabBuilder_GetPos n (so_strtab s3)" for n
      using GetPos_Freeze view(3) by metis
    ultimately show ?thesis by (simp add: names_symbol_def)
  qed
  then have "list_all2 (names_symbol (so_strtab so')) (sm_exposed_syms (so_syms b)) (sm_symtab (so_syms b))"
    by (rule list_all2_mono [OF nb])
  moreover have "so_syms so' = so_syms b" using view(1) d e2(1) by simp
  moreover have "tables_ok so'" using ok inv calculation(2) by (simp add: tables_ok_def tables_inv_def Let_def)
  ultimately show ?thesis using inv by (simp add: tables_inv_def)
qed

section \<open>The size of the file bounds its tables\<close>

lemma extends_length: "extends f \<Longrightarrow> f fp = Inr fp' \<Longrightarrow> length fp \<le> length fp'"
  by (blast dest: extendsD intro: prefix_length_le)

text \<open>A writer of a table checks that it starts at the table's offset, so it appends the table.\<close>

lemma stage_appends:
  assumes "tables_ok so" and "(off, f, bs) \<in> set (table_stages so)" and "f fp = Inr fp'"
  shows "fp' = fp @ bs"
proof -
  have "off = Inr (of_nat (length fp))"
    using assms(2,3) unfolding table_stages_def
    by (auto simp: Sold_EmitGnuHash_def Sold_EmitSymtab_def Sold_EmitVersym_def Sold_EmitVerneed_def Sold_EmitRel_def
        Sold_EmitStrtab_def Sold_EmitDynamic_def Sold_EmitShstrtab_def check_pos_def ftell_def)
  with table_stages_ok [OF assms(1)] assms(2) have "f fp = Inr (fp @ bs)"
    by (auto simp: list_all_iff stage_ok_def)
  with assms(3) show ?thesis by simp
qed

lemma rfold_id_Cons: "rfold id (f # fs) s = rbind (f s) (rfold id fs)"
  by simp

lemma stages_append:
  assumes "tables_ok so" and "set stages \<subseteq> set (table_stages so)"
    and "rfold id (map (fst \<circ> snd) stages) fp = Inr fp'"
  shows "fp' = fp @ concat (map (snd \<circ> snd) stages)"
  using assms(2,3)
proof (induction stages arbitrary: fp)
  case Nil
  then show ?case by simp
next
  case (Cons s stages)
  obtain off f bs where s: "s = (off, f, bs)" by (cases s)
  have "map (fst \<circ> snd) (s # stages) = f # map (fst \<circ> snd) stages" by (simp add: s)
  then obtain fp1 where 1: "f fp = Inr fp1" "rfold id (map (fst \<circ> snd) stages) fp1 = Inr fp'"
    using Cons.prems(2) by (simp only: rfold_id_Cons rbind_Inr_iff) (elim exE conjE)
  have "fp1 = fp @ bs" using stage_appends [OF assms(1), of off f bs fp fp1] 1(1) Cons.prems(1) by (simp add: s)
  with Cons.IH [OF _ 1(2)] Cons.prems(1) show ?case by (simp add: s)
qed

lemma EmitArrays_length:
  assumes "Sold_EmitArrays so fp = Inr fp'"
  shows "length fp + length (words_bytes (so_init_array so)) + length (words_bytes (so_fini_array so)) \<le> length fp'"
  using assms by (auto simp: Sold_EmitArrays_def EmitPad_Inr rfold_WriteBuf words_bytes_def)

lemma Emit_size:
  assumes "Sold_Emit malloc so = Inr fp" and "tables_ok so"
  obtains phs where "output_phdrs so = Inr phs" "of_nat (length phs) = Sold_CountPhdrs so"
    "total_size (output_tables so phs) \<le> length fp"
proof -
  let ?E = "enc_Elf_Ehdr (so_ehdr so)" and ?B = "concat (map (snd \<circ> snd) (table_stages so))"
  obtain front where front: "rfold id ([WriteBuf ?E, Sold_EmitPhdrs so] @ emit_tables so @ [EmitAlign]) [] = Inr front"
    and rest: "rfold id (emit_segments malloc so) front = Inr fp"
    using assms(1) unfolding Emit_split rbind_Inr_iff by blast
  have tables: "emit_tables so = Sold_EmitArrays so # map (fst \<circ> snd) (table_stages so)"
    by (simp add: emit_tables_def table_stages_def)
  obtain f2 f3 f4 where f2: "Sold_EmitPhdrs so ?E = Inr f2" and f3: "Sold_EmitArrays so f2 = Inr f3"
    and f4: "rfold id (map (fst \<circ> snd) (table_stages so)) f3 = Inr f4" and f5: "EmitAlign f4 = Inr front"
    using front unfolding tables
    by (auto simp: rfold_append WriteBuf_def rfold_id_Cons simp del: rfold.simps(2) comp_apply)
  obtain phs where phs: "output_phdrs so = Inr phs" "of_nat (length phs) = Sold_CountPhdrs so"
    and f2': "f2 = ?E @ concat (map enc_Elf_Phdr phs)"
    using f2 by (auto simp: Sold_EmitPhdrs_def rfold_WriteBuf)
  have "f4 = f3 @ ?B" using stages_append [OF assms(2) subset_refl f4] .
  moreover have "length f4 \<le> length front" using f5 by (auto simp: EmitAlign_def EmitZeros_def WriteBuf_def Let_def)
  moreover have "length front \<le> length fp"
    by (rule extends_length [OF extends_rfold rest]) (simp add: extends_emit_segments)
  ultimately have "length f3 + length ?B \<le> length fp" by simp
  moreover have "length f2 = 64 + 56 * length phs" unfolding f2' by (simp only: length_append length_encodings)
  ultimately have "total_size (output_tables so phs) \<le> length fp"
    using EmitArrays_length [OF f3] unfolding total_size_output_tables by linarith
  with that phs show ?thesis by blast
qed

section \<open>From an empty state to the file\<close>

text \<open>The state the constructor leaves: no symbol but the null symbol, no version, no string, no dynamic entry.\<close>

definition fresh :: "Sold \<Rightarrow> bool" where
  "fresh so \<longleftrightarrow> SymtabBuilder_new = Inr (so_syms so) \<and> so_strtab so = StrtabBuilder_new Map.empty
     \<and> (\<exists>m. so_version so = VersionBuilder_SetSonameToFilename m VersionBuilder_new) \<and> so_dynamic so = []"

lemma fresh_tables:
  assumes "fresh so"
  shows "sm_symtab (so_syms so) = []" "sm_exposed_syms (so_syms so) \<noteq> []" "tables_inv (so_version so) (so_strtab so)"
proof -
  have "SymtabBuilder_new = Inr sm \<Longrightarrow> sm_symtab sm = [] \<and> sm_exposed_syms sm \<noteq> []" for sm
    by (auto simp: SymtabBuilder_new_def SymtabBuilder_AddSym_def SymtabBuilder_emplace_def Let_def)
  then show "sm_symtab (so_syms so) = []" "sm_exposed_syms (so_syms so) \<noteq> []"
    using assms by (simp_all add: fresh_def)
  have number: "version_number (VersionBuilder_SetSonameToFilename m vb) = version_number vb" for m vb
    by (simp add: version_number_def VersionBuilder_SetSonameToFilename_def fun_eq_iff)
  have "version_wf (VersionBuilder_SetSonameToFilename m VersionBuilder_new)" for m
    using version_wf_new by (simp add: version_wf_def number) (simp add: VersionBuilder_SetSonameToFilename_def)
  moreover have "version_names_in (VersionBuilder_SetSonameToFilename m VersionBuilder_new) st" for m st
    using version_names_in_new by (simp add: version_names_in_def number)
  moreover have "tables_inv VersionBuilder_new (StrtabBuilder_new Map.empty)"
    by (simp add: tables_inv_def strtab_sound_def strtab_wf_new version_wf_new version_names_in_new)
      (simp add: StrtabBuilder_new_def)
  ultimately show "tables_inv (so_version so) (so_strtab so)" using assms by (auto simp: fresh_def tables_inv_def)
qed

text \<open>What the resolution of every name keeps holds of the state after the search for libraries.\<close>

lemma bfs_step_keeps:
  assumes "bfs_step fuel w st = Some (Inr st')" and "P (snd (snd st))"
    and "\<And>paths n s s'. resolve_needed w paths n s = Inr s' \<Longrightarrow> P (snd (snd s)) \<Longrightarrow> P (snd (snd s'))"
  shows "P (snd (snd st'))"
proof -
  obtain queue buf so where st: "st = (queue, buf, so)" by (cases st)
  from assms(1) obtain paths where
    "rfold (resolve_needed w paths) (bn_neededs (so_bins so ! hd queue)) (tl queue, buf, so) = Inr st'"
    by (auto simp: bfs_step_def Let_def st)
  then show ?thesis by (rule rfold_inv [where P = "\<lambda>t. P (snd (snd t))"]) (use assms(2,3) in \<open>auto simp: st\<close>)
qed

lemma bfs_loop_keeps:
  assumes loop: "bfs_loop fuel w st = Some (Inr st')" and "P (snd (snd st))"
    and "\<And>paths n s s'. resolve_needed w paths n s = Inr s' \<Longrightarrow> P (snd (snd s)) \<Longrightarrow> P (snd (snd s'))"
  shows "P (snd (snd st'))"
proof -
  have "v = w \<longrightarrow> (\<forall>st'. r = Inr st' \<longrightarrow> P (snd (snd st)) \<longrightarrow> P (snd (snd st')))" if "bfs_loop fuel v st = Some r" for r v
  proof (rule bfs_loop.raw_induct [where P = "\<lambda>fuel v st r. v = w \<longrightarrow> (\<forall>st'. r = Inr st' \<longrightarrow> P (snd (snd st)) \<longrightarrow> P (snd (snd st')))",
        OF _ that])
    fix bfs :: "nat \<Rightarrow> world \<Rightarrow> 'a search \<Rightarrow> 'a search run" and fuel v st r
    assume IH: "\<And>fuel v st r. bfs fuel v st = Some r \<Longrightarrow>
        v = w \<longrightarrow> (\<forall>st'. r = Inr st' \<longrightarrow> P (snd (snd st)) \<longrightarrow> P (snd (snd st')))"
      and body: "(if fst st = [] then Some (Inr st)
        else case bfs_step fuel v st of None \<Rightarrow> None | Some (Inl e) \<Rightarrow> Some (Inl e)
             | Some (Inr st') \<Rightarrow> bfs fuel v st') = Some r"
    show "v = w \<longrightarrow> (\<forall>st'. r = Inr st' \<longrightarrow> P (snd (snd st)) \<longrightarrow> P (snd (snd st')))"
    proof (intro impI allI)
      fix st' assume h: "v = w" "r = Inr st'" "P (snd (snd st))"
      show "P (snd (snd st'))"
      proof (cases "fst st = []")
        case True
        with body h show ?thesis by simp
      next
        case False
        with body h obtain s1 where s1: "bfs_step fuel w st = Some (Inr s1)" "bfs fuel w s1 = Some (Inr st')"
          by (auto split: option.splits sum.splits)
        have "P (snd (snd s1))" by (rule bfs_step_keeps [where P = P, OF s1(1) h(3)]) (rule assms(3))
        with IH [OF s1(2)] show ?thesis by simp
      qed
    qed
  qed
  with assms(1,2) show ?thesis by blast
qed

text \<open>The search changes only its own part of the state.\<close>

lemma resolve_needed_more:
  "resolve_needed w paths n st = Inr st' \<Longrightarrow> SoldSearch.more (snd (snd st')) = SoldSearch.more (snd (snd st))"
  by (cases st) (auto simp: resolve_needed_def Let_def split: option.splits if_splits)

lemma bfs_loop_more:
  assumes "bfs_loop fuel w st = Some (Inr st')"
  shows "SoldSearch.more (snd (snd st')) = SoldSearch.more (snd (snd st))"
  by (rule bfs_loop_keeps [OF assms, where P = "\<lambda>so. SoldSearch.more so = SoldSearch.more (snd (snd st))"])
    (simp_all add: resolve_needed_more)

lemma Sold_new_search:
  assumes "Sold_new fuel w sc input exclude_sos exclude_finis paths with_shdr = Some (Inr so)"
  obtains bn sm mb s2 s3 where "ReadELF (w_mmap w input) (w_files w) input = Inr (Some bn)"
    "SymtabBuilder_new = Inr sm" "so_bins s2 = [bn]" "so_libraries s2 = []"
    "SoldSearch.more s2 = SoldSearch.more (Sold_init sc bn exclude_sos exclude_finis paths with_shdr sm mb)"
    "ResolveLibraryPaths fuel w s2 = Some (Inr s3)"
    "so = s3\<lparr>so_version := VersionBuilder_SetSonameToFilename (so_soname_to_filename s3) (so_version s3)\<rparr>"
proof -
  obtain bn sm mb s1 s2 s3 where main: "ReadELF (w_mmap w input) (w_files w) input = Inr (Some bn)"
    and sm: "SymtabBuilder_new = Inr sm"
    and s1: "s1 = (let s = Sold_init sc bn exclude_sos exclude_finis paths with_shdr sm mb
       in if bn_name bn \<noteq> [] \<and> bn_soname bn \<noteq> [] then s\<lparr>so_filename_to_soname := [bn_name bn \<mapsto> bn_soname bn],
            so_soname_to_filename := [bn_soname bn \<mapsto> bn_name bn]\<rparr> else s)"
    and s2: "InitLdLibraryPaths w s1 = Inr s2" and s3: "ResolveLibraryPaths fuel w s2 = Some (Inr s3)"
    and so: "so = s3\<lparr>so_version := VersionBuilder_SetSonameToFilename (so_soname_to_filename s3) (so_version s3)\<rparr>"
    using assms unfolding Sold_new_def by (auto simp: Let_def split: option.splits)
  have "so_bins s2 = so_bins s1" "so_libraries s2 = so_libraries s1" "SoldSearch.more s2 = SoldSearch.more s1"
    using s2 by (auto simp: InitLdLibraryPaths_def split: option.splits)
  moreover have "so_bins s1 = [bn]" "so_libraries s1 = []"
    "SoldSearch.more s1 = SoldSearch.more (Sold_init sc bn exclude_sos exclude_finis paths with_shdr sm mb)"
    by (simp_all add: s1 Let_def Sold_init_def)
  ultimately show ?thesis using that main sm s3 so by metis
qed

lemma Sold_new_fresh:
  assumes "Sold_new fuel w sc input exclude_sos exclude_finis paths with_shdr = Some (Inr so)"
  shows "fresh so" and "so_loads so = []"
proof -
  obtain bn sm mb s2 s3 where sm: "SymtabBuilder_new = Inr sm"
    and s2: "SoldSearch.more s2 = SoldSearch.more (Sold_init sc bn exclude_sos exclude_finis paths with_shdr sm mb)"
    and s3: "ResolveLibraryPaths fuel w s2 = Some (Inr s3)"
    and so: "so = s3\<lparr>so_version := VersionBuilder_SetSonameToFilename (so_soname_to_filename s3) (so_version s3)\<rparr>"
    by (rule Sold_new_search [OF assms])
  obtain queue buf s where "bfs_loop fuel w ([0], [([], 0)], s2) = Some (Inr (queue, buf, s))"
    "SoldSearch.more s3 = SoldSearch.more s"
    using s3 by (auto simp: ResolveLibraryPaths_def)
  then have more: "SoldSearch.more s3 = SoldSearch.more (Sold_init sc bn exclude_sos exclude_finis paths with_shdr sm mb)"
    using bfs_loop_more s2 by fastforce
  have "so_syms s3 = sm" "so_strtab s3 = StrtabBuilder_new Map.empty" "so_version s3 = VersionBuilder_new" "so_dynamic s3 = []"
    "so_loads s3 = []"
    using more by (cases s3; simp add: Sold_init_def)+
  then show "fresh so" "so_loads so = []" by (auto simp: so fresh_def sm)
qed

text \<open>
  C2: A whole run of \<^verbatim>\<open>Link\<close>, from the state the constructor leaves (lemma \<open>Sold_new_fresh\<close>) to an output below two
  gigabytes. In an object whose head is the file written and whose string table is where the layout has it, the reader
  of \<^verbatim>\<open>elf_binary.cc\<close> finds the ELF header and the program headers of the final state; at the index of every exposed
  symbol the symbol's entry, which leads to the symbol's own name; every relocation; and the dynamic section, where the
  entries \<^verbatim>\<open>DT_NEEDED\<close>, \<^verbatim>\<open>DT_SONAME\<close>, \<^verbatim>\<open>DT_RPATH\<close> and \<^verbatim>\<open>DT_RUNPATH\<close> stand first and lead to their strings.
\<close>
theorem Link_readback:
  assumes "fresh so" and "Sold_Link malloc so = Inr (so', fp)" and "length fp < 2 ^ 31"
    and "prefix fp (bn_head bn)" and "Sold_StrtabOffset so' = Inr strtab" and "bn_strtab bn = Some strtab"
  shows "read_struct dec_Elf_Ehdr 64 (bn_head bn) 0 = Inr (so_ehdr so')
    \<and> (\<exists>phs. output_phdrs so' = Inr phs
         \<and> (\<forall>i < length phs. read_struct dec_Elf_Phdr 56 (bn_head bn) (64 + of_nat (56 * i)) = Inr (phs ! i)))
    \<and> (\<exists>symtab. Sold_SymtabOffset so' = Inr symtab \<and> (\<forall>i < length (sm_exposed_syms (so_syms so')).
         \<exists>e. sym_at bn symtab (int i) = Inr e \<and> e = sm_symtab (so_syms so') ! i
           \<and> (no_nul (si_name (sm_exposed_syms (so_syms so') ! i))
                \<longrightarrow> ELFBinary_Str (ucast (st_name e)) bn = Inr (si_name (sm_exposed_syms (so_syms so') ! i)))))
    \<and> (\<exists>rel. Sold_RelOffset so' = Inr rel \<and> (\<forall>i < length (so_rels so'). read_rel bn rel i = Inr (so_rels so' ! i)))
    \<and> (\<exists>dyn. Sold_DynamicOffset so' = Inr dyn
         \<and> (\<forall>i < length (so_dynamic so'). read_dyn bn dyn i = Inr (so_dynamic so' ! i))
         \<and> (\<forall>i < length (string_entries so'). \<exists>d. read_dyn bn dyn i = Inr d \<and> d_tag d = fst (string_entries so' ! i)
              \<and> (no_nul (snd (string_entries so' ! i)) \<longrightarrow> ELFBinary_Str (d_val d) bn = Inr (snd (string_entries so' ! i)))))"
proof -
  obtain emit: "Sold_prepare so = Inr so'" "Sold_Emit malloc so' = Inr fp"
    using assms(2) by (auto simp: Sold_Link_def)
  have tabs: "tables_ok so'" "strtab_sound (so_strtab so')" "sb_rename_mapping (so_strtab so') = Map.empty"
    and names: "list_all2 (names_symbol (so_strtab so')) (sm_exposed_syms (so_syms so')) (sm_symtab (so_syms so'))"
    using prepare_tables [OF emit(1) fresh_tables [OF assms(1)]] by simp_all
  obtain phs where phs: "output_phdrs so' = Inr phs" "of_nat (length phs) = Sold_CountPhdrs so'"
    "total_size (output_tables so' phs) \<le> length fp"
    by (rule Emit_size [OF emit(2) tabs(1)])
  have small: "total_size (output_tables so' phs) < 2 ^ 31" using phs(3) assms(3) by simp
  have "length (StrtabBuilder_data (so_strtab so')) \<le> total_size (output_tables so' phs)"
    unfolding total_size_def by (rule member_le_sum_list) (simp_all add: output_tables_def table_stages_def)
  with small tabs(2) have wf: "strtab_wf (so_strtab so')" by (simp add: StrtabBuilder_data_def strtab_sound_def)
  note reads = output_reads [OF emit(2) tabs(1) phs(1,2) small assms(4) wf]
  let ?st = "so_strtab so'" and ?ex = "sm_exposed_syms (so_syms so')" and ?tab = "sm_symtab (so_syms so')"
  have name: "ELFBinary_Str pos bn = Inr n" if "StrtabBuilder_GetPos n ?st = Inr pos" "no_nul n" for n pos
  proof -
    have "StrtabBuilder_renamed ?st n = n" by (simp add: StrtabBuilder_renamed_def tabs(3))
    moreover have "\<forall>s pos. StrtabBuilder_GetPos s ?st = Inr pos \<and> no_nul (StrtabBuilder_renamed ?st s)
        \<longrightarrow> ELFBinary_Str pos bn = Inr (StrtabBuilder_renamed ?st s)"
      using reads assms(5,6) by auto
    ultimately show ?thesis using that by metis
  qed
  have low: "ucast (ucast pos :: u32) = pos" if "StrtabBuilder_GetPos n ?st = Inr pos" for n pos
  proof -
    have "sb_cache ?st (StrtabBuilder_renamed ?st n) = Some pos"
      using that by (simp add: StrtabBuilder_GetPos_def split: option.splits)
    with wf have "unat pos + length (StrtabBuilder_renamed ?st n) < length (sb_strtab ?st)" "length (sb_strtab ?st) < 2 ^ 32"
      unfolding strtab_wf_def by blast+
    then show ?thesis by (simp add: word_unat_eq_iff unsigned_ucast_eq unsigned_take_bit_eq take_bit_nat_eq_self)
  qed
  have symbols: "i < length ?tab \<and> (no_nul (si_name (?ex ! i)) \<longrightarrow>
      ELFBinary_Str (ucast (st_name (?tab ! i))) bn = Inr (si_name (?ex ! i)))" if ix: "i < length ?ex" for i
  proof -
    obtain pos where "StrtabBuilder_GetPos (si_name (?ex ! i)) ?st = Inr pos" "st_name (?tab ! i) = ucast pos"
      using list_all2_nthD [OF names ix] by (auto simp: names_symbol_def)
    then show ?thesis using name low ix list_all2_lengthD [OF names] by auto
  qed
  have "so_dynamic so = []" using assms(1) by (simp add: fresh_def)
  from dynamic_section [OF emit(1) this] obtain ns rest where
    dyn: "so_dynamic so' = ns @ rest" "list_all2 (names_string ?st) (string_entries so') ns" by blast
  have strings: "i < length (so_dynamic so') \<and> d_tag (so_dynamic so' ! i) = fst (string_entries so' ! i)
      \<and> (no_nul (snd (string_entries so' ! i))
           \<longrightarrow> ELFBinary_Str (d_val (so_dynamic so' ! i)) bn = Inr (snd (string_entries so' ! i)))"
    if "i < length (string_entries so')" for i
  proof -
    have "i < length ns" using that list_all2_lengthD [OF dyn(2)] by simp
    then have "names_string ?st (string_entries so' ! i) (so_dynamic so' ! i)"
      using list_all2_nthD [OF dyn(2) that] by (simp add: dyn(1) nth_append)
    then show ?thesis using name \<open>i < length ns\<close> by (auto simp: names_string_def dyn(1))
  qed
  have "\<exists>dyn. Sold_DynamicOffset so' = Inr dyn
      \<and> (\<forall>i < length (so_dynamic so'). read_dyn bn dyn i = Inr (so_dynamic so' ! i))
      \<and> (\<forall>i < length (string_entries so'). \<exists>d. read_dyn bn dyn i = Inr d \<and> d_tag d = fst (string_entries so' ! i)
           \<and> (no_nul (snd (string_entries so' ! i)) \<longrightarrow> ELFBinary_Str (d_val d) bn = Inr (snd (string_entries so' ! i))))"
    using reads strings by force
  then show ?thesis using reads phs(1) symbols list_all2_lengthD [OF names] by simp
qed

section \<open>A run of the linker\<close>

text \<open>
  An object with one segment of eight bytes that needs a library which stays outside. Its image holds a hash table, the
  numbers of the versions of its symbols, their names, one needed version, the null symbol and a function \<open>f\<close>, which is of
  version \<open>V1\<close> of \<open>libb.so\<close>.
\<close>

definition tiny_image :: image where
  "tiny_image = [1, 0, 0, 0, 2, 0, 0, 0, 1, 0, 0, 0, 0, 0, 0, 0, 0, 0, 0, 0] @ [0, 0, 2, 0]
     @ [0, 0x66, 0, 0x6c, 0x69, 0x62, 0x62, 0x2e, 0x73, 0x6f, 0, 0x56, 0x31, 0]
     @ [1, 0, 1, 0, 3, 0, 0, 0, 16, 0, 0, 0, 0, 0, 0, 0] @ [0, 0, 0, 0, 0, 0, 2, 0, 11, 0, 0, 0, 0, 0, 0, 0]
     @ replicate 24 0 @ [1, 0, 0, 0, 0x12, 0, 7, 0, 4, 0, 0, 0, 0, 0, 0, 0, 4, 0, 0, 0, 0, 0, 0, 0]"

definition tiny_member :: ELFBinary where
  "tiny_member = sample_member\<lparr>bn_ehdr := (bn_ehdr sample_member)\<lparr>e_ident := 0x010102464c457f\<rparr>,
     bn_head := tiny_image, bn_versym := Some 20, bn_strtab := Some 24, bn_verneed := Some 38, bn_verneednum := 1,
     bn_symtab := Some 70, bn_phdrs := [sample_phdr PT_LOAD 0 8, sample_phdr PT_DYNAMIC 0 8, sample_phdr PT_NOTE 0 8],
     bn_loads := [sample_phdr PT_LOAD 0 8], bn_init := 4\<rparr>"

text \<open>Its exception frame header in the output has no entry.\<close>

definition tiny_eh :: "u8 list" where
  "tiny_eh = [1, 0x1b, 3, 0x3b, 0, 0, 0, 0, 0, 0, 0, 0]"

lemma tiny_eh_emitted: "EHFrameBuilder_Emit EHFrameBuilder_new fp = Inr (fp @ tiny_eh)"
proof -
  have "le_bytes 1 (1 :: u8) @ le_bytes 1 (DW_EH_PE_sdata4 + DW_EH_PE_pcrel :: u8) @ le_bytes 1 (DW_EH_PE_udata4 :: u8)
      @ le_bytes 1 (DW_EH_PE_sdata4 OR DW_EH_PE_datarel :: u8) @ le_bytes 4 (0 :: u32) @ le_bytes 4 (0 :: u32) = tiny_eh"
    by code_simp
  then show ?thesis by (simp add: EHFrameBuilder_Emit_def EHFrameBuilder_new_def WriteBuf_def Let_def)
qed

definition tiny_input :: "Sold res" where
  "tiny_input =
     rbind SymtabBuilder_new (\<lambda>sm.
     Inr ((Sold_init \<lparr>sc_TLSFileSize = 0, sc_EHFrameSize = 0, sc_TLSMemSize = 0\<rparr> tiny_member [] [] [] False
       sm \<lparr>mb_machine_type = 62, mb_offsets = [], mb_sizes = []\<rparr>)
      \<lparr>so_bins := [tiny_member, tiny_member\<lparr>bn_name := ''libb.so''\<rparr>],
       so_libraries := [(''liba.so'', 0), (''libb.so'', 1)], so_link_binaries := [0],
       so_filename_to_soname := [''libb.so'' \<mapsto> ''libb.so''],
       so_version := VersionBuilder_SetSonameToFilename [''libb.so'' \<mapsto> ''libb.so''] VersionBuilder_new\<rparr>))"

text \<open>What the preparation computes for it.\<close>

definition tiny_tables :: "Sold \<Rightarrow> bool" where
  "tiny_tables so \<longleftrightarrow> \<not> isl (output_phdrs so) \<and> of_nat (length (projr (output_phdrs so))) = Sold_CountPhdrs so
     \<and> length (projr (output_phdrs so)) < 100 \<and> length (so_init_array so) + length (so_fini_array so) < 100
     \<and> length (sm_symtab (so_syms so)) = 2
     \<and> map si_key (sm_exposed_syms (so_syms so)) = [([], [], []), (''f'', ''libb.so'', ''V1'')]
     \<and> vb_data (so_version so) = [(''libb.so'', [(''V1'', 2)])] \<and> vb_vers (so_version so) = [0, 2]
     \<and> vb_vernum (so_version so) = 3 \<and> length (so_rels so) < 100 \<and> length (sb_strtab (so_strtab so)) < 100
     \<and> length (so_dynamic so) < 100 \<and> \<not> isl (Sold_StrtabOffset so)
     \<and> string_entries so = [(DT_NEEDED, ''libb.so''), (DT_SONAME, ''liba.so'')]"

definition tiny_layout :: "Sold \<Rightarrow> bool" where
  "tiny_layout so \<longleftrightarrow> Sold_CodeOffset so = Inr 4096 \<and> 8 \<le> length (bn_head (binary so 0))
     \<and> map (\<lambda>l. (ld_bin l, p_offset (ld_orig l), p_filesz (ld_orig l), p_offset (ld_emit l))) (so_loads so) = [(0, 0, 8, 4096)]
     \<and> tls_data (so_tls so) = [] \<and> Sold_TLSOffset so = 8192 \<and> Sold_EHFrameOffset so = 8192 \<and> so_ehframe_file_offset so = 8192
     \<and> so_ehframe_builder so = EHFrameBuilder_new \<and> Sold_MemprotectOffset so = 12288
     \<and> so_memprotect_builder so = \<lparr>mb_machine_type = 62, mb_offsets = [], mb_sizes = []\<rparr> \<and> \<not> so_emit_section_header so"

lemma tiny_prepared: "\<exists>so so'. tiny_input = Inr so \<and> fresh so \<and> Sold_prepare so = Inr so' \<and> tiny_tables so' \<and> tiny_layout so'"
proof -
  have "case rbind tiny_input Sold_prepare of Inl e \<Rightarrow> False | Inr so \<Rightarrow> tiny_tables so \<and> tiny_layout so" by code_simp
  then obtain so' where "rbind tiny_input Sold_prepare = Inr so'" "tiny_tables so'" "tiny_layout so'"
    by (auto split: sum.splits)
  moreover have "tiny_input = Inr so \<Longrightarrow> fresh so" for so
    by (auto simp: tiny_input_def Sold_init_def fresh_def VersionBuilder_SetSonameToFilename_def VersionBuilder_new_def)
  ultimately show ?thesis by (auto simp only: rbind_Inr_iff)
qed

lemma pad_to:
  assumes "length g \<le> unat to" and "unat to < 2 ^ 32"
  obtains g' where "EmitPad to g = Inr g'" "length g' = unat to" "ftell g' = to"
proof (rule that)
  show "EmitPad to g = Inr (g @ replicate (unat to - length g) 0)" using EmitPad_ok [of g to] assms by simp
  show "length (g @ replicate (unat to - length g) 0) = unat to" using assms(1) by simp
  then show "ftell (g @ replicate (unat to - length g) 0) = to" unfolding ftell_def by (simp only: of_nat_unat ucast_id)
qed

lemma tiny_segments:
  assumes "tiny_layout so" and "length fp = 4096"
  shows "\<exists>fp' a. rfold id (emit_segments (\<lambda>n. replicate n 0) so) fp = Inr fp' \<and> length fp' < 2 ^ 31
    \<and> length a = 8192 \<and> prefix (a @ tiny_eh) fp'"
proof -
  note l = assms(1) [unfolded tiny_layout_def]
  have pos: "ftell fp = 4096" using assms(2) by (simp add: ftell_def)
  have "EmitPad 4096 fp = Inr fp" using EmitPad_ok [of fp 4096] assms(2) by simp
  then have "Sold_EmitCode so fp = Inr (fp @ take 8 (bn_head (binary so 0)))"
    using l pos by (auto simp: Sold_EmitCode_def EmitCode_step_def check_pos_def read_bytes_def WriteBuf_def map_eq_Cons_conv)
  moreover obtain a where a: "EmitPad 8192 (fp @ take 8 (bn_head (binary so 0))) = Inr a" "length a = 8192" "ftell a = 8192"
    using pad_to [of "fp @ take 8 (bn_head (binary so 0))" 8192] assms(2) by (simp add: min.coboundedI2) blast
  moreover have "Sold_EmitTLS so (fp @ take 8 (bn_head (binary so 0))) = Inr a" using a l by (simp add: Sold_EmitTLS_def check_pos_def)
  moreover have "EmitPad 8192 a = Inr a" using EmitPad_ok [of a 8192] a(2) by simp
  then have "Sold_EmitEHFrame so a = Inr (a @ tiny_eh)"
    using l a(3) tiny_eh_emitted by (simp add: Sold_EmitEHFrame_def check_pos_def)
  moreover obtain b where b: "EmitPad 12288 (a @ tiny_eh) = Inr b" "length b = 12288" "ftell b = 12288"
    using pad_to [of "a @ tiny_eh" 12288] a(2) by (auto simp: tiny_eh_def)
  moreover have "prefix (a @ tiny_eh) b"
    using b(1) EmitPad_ok [of "a @ tiny_eh" 12288] a(2) by (simp add: tiny_eh_def)
  moreover obtain fp' where "Sold_EmitMemprotect (\<lambda>n. replicate n 0) so (a @ tiny_eh) = Inr fp'" "length fp' < 2 ^ 31" "prefix b fp'"
    using l b by (simp add: Sold_EmitMemprotect_def check_pos_def MprotectBuilder_Emit_def MprotectBuilder_EmitX86_64_def
        MprotectBuilder_Size_def memprotect_end_code_x86_64_def poke_def WriteBuf_def)
  ultimately have "rfold id (emit_segments (\<lambda>n. replicate n 0) so) fp = Inr fp'" "prefix (a @ tiny_eh) fp'"
    using l prefix_order.trans by (auto simp: emit_segments_def)
  with \<open>length fp' < 2 ^ 31\<close> a(2) show ?thesis by blast
qed

lemma tiny_front:
  assumes "tables_ok so" and "tiny_tables so" and "tiny_layout so"
  shows "\<exists>fp a. Sold_Emit (\<lambda>n. replicate n 0) so = Inr fp \<and> length fp < 2 ^ 31
    \<and> length a = 8192 \<and> prefix (a @ tiny_eh) fp"
proof -
  note t = assms(2) [unfolded tiny_tables_def]
  obtain phs where phs: "output_phdrs so = Inr phs" "of_nat (length phs) = Sold_CountPhdrs so" "length phs < 100"
    using t by (cases "output_phdrs so") auto
  have ver: "length (versym_bytes (so_version so)) = 4" using t by (simp add: versym_bytes_def)
  have need: "length (verneed_bytes (so_strtab so) (so_version so)) = 32"
  proof -
    have "version_wf (so_version so)" "version_names_in (so_version so) (so_strtab so)"
      using assms(1) by (simp_all add: tables_ok_def Let_def)
    from emit_sizes [OF this, of "[]"] t show ?thesis
      by (auto simp: verneed_bytes_def VersionBuilder_SizeVerneed_def SizeVerneed_loop_sum)
  qed
  have "length (sm_exposed_syms (so_syms so)) = length (map si_key (sm_exposed_syms (so_syms so)))" by simp
  also have "\<dots> = 2" using t by simp
  finally have two: "length (sm_exposed_syms (so_syms so)) = 2" .
  have shstr: "length shstrtab_str < 1000" by code_simp
  have "sm_exposed_syms (so_syms so) \<noteq> []" using two by auto
  then have "total_size (output_tables so phs) = 64 + 56 * length phs + 8 * length (so_init_array so)
      + 8 * length (so_fini_array so) + 32 + 48 + 4 + 32 + 24 * length (so_rels so) + length (sb_strtab (so_strtab so))
      + 16 * length (so_dynamic so) + length shstrtab_str"
    using t ver need two
    by (simp add: total_size_output_tables table_stages_def length_words_bytes length_gnu_hash_bytes length_encodings
        StrtabBuilder_data_def del: length_concat)
  then have "total_size (output_tables so phs) < 2 ^ 31" using t phs(3) shstr by simp
  from tables_placed [OF assms(1) phs(1,2) this] obtain front where
    front: "rfold id ([WriteBuf (enc_Elf_Ehdr (so_ehdr so)), Sold_EmitPhdrs so] @ emit_tables so @ [EmitAlign]) [] = Inr front"
      "Sold_CodeOffset so = Inr (of_nat (length front))" "length front < 2 ^ 32" by blast
  have "(of_nat (length front) :: u64) = 4096" using front(2) assms(3) by (simp add: tiny_layout_def)
  then have "unat (of_nat (length front) :: u64) = 4096" by simp
  then have "length front = 4096" using front(3) by (simp add: unat_of_nat take_bit_nat_eq_self)
  with tiny_segments [OF assms(3)] show ?thesis by (simp only: Emit_split front(1) rbind.simps)
qed

theorem Link_readback_witness:
  "\<exists>so so' fp bn dyn d. fresh so \<and> Sold_Link (\<lambda>n. replicate n 0) so = Inr (so', fp) \<and> bn_head bn = fp
    \<and> Sold_DynamicOffset so' = Inr dyn \<and> read_dyn bn dyn 0 = Inr d \<and> d_tag d = DT_NEEDED
    \<and> ELFBinary_Str (d_val d) bn = Inr ''libb.so''"
proof -
  obtain so so' where so: "fresh so" "Sold_prepare so = Inr so'" "tiny_tables so'" "tiny_layout so'"
    using tiny_prepared by blast
  have ok: "tables_ok so'" using prepare_tables [OF so(2) fresh_tables [OF so(1)]] by blast
  obtain fp where fp: "Sold_Emit (\<lambda>n. replicate n 0) so' = Inr fp" "length fp < 2 ^ 31"
    using tiny_front [OF ok so(3,4)] by blast
  then have link: "Sold_Link (\<lambda>n. replicate n 0) so = Inr (so', fp)" by (simp add: Sold_Link_def so(2))
  obtain strtab where strtab: "Sold_StrtabOffset so' = Inr strtab"
    using so(3) by (cases "Sold_StrtabOffset so'") (auto simp: tiny_tables_def)
  let ?bn = "tiny_member\<lparr>bn_head := fp, bn_strtab := Some strtab\<rparr>"
  have entries: "string_entries so' = [(DT_NEEDED, ''libb.so''), (DT_SONAME, ''liba.so'')]"
    using so(3) by (simp add: tiny_tables_def)
  have name: "no_nul ''libb.so''" by code_simp
  from Link_readback [OF so(1) link fp(2) _ strtab, of ?bn] obtain dyn where dyn: "Sold_DynamicOffset so' = Inr dyn"
    "\<forall>i < length (string_entries so'). \<exists>d. read_dyn ?bn dyn i = Inr d \<and> d_tag d = fst (string_entries so' ! i)
      \<and> (no_nul (snd (string_entries so' ! i)) \<longrightarrow> ELFBinary_Str (d_val d) ?bn = Inr (snd (string_entries so' ! i)))"
    by auto
  then obtain d where "read_dyn ?bn dyn 0 = Inr d" "d_tag d = DT_NEEDED" "ELFBinary_Str (d_val d) ?bn = Inr ''libb.so''"
    using name by (auto simp: entries)
  moreover have "bn_head ?bn = fp" by simp
  ultimately show ?thesis using so(1) link dyn(1) by blast
qed

end
