(* ===== verification/Dynamic_Reread.thy ===== *)
theory Dynamic_Reread
  imports Link_Readback Elf_Wf
begin

text \<open>
  Reading back the dynamic section of an output: \<^verbatim>\<open>ELFBinary::ParseDynamic\<close>, run on the file \<^verbatim>\<open>Sold::Link\<close> wrote by a
  reader that has seen the first segment, sets its pointers to the tables of the layout, its arrays to the linker's, and
  its names to the names the linker gave. \<open>dynamic_read\<close> is the reader afterwards.
\<close>

section \<open>Where the tables are\<close>

text \<open>The offsets as numbers: no table lies behind the dynamic section.\<close>

lemma offsets_as_numbers:
  assumes "tables_ok so" and "Sold_InitArrayOffset so = of_nat n"
  obtains f g s v w r t d where
    "Sold_FiniArrayOffset so = of_nat f" "Sold_GnuHashOffset so = of_nat g" "Sold_SymtabOffset so = Inr (of_nat s)"
    "Sold_VersymOffset so = Inr (of_nat v)" "Sold_VerneedOffset so = Inr (of_nat w)" "Sold_RelOffset so = Inr (of_nat r)"
    "Sold_StrtabOffset so = Inr (of_nat t)" "Sold_DynamicOffset so = Inr (of_nat d)"
    "f = n + 8 * length (so_init_array so)" "g = f + 8 * length (so_fini_array so)"
    "sorted [n, f, g, s, v, w, r, t, d]"
    "d + 16 * length (so_dynamic so) \<le> n + length (words_bytes (so_init_array so)) + length (words_bytes (so_fini_array so))
       + length (concat (map (snd \<circ> snd) (table_stages so)))"
proof -
  note sz = table_offsets [OF assms]
  define f where "f = n + length (words_bytes (so_init_array so))"
  define g where "g = f + length (words_bytes (so_fini_array so))"
  define s where "s = g + length (gnu_hash_bytes (so_syms so))"
  define v where "v = s + length (concat (map enc_Elf_Sym (sm_symtab (so_syms so))))"
  define w where "w = v + length (versym_bytes (so_version so))"
  define r where "r = w + length (verneed_bytes (so_strtab so) (so_version so))"
  define t where "t = r + length (concat (map enc_Elf_Rel (so_rels so)))"
  define d where "d = t + length (StrtabBuilder_data (so_strtab so))"
  note parts = f_def g_def s_def v_def w_def r_def t_def d_def
  show ?thesis
  proof (rule that)
    show "Sold_FiniArrayOffset so = of_nat f" "Sold_GnuHashOffset so = of_nat g"
      using sz(1,2) by (simp_all only: parts)
    then show sym: "Sold_SymtabOffset so = Inr (of_nat s)" by (simp add: Sold_SymtabOffset_def sz(3) s_def)
    then show ver: "Sold_VersymOffset so = Inr (of_nat v)"
      by (simp add: Sold_VersymOffset_def sz(4) v_def del: length_concat)
    then show need: "Sold_VerneedOffset so = Inr (of_nat w)" by (simp add: Sold_VerneedOffset_def sz(5) w_def)
    then show rel: "Sold_RelOffset so = Inr (of_nat r)" by (simp add: Sold_RelOffset_def sz(6) r_def)
    then show str: "Sold_StrtabOffset so = Inr (of_nat t)" by (simp add: Sold_StrtabOffset_def sz(7) t_def del: length_concat)
    then show "Sold_DynamicOffset so = Inr (of_nat d)" by (simp add: Sold_DynamicOffset_def sz(8) d_def)
    show "f = n + 8 * length (so_init_array so)" "g = f + 8 * length (so_fini_array so)"
      by (simp_all add: f_def g_def length_words_bytes)
    show "sorted [n, f, g, s, v, w, r, t, d]" by (simp add: parts)
    show "d + 16 * length (so_dynamic so) \<le> n + length (words_bytes (so_init_array so)) + length (words_bytes (so_fini_array so))
       + length (concat (map (snd \<circ> snd) (table_stages so)))"
      by (simp add: parts table_stages_def length_encodings(4) del: length_concat)
  qed
qed

section \<open>A reader that has seen the first segment\<close>

definition head_mapped :: "nat \<Rightarrow> ELFBinary \<Rightarrow> bool" where
  "head_mapped k bn \<longleftrightarrow> (\<exists>h ls. bn_loads bn = h # ls \<and> p_vaddr h = 0 \<and> p_offset h = 0
     \<and> k \<le> unat (p_memsz h) \<and> k \<le> unat (p_filesz h))"

lemma head_mapped_address:
  assumes "head_mapped k bn" and "unat a < k"
  shows "ELFBinary_OffsetFromAddr a bn = Inr a" "ELFBinary_AddrFromOffset a bn = Inr a"
proof -
  obtain h ls where h: "bn_loads bn = h # ls" "p_vaddr h = 0" "p_offset h = 0"
    "k \<le> unat (p_memsz h)" "k \<le> unat (p_filesz h)" using assms(1) by (auto simp: head_mapped_def)
  then have "a < p_memsz h" "a < p_filesz h" using assms(2) by (simp_all add: word_less_nat_alt)
  then have "load_has_addr a h" "load_has_offset a h" using h(2,3) by (simp_all add: load_has_addr_def load_has_offset_def)
  then show "ELFBinary_OffsetFromAddr a bn = Inr a" "ELFBinary_AddrFromOffset a bn = Inr a"
    using h by (simp_all add: ELFBinary_OffsetFromAddr_def ELFBinary_AddrFromOffset_def)
qed

text \<open>A loop that reads a table entry by entry is the loop over its entries.\<close>

lemma rfold_reads:
  assumes "\<And>i st. i < length xs \<Longrightarrow> P st \<Longrightarrow> rd i st = Inr (xs ! i)" and "P st"
    and "\<And>x st st'. x \<in> set xs \<Longrightarrow> P st \<Longrightarrow> f x st = Inr st' \<Longrightarrow> P st'"
  shows "rfold (\<lambda>i st. rbind (rd i st) (\<lambda>x. f x st)) [0..<length xs] st = rfold f xs st"
  using assms
proof (induction xs arbitrary: st rd)
  case Nil
  then show ?case by simp
next
  case (Cons x xs)
  have split: "[0..<length (x # xs)] = 0 # map Suc [0..<length xs]"
    by (simp only: list.size(4) add_Suc_right add_0_right upt_conv_Cons [OF zero_less_Suc] map_Suc_upt)
  have "rfold (\<lambda>i st. rbind (rd i st) (\<lambda>x. f x st)) (map Suc [0..<length xs]) t = rfold f xs t" if "P t" for t
  proof -
    have "rfold (\<lambda>i st. rbind (rd i st) (\<lambda>x. f x st)) (map Suc is) t
        = rfold (\<lambda>i st. rbind (rd (Suc i) st) (\<lambda>x. f x st)) is t" for "is"
      by (induction "is" arbitrary: t) (auto intro!: rbind_cong)
    moreover have "rfold (\<lambda>i st. rbind (rd (Suc i) st) (\<lambda>x. f x st)) [0..<length xs] t = rfold f xs t"
    proof (rule Cons.IH [OF _ that])
      show "rd (Suc i) st = Inr (xs ! i)" if "i < length xs" "P st" for i st
        using Cons.prems(1) [of "Suc i" st] that by simp
      show "P st'" if "y \<in> set xs" "P st" "f y st = Inr st'" for y st st'
        using Cons.prems(3) [of y st st'] that by simp
    qed
    ultimately show ?thesis by simp
  qed
  moreover have "rd 0 st = Inr x" using Cons.prems(1) [of 0 st] Cons.prems(2) by simp
  ultimately show ?case
    unfolding split using Cons.prems(2) Cons.prems(3) [of x st] by (auto intro!: rbind_cong)
qed

section \<open>The first pass over the dynamic section\<close>

definition name_tags :: "u64 list" where
  "name_tags = [DT_NEEDED, DT_SONAME, DT_RPATH, DT_RUNPATH]"

lemma entry_other:
  assumes "d_tag d \<notin> {DT_STRTAB, DT_SYMTAB, DT_GNU_HASH, DT_HASH, DT_RELA, DT_RELASZ, DT_JMPREL, DT_PLTRELSZ, DT_PLTREL,
      DT_REL, DT_RELSZ, DT_RELENT, DT_INIT_ARRAY, DT_INIT_ARRAYSZ, DT_FINI_ARRAY, DT_FINI_ARRAYSZ, DT_INIT, DT_FINI,
      DT_VERSYM, DT_VERNEED, DT_VERNEEDNUM, DT_VERDEF, DT_VERDEFNUM}"
  shows "ParseDynamic_entry d bn = Inr bn"
  using assms unfolding ParseDynamic_entry_def Let_def insert_iff empty_iff de_Morgan_disj
  by (elim conjE) (simp only: if_False simp_thms)

lemma entries_names:
  "\<forall>d \<in> set ds. d_tag d \<in> set name_tags \<Longrightarrow> rfold ParseDynamic_entry ds bn = Inr bn"
proof (induction ds)
  case (Cons d ds)
  have "ParseDynamic_entry d bn = Inr bn" 
    by (rule entry_other) (use Cons.prems in \<open>auto simp: name_tags_def\<close>)
  with Cons show ?case by simp
qed simp

lemma entry_number:
  "ParseDynamic_entry \<lparr>d_tag = DT_INIT_ARRAYSZ, d_val = v\<rparr> bn = Inr (bn\<lparr>bn_init_arraysz := v\<rparr>)"
  "ParseDynamic_entry \<lparr>d_tag = DT_FINI_ARRAYSZ, d_val = v\<rparr> bn = Inr (bn\<lparr>bn_fini_arraysz := v\<rparr>)"
  "ParseDynamic_entry \<lparr>d_tag = DT_RELASZ, d_val = v\<rparr> bn = Inr (bn\<lparr>bn_num_rels := v div 24\<rparr>)"
  "ParseDynamic_entry \<lparr>d_tag = DT_VERNEEDNUM, d_val = v\<rparr> bn = Inr (bn\<lparr>bn_verneednum := v\<rparr>)"
  "ParseDynamic_entry \<lparr>d_tag = DT_INIT, d_val = v\<rparr> bn = Inr (bn\<lparr>bn_init := v\<rparr>)"
  "ParseDynamic_entry \<lparr>d_tag = DT_FINI, d_val = v\<rparr> bn = Inr (bn\<lparr>bn_fini := v\<rparr>)"
  "ParseDynamic_entry \<lparr>d_tag = DT_STRSZ, d_val = v\<rparr> bn = Inr bn"
  "ParseDynamic_entry \<lparr>d_tag = DT_SYMENT, d_val = v\<rparr> bn = Inr bn"
  "ParseDynamic_entry \<lparr>d_tag = DT_RELAENT, d_val = v\<rparr> bn = Inr bn"
  "ParseDynamic_entry \<lparr>d_tag = DT_NULL, d_val = v\<rparr> bn = Inr bn"
  by (simp_all add: ParseDynamic_entry_def Let_def)

definition addresses_read :: "Sold \<Rightarrow> ELFBinary \<Rightarrow> ELFBinary" where
  "addresses_read so bn = bn\<lparr>
     bn_init := (if bn_init (main_binary so) \<noteq> 0 then bn_init (main_binary so) + load_offset so 0 else bn_init bn),
     bn_fini := (if bn_fini (main_binary so) \<noteq> 0 then bn_fini (main_binary so) + load_offset so 0 else bn_fini bn)\<rparr>"

lemma entries_addresses: "rfold ParseDynamic_entry (address_entries so) bn = Inr (addresses_read so bn)"
  by (simp add: address_entries_def addresses_read_def entry_number Elf_Dyn.defs)

definition layout_read :: "Sold \<Rightarrow> ELFBinary \<Rightarrow> ELFBinary" where
  "layout_read so bn =
     (let bn = bn\<lparr>bn_init_array_offset := Some (Sold_InitArrayOffset so),
                   bn_init_arraysz := of_nat (length (so_init_array so)) * 8,
                   bn_fini_array_offset := Some (Sold_FiniArrayOffset so),
                   bn_fini_arraysz := of_nat (length (so_fini_array so)) * 8,
                   bn_gnu_hash := Some (Sold_GnuHashOffset so), bn_strtab := Some (projr (Sold_StrtabOffset so)),
                   bn_symtab := Some (projr (Sold_SymtabOffset so)), bn_rel := Some (projr (Sold_RelOffset so)),
                   bn_num_rels := of_nat (length (so_rels so)) * 24 div 24\<rparr>
      in if VersionBuilder_NumVerneed (so_version so) > 0
         then bn\<lparr>bn_versym := Some (projr (Sold_VersymOffset so)), bn_verneed := Some (projr (Sold_VerneedOffset so)),
                 bn_verneednum := of_nat (VersionBuilder_NumVerneed (so_version so))\<rparr>
         else bn)"

lemma entry_pointer:
  assumes "head_mapped k bn" and "unat v < k"
  shows
    "ParseDynamic_entry \<lparr>d_tag = DT_STRTAB, d_val = v\<rparr> bn = Inr (bn\<lparr>bn_strtab := Some v\<rparr>)"
    "ParseDynamic_entry \<lparr>d_tag = DT_SYMTAB, d_val = v\<rparr> bn = Inr (bn\<lparr>bn_symtab := Some v\<rparr>)"
    "ParseDynamic_entry \<lparr>d_tag = DT_GNU_HASH, d_val = v\<rparr> bn = Inr (bn\<lparr>bn_gnu_hash := Some v\<rparr>)"
    "ParseDynamic_entry \<lparr>d_tag = DT_RELA, d_val = v\<rparr> bn = Inr (bn\<lparr>bn_rel := Some v\<rparr>)"
    "ParseDynamic_entry \<lparr>d_tag = DT_INIT_ARRAY, d_val = v\<rparr> bn = Inr (bn\<lparr>bn_init_array_offset := Some v\<rparr>)"
    "ParseDynamic_entry \<lparr>d_tag = DT_FINI_ARRAY, d_val = v\<rparr> bn = Inr (bn\<lparr>bn_fini_array_offset := Some v\<rparr>)"
    "ParseDynamic_entry \<lparr>d_tag = DT_VERSYM, d_val = v\<rparr> bn = Inr (bn\<lparr>bn_versym := Some v\<rparr>)"
    "ParseDynamic_entry \<lparr>d_tag = DT_VERNEED, d_val = v\<rparr> bn = Inr (bn\<lparr>bn_verneed := Some v\<rparr>)"
  by (simp_all add: ParseDynamic_entry_def Let_def ELFBinary_GetPtr_def head_mapped_address(1) [OF assms])

lemma head_mapped_update [simp]:
  "head_mapped k (bn\<lparr>bn_strtab := x\<rparr>) = head_mapped k bn" "head_mapped k (bn\<lparr>bn_symtab := x\<rparr>) = head_mapped k bn"
  "head_mapped k (bn\<lparr>bn_gnu_hash := x\<rparr>) = head_mapped k bn" "head_mapped k (bn\<lparr>bn_rel := x\<rparr>) = head_mapped k bn"
  "head_mapped k (bn\<lparr>bn_init_array_offset := x\<rparr>) = head_mapped k bn" "head_mapped k (bn\<lparr>bn_fini_array_offset := x\<rparr>) = head_mapped k bn"
  "head_mapped k (bn\<lparr>bn_versym := x\<rparr>) = head_mapped k bn" "head_mapped k (bn\<lparr>bn_verneed := x\<rparr>) = head_mapped k bn"
  "head_mapped k (bn\<lparr>bn_init_arraysz := z\<rparr>) = head_mapped k bn" "head_mapped k (bn\<lparr>bn_fini_arraysz := z\<rparr>) = head_mapped k bn"
  "head_mapped k (bn\<lparr>bn_num_rels := z\<rparr>) = head_mapped k bn" "head_mapped k (bn\<lparr>bn_verneednum := z\<rparr>) = head_mapped k bn"
  "head_mapped k (bn\<lparr>bn_init := z\<rparr>) = head_mapped k bn" "head_mapped k (bn\<lparr>bn_fini := z\<rparr>) = head_mapped k bn"
  by (simp_all add: head_mapped_def)

lemma entries_layout:
  assumes "BuildDynamic_layout so = Inr es" and "head_mapped k bn"
    and "unat (Sold_InitArrayOffset so) < k" "unat (Sold_FiniArrayOffset so) < k" "unat (Sold_GnuHashOffset so) < k"
    and "Sold_SymtabOffset so = Inr sy" "unat sy < k" and "Sold_VersymOffset so = Inr vs" "unat vs < k"
    and "Sold_VerneedOffset so = Inr vn" "unat vn < k" and "Sold_RelOffset so = Inr rl" "unat rl < k"
    and "Sold_StrtabOffset so = Inr st" "unat st < k"
  shows "rfold ParseDynamic_entry es bn = Inr (layout_read so bn)"
proof -
  note p = entry_pointer [where k = k]
  show ?thesis
  proof (cases "VersionBuilder_NumVerneed (so_version so) > 0")
    case True
    then have "es = [\<lparr>d_tag = DT_INIT_ARRAY, d_val = Sold_InitArrayOffset so\<rparr>,
        \<lparr>d_tag = DT_INIT_ARRAYSZ, d_val = of_nat (length (so_init_array so)) * 8\<rparr>,
        \<lparr>d_tag = DT_FINI_ARRAY, d_val = Sold_FiniArrayOffset so\<rparr>,
        \<lparr>d_tag = DT_FINI_ARRAYSZ, d_val = of_nat (length (so_fini_array so)) * 8\<rparr>,
        \<lparr>d_tag = DT_GNU_HASH, d_val = Sold_GnuHashOffset so\<rparr>, \<lparr>d_tag = DT_STRTAB, d_val = st\<rparr>,
        \<lparr>d_tag = DT_STRSZ, d_val = StrtabBuilder_size (so_strtab so)\<rparr>, \<lparr>d_tag = DT_SYMTAB, d_val = sy\<rparr>,
        \<lparr>d_tag = DT_SYMENT, d_val = 24\<rparr>, \<lparr>d_tag = DT_VERSYM, d_val = vs\<rparr>,
        \<lparr>d_tag = DT_VERNEEDNUM, d_val = of_nat (VersionBuilder_NumVerneed (so_version so))\<rparr>,
        \<lparr>d_tag = DT_VERNEED, d_val = vn\<rparr>, \<lparr>d_tag = DT_RELA, d_val = rl\<rparr>, \<lparr>d_tag = DT_RELAENT, d_val = 24\<rparr>,
        \<lparr>d_tag = DT_RELASZ, d_val = of_nat (length (so_rels so)) * 24\<rparr>, \<lparr>d_tag = DT_NULL, d_val = 0\<rparr>]"
      using assms(1) unfolding BuildDynamic_layout_def by (simp add: assms(6,8,10,12,14) Let_def Elf_Dyn.defs)
    then show ?thesis using True by (simp add: p entry_number assms(2-) layout_read_def Let_def)
  next
    case False
    then have "es = [\<lparr>d_tag = DT_INIT_ARRAY, d_val = Sold_InitArrayOffset so\<rparr>,
        \<lparr>d_tag = DT_INIT_ARRAYSZ, d_val = of_nat (length (so_init_array so)) * 8\<rparr>,
        \<lparr>d_tag = DT_FINI_ARRAY, d_val = Sold_FiniArrayOffset so\<rparr>,
        \<lparr>d_tag = DT_FINI_ARRAYSZ, d_val = of_nat (length (so_fini_array so)) * 8\<rparr>,
        \<lparr>d_tag = DT_GNU_HASH, d_val = Sold_GnuHashOffset so\<rparr>, \<lparr>d_tag = DT_STRTAB, d_val = st\<rparr>,
        \<lparr>d_tag = DT_STRSZ, d_val = StrtabBuilder_size (so_strtab so)\<rparr>, \<lparr>d_tag = DT_SYMTAB, d_val = sy\<rparr>,
        \<lparr>d_tag = DT_SYMENT, d_val = 24\<rparr>, \<lparr>d_tag = DT_RELA, d_val = rl\<rparr>, \<lparr>d_tag = DT_RELAENT, d_val = 24\<rparr>,
        \<lparr>d_tag = DT_RELASZ, d_val = of_nat (length (so_rels so)) * 24\<rparr>, \<lparr>d_tag = DT_NULL, d_val = 0\<rparr>]"
      using assms(1) unfolding BuildDynamic_layout_def by (simp add: assms(6,12,14) Let_def Elf_Dyn.defs)
    then show ?thesis using False by (simp add: p entry_number assms(2-) layout_read_def Let_def)
  qed
qed

section \<open>The second pass\<close>

lemma names_other: "d_tag d \<notin> set name_tags \<Longrightarrow> ParseDynamic_name d bn = Inr bn"
  by (simp add: ParseDynamic_name_def Let_def name_tags_def)

lemma names_others: "\<forall>d \<in> set ds. d_tag d \<notin> set name_tags \<Longrightarrow> rfold ParseDynamic_name ds bn = Inr bn"
  by (induction ds) (simp_all add: names_other)

text \<open>What one name adds, and all of them.\<close>

definition name_read :: "u64 \<times> string \<Rightarrow> ELFBinary \<Rightarrow> ELFBinary" where
  "name_read e bn =
     (if fst e = DT_NEEDED then bn\<lparr>bn_neededs := bn_neededs bn @ [snd e]\<rparr>
      else if fst e = DT_SONAME then bn\<lparr>bn_soname := snd e\<rparr>
      else if fst e = DT_RUNPATH then bn\<lparr>bn_runpath := snd e\<rparr>
      else if fst e = DT_RPATH then bn\<lparr>bn_rpath := snd e\<rparr> else bn)"

definition names_read :: "Sold \<Rightarrow> ELFBinary \<Rightarrow> ELFBinary" where
  "names_read so bn = (let main = main_binary so in bn\<lparr>
     bn_neededs := bn_neededs bn @ dynamic_neededs so,
     bn_soname := (if bn_soname main \<noteq> [] then bn_soname main else bn_soname bn),
     bn_rpath := (if bn_rpath main \<noteq> [] then bn_rpath main else bn_rpath bn),
     bn_runpath := (if bn_runpath main \<noteq> [] then bn_runpath main else bn_runpath bn)\<rparr>)"

lemma name_read_all: "fold name_read (string_entries so) bn = names_read so bn"
proof -
  have "fold name_read (map (Pair DT_NEEDED) ns) bn = bn\<lparr>bn_neededs := bn_neededs bn @ ns\<rparr>" for ns bn
    by (induction ns arbitrary: bn) (simp_all add: name_read_def)
  then show ?thesis by (simp add: string_entries_def names_read_def name_read_def Let_def)
qed

definition names_at :: "image \<Rightarrow> u64 \<Rightarrow> u64 \<times> string \<Rightarrow> Elf_Dyn \<Rightarrow> bool" where
  "names_at img st e d \<longleftrightarrow> d_tag d = fst e \<and> read_cstr img (st + d_val d) = Inr (snd e)"

lemma name_read_one:
  assumes "names_at (bn_head bn) st e d" and "bn_strtab bn = Some st"
  shows "ParseDynamic_name d bn = Inr (name_read e bn)"
  using assms by (simp add: ParseDynamic_name_def name_read_def Let_def names_at_def ELFBinary_Str_def)

lemma names_strings:
  "list_all2 (names_at (bn_head bn) st) es ds \<Longrightarrow> bn_strtab bn = Some st \<Longrightarrow>
    rfold ParseDynamic_name ds bn = Inr (fold name_read es bn)"
proof (induction es arbitrary: ds bn)
  case Nil
  then show ?case by simp
next
  case (Cons e es)
  then obtain d ds' where ds: "ds = d # ds'" "names_at (bn_head bn) st e d" "list_all2 (names_at (bn_head bn) st) es ds'"
    by (auto simp: list_all2_Cons1)
  have "bn_head (name_read e bn) = bn_head bn" "bn_strtab (name_read e bn) = bn_strtab bn"
    by (simp_all add: name_read_def)
  then have "rfold ParseDynamic_name ds' (name_read e bn) = Inr (fold name_read es (name_read e bn))"
    using Cons.IH [of "name_read e bn" ds'] ds(3) Cons.prems(2) by simp
  then show ?case by (simp add: ds(1) name_read_one [OF ds(2) Cons.prems(2)])
qed

section \<open>The arrays\<close>

interpretation word64: codec "le_bytes 8 :: u64 \<Rightarrow> u8 list" "le_word :: u8 list \<Rightarrow> u64" 8
  by unfold_locales simp_all

lemma ParseFuncArray_words:
  assumes "at_offset fp (Inr off) (words_bytes ws)" and "prefix fp img" and "length fp < 2 ^ 64"
    and "unat sz = 8 * length ws"
  shows "ELFBinary_ParseFuncArray img (Some off) sz out = Inr (out @ ws)"
proof -
  have "ELFBinary_ParseFuncArray img (Some off) sz out
      = rfold (\<lambda>i out. rbind (read_struct le_word 8 img (off + of_nat (8 * i))) (\<lambda>x. Inr (out @ [x]))) [0..<length ws] out"
    by (simp add: ELFBinary_ParseFuncArray_def assms(4))
  also have "\<dots> = rfold (\<lambda>x out. Inr (out @ [x])) ws out"
    using word64.read_at_offset [OF assms(1) [unfolded words_bytes_def] assms(2,3)]
    by (intro rfold_reads [where P = "\<lambda>_. True" and rd = "\<lambda>i _. read_struct le_word 8 img (off + of_nat (8 * i))"]) simp_all
  also have "\<dots> = Inr (out @ ws)" by (induction ws arbitrary: out) simp_all
  finally show ?thesis .
qed

section \<open>The dynamic section of the output\<close>

text \<open>What is known of the file and the final state after a run of \<^verbatim>\<open>Link\<close>.\<close>

definition output_of :: "Sold \<Rightarrow> Elf_Phdr list \<Rightarrow> Elf_Dyn list \<Rightarrow> Elf_Dyn list \<Rightarrow> stream \<Rightarrow> bool" where
  "output_of so phs ns es front \<longleftrightarrow> tables_ok so \<and> output_phdrs so = Inr phs \<and> of_nat (length phs) = Sold_CountPhdrs so
     \<and> total_size (output_tables so phs) < 2 ^ 31 \<and> length front < 2 ^ 32
     \<and> list_all (\<lambda>(off, bs). at_offset front off bs) (output_tables so phs)
     \<and> so_dynamic so = ns @ address_entries so @ es \<and> BuildDynamic_layout so = Inr es
     \<and> list_all2 (names_string (so_strtab so)) (string_entries so) ns
     \<and> strtab_wf (so_strtab so) \<and> sb_rename_mapping (so_strtab so) = Map.empty"

lemma Link_output_of:
  assumes "fresh so" and "Sold_Link malloc so = Inr (so', fp)" and "length fp < 2 ^ 31"
  obtains phs ns es front where "output_of so' phs ns es front" "prefix front fp"
proof -
  obtain emit: "Sold_prepare so = Inr so'" "Sold_Emit malloc so' = Inr fp"
    using assms(2) by (auto simp: Sold_Link_def)
  have tabs: "tables_ok so'" "strtab_sound (so_strtab so')" "sb_rename_mapping (so_strtab so') = Map.empty"
    using prepare_tables [OF emit(1) fresh_tables [OF assms(1)]] by simp_all
  obtain phs where phs: "output_phdrs so' = Inr phs" "of_nat (length phs) = Sold_CountPhdrs so'"
    "total_size (output_tables so' phs) \<le> length fp"
    by (rule Emit_size [OF emit(2) tabs(1)])
  have small: "total_size (output_tables so' phs) < 2 ^ 31" using phs(3) assms(3) by simp
  have "length (StrtabBuilder_data (so_strtab so')) \<le> total_size (output_tables so' phs)"
    unfolding total_size_def by (rule member_le_sum_list) (simp_all add: output_tables_def table_stages_def)
  with small tabs(2) have wf: "strtab_wf (so_strtab so')" by (simp add: StrtabBuilder_data_def strtab_sound_def)
  obtain front where front: "prefix front fp" "length front < 2 ^ 32"
    "list_all (\<lambda>(off, bs). at_offset front off bs) (output_tables so' phs)"
    by (rule Emit_front [OF emit(2) tabs(1) phs(1,2) small])
  have "so_dynamic so = []" using assms(1) by (simp add: fresh_def)
  from dynamic_section [OF emit(1) this] obtain ns es where
    "so_dynamic so' = ns @ address_entries so' @ es" "BuildDynamic_layout so' = Inr es"
    "list_all2 (names_string (so_strtab so')) (string_entries so') ns" by blast
  then have "output_of so' phs ns es front"
    using tabs phs(1,2) small front(2,3) wf by (simp add: output_of_def)
  then show ?thesis using that front(1) by blast
qed

lemma layout_tags: "BuildDynamic_layout so = Inr es \<Longrightarrow> d \<in> set es \<Longrightarrow> d_tag d \<notin> set name_tags"
  by (auto simp: BuildDynamic_layout_def Let_def Elf_Dyn.defs name_tags_def split: if_splits)

lemma address_tags: "d \<in> set (address_entries so) \<Longrightarrow> d_tag d \<notin> set name_tags"
  by (auto simp: address_entries_def Elf_Dyn.defs name_tags_def split: if_splits)

lemma string_tags: "e \<in> set (string_entries so) \<Longrightarrow> fst e \<in> set name_tags"
  by (auto simp: string_entries_def name_tags_def split: if_splits)

definition dynamic_read :: "Sold \<Rightarrow> ELFBinary \<Rightarrow> ELFBinary" where
  "dynamic_read so bn =
     (let bn = layout_read so (addresses_read so bn)
      in names_read so (bn\<lparr>bn_init_array := bn_init_array bn @ so_init_array so,
                            bn_fini_array := bn_fini_array bn @ so_fini_array so\<rparr>))"

lemma layout_read_fields:
  "bn_head (layout_read so (addresses_read so bn)) = bn_head bn"
  "bn_strtab (layout_read so (addresses_read so bn)) = Some (projr (Sold_StrtabOffset so))"
  "bn_init_array_offset (layout_read so (addresses_read so bn)) = Some (Sold_InitArrayOffset so)"
  "bn_fini_array_offset (layout_read so (addresses_read so bn)) = Some (Sold_FiniArrayOffset so)"
  "bn_init_arraysz (layout_read so (addresses_read so bn)) = of_nat (length (so_init_array so)) * 8"
  "bn_fini_arraysz (layout_read so (addresses_read so bn)) = of_nat (length (so_fini_array so)) * 8"
  "bn_init_array (layout_read so (addresses_read so bn)) = bn_init_array bn"
  "bn_fini_array (layout_read so (addresses_read so bn)) = bn_fini_array bn"
  by (simp_all add: layout_read_def addresses_read_def Let_def)

lemma head_mapped_addresses: "head_mapped k (addresses_read so bn) = head_mapped k bn"
  by (simp add: addresses_read_def)

lemma ParseDynamic_keeps_head:
  "ParseDynamic_entry d bn = Inr bn' \<Longrightarrow> bn_head bn' = bn_head bn"
  "ParseDynamic_name d bn = Inr bn' \<Longrightarrow> bn_head bn' = bn_head bn"
  unfolding ParseDynamic_entry_def ParseDynamic_name_def Let_def by (auto split: if_splits)

lemma read_dyns:
  assumes "at_offset front (Inr dyn) (concat (map enc_Elf_Dyn ds))" and "prefix front (bn_head bn)"
    and "length front < 2 ^ 64" and "\<And>d b b'. f d b = Inr b' \<Longrightarrow> bn_head b' = bn_head b"
  shows "rfold (\<lambda>i b. rbind (read_dyn b dyn i) (\<lambda>d. f d b)) [0..<length ds] bn = rfold f ds bn"
proof (rule rfold_reads [where P = "\<lambda>b. bn_head b = bn_head bn"])
  show "read_dyn b dyn i = Inr (ds ! i)" if "i < length ds" "bn_head b = bn_head bn" for i b
    using dyn.read_at_offset [OF assms(1-3) that(1)] that(2) by (simp add: read_dyn_def)
qed (use assms(4) in auto)

lemma strings_found:
  assumes "list_all2 (names_string st) es ns" and "at_offset front (Inr off) (StrtabBuilder_data st)"
    and "prefix front img" and "length front < 2 ^ 64" and "strtab_wf st" and "sb_rename_mapping st = Map.empty"
    and "\<forall>e \<in> set es. no_nul (snd e)"
  shows "list_all2 (names_at img off) es ns"
proof (rule list.rel_mono_strong [OF assms(1)])
  fix e d assume e: "e \<in> set es" "names_string st e d"
  have "StrtabBuilder_renamed st (snd e) = snd e" by (simp add: StrtabBuilder_renamed_def assms(6))
  then show "names_at img off e d"
    using e assms(7) read_name [OF assms(2-5), of "snd e" "d_val d"] by (simp add: names_string_def names_at_def)
qed

lemma names_at_tags:
  assumes "list_all2 (names_at img st) es ns" and "\<And>e. e \<in> set es \<Longrightarrow> fst e \<in> set name_tags"
  shows "\<forall>d \<in> set ns. d_tag d \<in> set name_tags"
proof
  fix d assume "d \<in> set ns"
  with assms(1) obtain e where "e \<in> set es" "names_at img st e d"
    unfolding list_all2_conv_all_nth in_set_conv_nth by metis
  then show "d_tag d \<in> set name_tags" using assms(2) by (simp add: names_at_def)
qed

text \<open>The offsets of the output, all below the end of the dynamic section.\<close>

lemma output_numbers:
  assumes out: "output_of so phs ns es front" and dyn: "Sold_DynamicOffset so = Inr dyn"
  obtains n f g sy v w r t d where
    "Sold_InitArrayOffset so = of_nat n" "Sold_FiniArrayOffset so = of_nat f" "Sold_GnuHashOffset so = of_nat g"
    "Sold_SymtabOffset so = Inr (of_nat sy)" "Sold_VersymOffset so = Inr (of_nat v)" "Sold_VerneedOffset so = Inr (of_nat w)"
    "Sold_RelOffset so = Inr (of_nat r)" "Sold_StrtabOffset so = Inr (of_nat t)" "dyn = of_nat d"
    "sorted [n, f, g, sy, v, w, r, t, d]" "d + 16 * length (so_dynamic so) < 2 ^ 31 + 8" "so_dynamic so \<noteq> []"
proof -
  from out have tabs: "tables_ok so" and phs: "of_nat (length phs) = Sold_CountPhdrs so"
    and small: "total_size (output_tables so phs) < 2 ^ 31" and dynq: "so_dynamic so = ns @ address_entries so @ es"
    and lay: "BuildDynamic_layout so = Inr es"
    unfolding output_of_def by blast+
  have "64 + 56 * length phs < 2 ^ 32" using small by (simp add: total_size_output_tables del: length_concat)
  from InitArrayOffset_aligned [OF phs this] obtain n where n: "n < 64 + 56 * length phs + 8"
    "Sold_InitArrayOffset so = of_nat n" by (metis add_less_cancel_left)
  obtain f g sy v w r t d where offs: "Sold_FiniArrayOffset so = of_nat f" "Sold_GnuHashOffset so = of_nat g"
    "Sold_SymtabOffset so = Inr (of_nat sy)" "Sold_VersymOffset so = Inr (of_nat v)" "Sold_VerneedOffset so = Inr (of_nat w)"
    "Sold_RelOffset so = Inr (of_nat r)" "Sold_StrtabOffset so = Inr (of_nat t)" "Sold_DynamicOffset so = Inr (of_nat d)"
    and order: "sorted [n, f, g, sy, v, w, r, t, d]"
    and last: "d + 16 * length (so_dynamic so) \<le> n + length (words_bytes (so_init_array so))
       + length (words_bytes (so_fini_array so)) + length (concat (map (snd \<circ> snd) (table_stages so)))"
    by (rule offsets_as_numbers [OF tabs n(2)])
  have "d + 16 * length (so_dynamic so) < 2 ^ 31 + 8"
    using last small n(1) by (simp add: total_size_output_tables del: length_concat)
  moreover have "so_dynamic so \<noteq> []" using dynq lay by (auto simp: BuildDynamic_layout_def Let_def split: if_splits)
  moreover have "dyn = of_nat d" using dyn offs(8) by simp
  ultimately show ?thesis using that n(2) offs(1-7) order by blast
qed

lemma ParseDynamic_output:
  assumes out: "output_of so phs ns es front" and img: "prefix front (bn_head bn)"
    and dyn: "Sold_DynamicOffset so = Inr dyn" and mapped: "head_mapped k bn"
    and k: "unat dyn + 16 * length (so_dynamic so) \<le> k"
    and nul: "\<forall>e \<in> set (string_entries so). no_nul (snd e)"
  shows "ELFBinary_ParseDynamic dyn (16 * of_nat (length (so_dynamic so))) bn = Inr (dynamic_read so bn)"
proof -
  from out have dynq: "so_dynamic so = ns @ address_entries so @ es"
    and small: "total_size (output_tables so phs) < 2 ^ 31"
    and lay: "BuildDynamic_layout so = Inr es" and nsq: "list_all2 (names_string (so_strtab so)) (string_entries so) ns"
    and st: "strtab_wf (so_strtab so)" "sb_rename_mapping (so_strtab so) = Map.empty"
    and tabls: "list_all (\<lambda>(off, bs). at_offset front off bs) (output_tables so phs)" and lenf: "length front < 2 ^ 32"
    unfolding output_of_def by blast+
  obtain n f g sy v w r t d where n: "Sold_InitArrayOffset so = of_nat n"
    and offs: "Sold_FiniArrayOffset so = of_nat f" "Sold_GnuHashOffset so = of_nat g"
    "Sold_SymtabOffset so = Inr (of_nat sy)" "Sold_VersymOffset so = Inr (of_nat v)" "Sold_VerneedOffset so = Inr (of_nat w)"
    "Sold_RelOffset so = Inr (of_nat r)" "Sold_StrtabOffset so = Inr (of_nat t)" and d: "dyn = of_nat d"
    and order: "sorted [n, f, g, sy, v, w, r, t, d]" and bound: "d + 16 * length (so_dynamic so) < 2 ^ 31 + 8"
    and ne: "so_dynamic so \<noteq> []"
    by (rule output_numbers [OF out dyn])
  have number: "unat (of_nat x :: u64) = x" if "x \<le> d" for x using that bound by (simp add: unat_of_nat take_bit_nat_eq_self)
  have "d < k" using k d number [of d] ne by (cases "so_dynamic so") simp_all
  then have below: "unat (of_nat x :: u64) < k" if "x \<le> d" for x using number [OF that] that by simp
  have places: "at_offset front (Inr (Sold_InitArrayOffset so)) (words_bytes (so_init_array so))"
    "at_offset front (Inr (Sold_FiniArrayOffset so)) (words_bytes (so_fini_array so))"
    "at_offset front (Inr (of_nat t)) (StrtabBuilder_data (so_strtab so))"
    "at_offset front (Inr dyn) (concat (map enc_Elf_Dyn (so_dynamic so)))"
    using tabls dyn offs(7) by (simp_all add: output_tables_def table_stages_def)
  have len: "length front < 2 ^ 64" using lenf by simp
  let ?bn1 = "layout_read so (addresses_read so bn)"
  let ?bn2 = "?bn1\<lparr>bn_init_array := bn_init_array bn @ so_init_array so, bn_fini_array := bn_fini_array bn @ so_fini_array so\<rparr>"
  have strings: "list_all2 (names_at (bn_head bn) (of_nat t)) (string_entries so) ns"
    by (rule strings_found [OF nsq places(3) img len st nul])
  have tags: "\<forall>d \<in> set ns. d_tag d \<in> set name_tags"
    by (rule names_at_tags [OF strings]) (rule string_tags)
  have "rfold ParseDynamic_entry es (addresses_read so bn) = Inr ?bn1"
    by (rule entries_layout [where k = k and sy = "of_nat sy" and vs = "of_nat v" and vn = "of_nat w" and rl = "of_nat r"
          and st = "of_nat t"]) (use lay offs n order below mapped in \<open>simp_all add: head_mapped_addresses\<close>)
  then have entries: "rfold ParseDynamic_entry (so_dynamic so) bn = Inr ?bn1"
    by (simp add: dynq rfold_append entries_names [OF tags] entries_addresses)
  have "rfold ParseDynamic_name ns ?bn2 = Inr (names_read so ?bn2)"
    using names_strings [of ?bn2 "of_nat t" "string_entries so" ns] strings
    by (simp add: layout_read_fields offs(7) name_read_all)
  moreover have "rfold ParseDynamic_name (address_entries so @ es) b = Inr b" for b
    by (rule names_others) (use layout_tags [OF lay] address_tags in auto)
  ultimately have second: "rfold ParseDynamic_name (so_dynamic so) ?bn2 = Inr (names_read so ?bn2)"
    by (simp add: dynq rfold_append)
  have size: "unat (16 * of_nat (length (so_dynamic so)) :: u64) = 16 * length (so_dynamic so)"
    using bound by (simp add: unat_word_ariths unat_of_nat take_bit_nat_eq_self)
  then have aligned: "(16 * of_nat (length (so_dynamic so)) :: u64) mod 16 = 0"
    by (simp add: word_unat_eq_iff unat_mod)
  note loop = read_dyns [OF places(4) _ len]
  have words: "unat (of_nat n * 8 :: u64) = 8 * n" if "8 * n < 2 ^ 32" for n
    using that by (simp add: unat_word_ariths unat_of_nat take_bit_nat_eq_self)
  have "8 * length (so_init_array so) < 2 ^ 32" "8 * length (so_fini_array so) < 2 ^ 32"
    using small by (simp_all add: total_size_output_tables length_words_bytes del: length_concat)
  then have arrays: "ELFBinary_ParseFuncArray (bn_head bn) (Some (Sold_InitArrayOffset so)) (of_nat (length (so_init_array so)) * 8)
       (bn_init_array bn) = Inr (bn_init_array bn @ so_init_array so)"
    "ELFBinary_ParseFuncArray (bn_head bn) (Some (Sold_FiniArrayOffset so)) (of_nat (length (so_fini_array so)) * 8)
       (bn_fini_array bn) = Inr (bn_fini_array bn @ so_fini_array so)"
    using ParseFuncArray_words [OF places(1) img len] ParseFuncArray_words [OF places(2) img len] words by simp_all
  have count: "unat (16 * of_nat (length (so_dynamic so)) :: u64) div 16 = length (so_dynamic so)" by (simp add: size)
  have loop1: "rfold (\<lambda>i b. rbind (read_dyn b dyn i) (\<lambda>d. ParseDynamic_entry d b)) [0..<length (so_dynamic so)] bn = Inr ?bn1"
    using loop [OF img ParseDynamic_keeps_head(1)] entries by simp
  have img2: "prefix front (bn_head ?bn2)" using img by (simp add: layout_read_fields)
  have loop2: "rfold (\<lambda>i b. rbind (read_dyn b dyn i) (\<lambda>d. ParseDynamic_name d b)) [0..<length (so_dynamic so)] ?bn2
      = Inr (names_read so ?bn2)"
    using loop [OF img2 ParseDynamic_keeps_head(2)] second by simp
  have "dynamic_read so bn = names_read so ?bn2" by (simp add: dynamic_read_def Let_def layout_read_fields)
  then show ?thesis
    unfolding ELFBinary_ParseDynamic_def Let_def count loop1
    by (simp add: aligned CHECK_def layout_read_fields arrays loop2)
qed

end
