(* ===== verification/Link_Reread.thy ===== *)
theory Link_Reread
  imports Dynamic_Reread Library_Resolve
begin

text \<open>
  The file \<^verbatim>\<open>Sold::Link\<close> writes, given to \<^verbatim>\<open>ReadELF\<close>: the program headers are collected, the dynamic section and
  the exception frame header are found through them, and the object made says of the output what the linker meant
  (\<open>output_object\<close>). What this asks of the linker's state (\<open>linkable\<close>) is what its constructor leaves.
\<close>

section \<open>What the preparation leaves for the headers\<close>

definition keeps_loads :: "(Sold \<Rightarrow> Sold res) \<Rightarrow> bool" where
  "keeps_loads f \<longleftrightarrow> (\<forall>so so'. f so = Inr so' \<longrightarrow> so_loads so' = so_loads so)"

lemma keeps_loads_chain: "list_all keeps_loads fs \<Longrightarrow> rfold id fs so = Inr so' \<Longrightarrow> so_loads so' = so_loads so"
  by (induction fs arbitrary: so) (auto simp: keeps_loads_def)

lemma keeps_loads_rfold:
  assumes "\<And>x. keeps_loads (f x)"
  shows "keeps_loads (rfold f xs)"
  unfolding keeps_loads_def
proof (intro allI impI)
  fix so so' assume r: "rfold f xs so = Inr so'"
  show "so_loads so' = so_loads so"
    by (rule rfold_inv [OF r]) (use assms in \<open>auto simp: keeps_loads_def\<close>)
qed

lemma keeps_loads_steps:
  "keeps_loads (\<lambda>so. Inr (Sold_BuildMprotect so))" "keeps_loads (\<lambda>so. Inr (so\<lparr>so_strtab := st so\<rparr>))"
  "keeps_loads Sold_BuildEHFrameHeader" "keeps_loads register_shdrs" "keeps_loads freeze_shdrs" "keeps_loads Sold_BuildEhdr"
proof -
  have "so_loads (fold (\<lambda>b so. case bn_gnu_relro (binary so b) of None \<Rightarrow> so
      | Some r \<Rightarrow> so\<lparr>so_memprotect_builder := MprotectBuilder_Add (p_vaddr r + load_offset so b) (p_memsz r) (so_memprotect_builder so)\<rparr>)
      bs so) = so_loads so" for bs so
    by (induction bs arbitrary: so) (auto split: option.split)
  then show "keeps_loads (\<lambda>so. Inr (Sold_BuildMprotect so))" by (simp add: keeps_loads_def Sold_BuildMprotect_def)
  have "keeps_loads (BuildEHFrameHeader_step x)" for x
    by (auto simp: keeps_loads_def BuildEHFrameHeader_step_def Let_def split: prod.splits)
  then have "keeps_loads (rfold BuildEHFrameHeader_step ps)" for ps by (rule keeps_loads_rfold)
  then show "keeps_loads Sold_BuildEHFrameHeader" by (auto simp: keeps_loads_def Sold_BuildEHFrameHeader_def)
  have "keeps_loads (register_shdr off sz type entsize info)" for off sz type entsize info
    by (auto simp: keeps_loads_def register_shdr_def)
  then show "keeps_loads register_shdrs"
    unfolding keeps_loads_def [of register_shdrs] register_shdrs_def
    by (intro allI impI, elim keeps_loads_chain [rotated]) simp
qed (auto simp: keeps_loads_def freeze_shdrs_def Sold_BuildEhdr_def)

lemma finish_steps_loads:
  assumes "rfold id finish_steps so = Inr so'"
  obtains a b d where "so_loads a = so_loads so" "layout_view a = layout_view so" "Sold_BuildLoads a = Inr b"
    "so_loads so' = so_loads b" "Sold_BuildEhdr d = Inr so'"
proof -
  let ?pre = "[\<lambda>so. Inr (Sold_BuildMprotect so), \<lambda>so. Inr (so\<lparr>so_strtab := StrtabBuilder_Freeze (so_strtab so)\<rparr>)]"
  let ?post = "[Sold_BuildEHFrameHeader, register_shdrs, freeze_shdrs]"
  have "rfold id (?pre @ [Sold_BuildLoads] @ ?post @ [Sold_BuildEhdr]) so = Inr so'"
    using assms by (simp only: finish_steps_def append.simps)
  then obtain a b d where a: "rfold id ?pre so = Inr a" and b: "rfold id [Sold_BuildLoads] a = Inr b" and d: "rfold id ?post b = Inr d"
    and e: "rfold id [Sold_BuildEhdr] d = Inr so'"
    unfolding rfold_append rbind_Inr_iff by blast
  have b: "Sold_BuildLoads a = Inr b" and e: "Sold_BuildEhdr d = Inr so'" using b e by simp_all
  have "so_loads a = so_loads so" by (rule keeps_loads_chain [OF _ a]) (simp add: keeps_loads_steps)
  moreover have "layout_view a = layout_view so"
    using keeps_tables_chain [OF _ a] by (simp add: keeps_steps)
  moreover have "so_loads d = so_loads b" by (rule keeps_loads_chain [OF _ d]) (simp add: keeps_loads_steps)
  moreover have "so_loads so' = so_loads d" using keeps_loads_steps(6) e by (simp add: keeps_loads_def)
  ultimately show ?thesis using that b e by metis
qed

text \<open>A load of the output is a load of a linked object, moved.\<close>

definition load_copied :: "Sold \<Rightarrow> Load \<Rightarrow> bool" where
  "load_copied so l \<longleftrightarrow> (\<exists>b \<in> set (so_link_binaries so). ld_orig l \<in> set (bn_loads (binary so b)))
     \<and> p_type (ld_emit l) = p_type (ld_orig l)"

lemma BuildLoads_step_copied:
  assumes "list_all (load_copied so) (snd st)" and "b \<in> set (so_link_binaries so)" and "p \<in> set (bn_loads (binary so b))"
  shows "list_all (load_copied so) (snd (BuildLoads_step off b p st))"
proof -
  obtain l where "snd (BuildLoads_step off b p st) = snd st @ [l]" "ld_orig l = p" "p_type (ld_emit l) = p_type p"
    by (simp add: BuildLoads_step_def Let_def case_prod_unfold)
  then show ?thesis using assms by (auto simp: load_copied_def)
qed

lemma BuildLoads_object_copied:
  "set ps \<subseteq> set (bn_loads (binary so b)) \<Longrightarrow> b \<in> set (so_link_binaries so) \<Longrightarrow> list_all (load_copied so) (snd st) \<Longrightarrow>
    list_all (load_copied so) (snd (fold (BuildLoads_step off b) ps st))"
  by (induction ps arbitrary: st) (simp_all add: BuildLoads_step_copied)

lemma BuildLoads_objects_copied:
  "set bs \<subseteq> set (so_link_binaries so) \<Longrightarrow> list_all (load_copied so) (snd st) \<Longrightarrow>
    list_all (load_copied so) (snd (fold (\<lambda>b. fold (BuildLoads_step (load_offset so b) b) (bn_loads (binary so b))) bs st))"
  by (induction bs arbitrary: st) (simp_all add: BuildLoads_object_copied)

lemma BuildLoads_loads:
  assumes "Sold_BuildLoads so = Inr so'" and "so_loads so = []"
  shows "list_all (load_copied so) (so_loads so')"
proof -
  let ?loop = "\<lambda>c. fold (\<lambda>b. fold (BuildLoads_step (load_offset so b) b) (bn_loads (binary so b)))
      (so_link_binaries so) (c, so_loads so)"
  obtain c where c: "rbind (CHECK (c < load_offset so 0)) (\<lambda>_.
     let (file_offset, loads) = ?loop c;
         so = so\<lparr>so_loads := loads, so_tls_file_offset := file_offset\<rparr>;
         file_offset = AlignNext (file_offset + Sold_TLSFileSize so);
         so = (cache_TLSFileSize so)\<lparr>so_ehframe_file_offset := file_offset\<rparr>;
         file_offset = AlignNext (file_offset + Sold_EHFrameSize so)
     in Inr (so\<lparr>so_mprotect_file_offset := file_offset\<rparr>)) = Inr so'"
    using assms(1) unfolding Sold_BuildLoads_def by (simp only: rbind_Inr_iff) blast
  obtain off loads where loop: "?loop c = (off, loads)" by fastforce
  with c have "so_loads so' = loads" by (auto simp: Let_def cache_TLSFileSize_def)
  with BuildLoads_objects_copied [of "so_link_binaries so" so "(c, so_loads so)"] loop assms(2) show ?thesis by simp
qed

lemma skeleton_fields:
  assumes "skeleton a = skeleton b"
  shows "bn_loads a = bn_loads b" "bn_phdrs a = bn_phdrs b" "bn_ehdr a = bn_ehdr b" "bn_soname a = bn_soname b"
proof -
  have "f (skeleton a) = f (skeleton b)" for f :: "ELFBinary \<Rightarrow> 'a" by (simp add: assms)
  from this [of bn_loads] this [of bn_phdrs] this [of bn_ehdr] this [of bn_soname]
  show "bn_loads a = bn_loads b" "bn_phdrs a = bn_phdrs b" "bn_ehdr a = bn_ehdr b" "bn_soname a = bn_soname b"
    by (simp_all add: skeleton_def)
qed

lemma prepare_headers:
  assumes "Sold_prepare so = Inr so'" and "so_loads so = []"
  shows "map skeleton (so_bins so') = map skeleton (so_bins so)"
    and "so_link_binaries so' = so_link_binaries so"
    and "list_all (load_copied so') (so_loads so')"
    and "\<exists>shoff. so_ehdr so' = (bn_ehdr (main_binary so'))\<lparr>e_entry := e_entry (bn_ehdr (main_binary so')) + load_offset so' 0,
       e_shoff := shoff, e_shnum := ShdrBuilder_CountShdrs (so_shdr so'), e_shstrndx := ShdrBuilder_Shstrndx (so_shdr so'),
       e_phnum := ucast (Sold_CountPhdrs so')\<rparr>"
proof -
  obtain s1 s2 s3 where s1: "rfold id collect_steps so = Inr s1" and s2: "rfold id table_steps s1 = Inr s2"
    and s3: "Sold_BuildDynamic s2 = Inr s3" and s4: "rfold id finish_steps s3 = Inr so'"
    using assms(1) by (auto simp: Sold_prepare_steps front_steps_def rfold_append)
  note u = collect_steps_untouched [OF s1, unfolded untouched_def]
  have t: "so_loads s2 = so_loads s1 \<and> so_link_binaries s2 = so_link_binaries s1 \<and> so_bins s2 = so_bins s1"
    by (rule table_steps_symbols [OF s2]) simp
  have "so_loads s3 = so_loads s2" using BuildDynamic_strings [OF s3] by (auto dest: dyn_strings)
  then have l3: "so_loads s3 = []" using t u assms(2) by simp
  have view: "layout_view so' = layout_view s3" using finish_steps_keep [OF s4] by simp
  then have v: "so_bins so' = so_bins s3" "so_link_binaries so' = so_link_binaries s3" by (simp_all add: layout_view_def)
  show "map skeleton (so_bins so') = map skeleton (so_bins so)" "so_link_binaries so' = so_link_binaries so"
    using v BuildDynamic_fields [OF s3] t u by simp_all
  obtain a b d where f: "so_loads a = so_loads s3" "layout_view a = layout_view s3" "Sold_BuildLoads a = Inr b"
    "so_loads so' = so_loads b" "Sold_BuildEhdr d = Inr so'" by (rule finish_steps_loads [OF s4])
  have "load_copied a = load_copied so'"
    using f(2) view by (simp add: layout_view_def binary_def load_copied_def fun_eq_iff)
  then show "list_all (load_copied so') (so_loads so')" using BuildLoads_loads [OF f(3)] f(1,4) l3 by simp
  obtain shoff where "so' = d\<lparr>so_ehdr := (bn_ehdr (main_binary d))\<lparr>e_entry := e_entry (bn_ehdr (main_binary d)) + load_offset d 0,
       e_shoff := shoff, e_shnum := ShdrBuilder_CountShdrs (so_shdr d), e_shstrndx := ShdrBuilder_Shstrndx (so_shdr d),
       e_phnum := ucast (Sold_CountPhdrs d)\<rparr>\<rparr>"
    using f(5) by (auto simp: Sold_BuildEhdr_def)
  then show "\<exists>shoff. so_ehdr so' = (bn_ehdr (main_binary so'))\<lparr>e_entry := e_entry (bn_ehdr (main_binary so')) + load_offset so' 0,
       e_shoff := shoff, e_shnum := ShdrBuilder_CountShdrs (so_shdr so'), e_shstrndx := ShdrBuilder_Shstrndx (so_shdr so'),
       e_phnum := ucast (Sold_CountPhdrs so')\<rparr>"
    by (auto simp: binary_def load_offset_def Sold_CountPhdrs_def)
qed

section \<open>The program headers\<close>

lemma find_load_Some: "find_load P ps = Some p \<Longrightarrow> P p"
  by (induction ps) (auto split: if_splits)

lemma GetPhdr_type: "ELFBinary_GetPhdr type bn = Inr p \<Longrightarrow> p_type p = type"
  by (auto simp: ELFBinary_GetPhdr_def ELFBinary_FindPhdr_def split: option.splits dest: find_load_Some)

text \<open>The shape of the headers: the segment of the tables, the dynamic section, the exception frames and the stack.\<close>

definition phdrs_shape :: "Sold \<Rightarrow> Elf_Phdr list \<Rightarrow> Elf_Phdr \<Rightarrow> Elf_Phdr \<Rightarrow> Elf_Phdr list \<Rightarrow> Elf_Phdr \<Rightarrow> Elf_Phdr list \<Rightarrow> bool" where
  "phdrs_shape so before header dynamic segments eh after \<longleftrightarrow>
     list_all (\<lambda>p. p_type p \<in> {PT_PHDR, PT_INTERP}) before
     \<and> p_type header = PT_LOAD \<and> p_offset header = 0 \<and> p_vaddr header = 0 \<and> p_memsz header = p_filesz header
     \<and> (\<exists>dyn. Sold_DynamicOffset so = Inr dyn \<and> p_filesz header = AlignNext (dyn + 16 * of_nat (length (so_dynamic so)))
          \<and> p_type dynamic = PT_DYNAMIC \<and> p_offset dynamic = dyn \<and> p_filesz dynamic = 16 * of_nat (length (so_dynamic so)))
     \<and> list_all (\<lambda>p. p_type p \<in> {PT_LOAD, PT_TLS} \<or> p \<in> ld_emit ` set (so_loads so)) segments
     \<and> p_type eh = PT_GNU_EH_FRAME \<and> p_offset eh = so_ehframe_file_offset so
     \<and> p_filesz eh = EHFrameBuilder_Size (so_ehframe_builder so)
     \<and> list_all (\<lambda>p. p_type p = PT_LOAD) after"

lemma output_phdrs_shape:
  assumes "output_phdrs so = Inr phs"
  obtains before header dynamic segments eh after stack where
    "phs = before @ header # dynamic # segments @ eh # after @ [stack]" "p_type stack = PT_GNU_STACK"
    "phdrs_shape so before header dynamic segments eh after"
proof -
  let ?size = "16 * of_nat (length (so_dynamic so)) :: u64" and ?eh_size = "EHFrameBuilder_Size (so_ehframe_builder so)"
  let ?tls = "\<lambda>type flags. segment type flags (so_tls_file_offset so) (so_tls_offset so)
      (tls_filesz (so_tls so)) (tls_memsz (so_tls so))"
  let ?eh = "\<lambda>type flags. segment type flags (so_ehframe_file_offset so) (so_ehframe_offset so) ?eh_size ?eh_size"
  let ?header = "\<lambda>dyn p. p\<lparr>p_offset := 0, p_flags := PF_R OR PF_W, p_vaddr := 0, p_paddr := 0,
      p_filesz := AlignNext (dyn + ?size), p_memsz := AlignNext (dyn + ?size)\<rparr>"
  let ?dynamic = "\<lambda>dyn p. p\<lparr>p_offset := dyn, p_flags := PF_R OR PF_W, p_vaddr := dyn, p_paddr := dyn,
      p_filesz := ?size, p_memsz := ?size\<rparr>"
  from assms obtain before dyn lp yp size flags where
    before: "(if so_is_executable so then
              rbind (ELFBinary_GetPhdr PT_PHDR (main_binary so)) (\<lambda>phdr.
              rbind (ELFBinary_GetPhdr PT_INTERP (main_binary so)) (\<lambda>interp.
              rbind (Sold_StrtabOffset so) (\<lambda>strtab_offset.
              Inr [phdr, interp\<lparr>p_offset := strtab_offset + so_interp_offset so,
                p_vaddr := strtab_offset + so_interp_offset so, p_paddr := strtab_offset + so_interp_offset so\<rparr>])))
            else Inr []) = Inr before"
    and dyn: "Sold_DynamicOffset so = Inr dyn"
    and lp: "ELFBinary_GetPhdr PT_LOAD (main_binary so) = Inr lp"
    and yp: "ELFBinary_GetPhdr PT_DYNAMIC (main_binary so) = Inr yp"
    and phs: "before @ [?header dyn lp, ?dynamic dyn yp] @ map ld_emit (so_loads so)
       @ (if tls_memsz (so_tls so) \<noteq> 0 then [?tls PT_TLS PF_R, ?tls PT_LOAD (PF_R OR PF_W)] else [])
       @ [?eh PT_GNU_EH_FRAME PF_R, ?eh PT_LOAD (PF_R OR PF_W)]
       @ [segment PT_LOAD (PF_R OR PF_X) (so_mprotect_file_offset so) (so_mprotect_offset so) size size]
       @ [(segment PT_GNU_STACK flags 0 0 0 0)\<lparr>p_align := 0x10\<rparr>] = phs"
    unfolding output_phdrs_def Let_def rbind_Inr_iff sum.inject by blast
  let ?segments = "map ld_emit (so_loads so)
       @ (if tls_memsz (so_tls so) \<noteq> 0 then [?tls PT_TLS PF_R, ?tls PT_LOAD (PF_R OR PF_W)] else [])"
  let ?after = "[?eh PT_LOAD (PF_R OR PF_W),
      segment PT_LOAD (PF_R OR PF_X) (so_mprotect_file_offset so) (so_mprotect_offset so) size size]"
  have "list_all (\<lambda>p. p_type p \<in> {PT_PHDR, PT_INTERP}) before"
    using before by (auto split: if_splits dest: GetPhdr_type)
  then have "phdrs_shape so before (?header dyn lp) (?dynamic dyn yp) ?segments (?eh PT_GNU_EH_FRAME PF_R) ?after"
    using GetPhdr_type [OF lp] GetPhdr_type [OF yp] dyn
    by (auto simp: phdrs_shape_def segment_def list_all_iff)
  then show ?thesis
  proof (rule that [rotated 2])
    show "phs = before @ ?header dyn lp # ?dynamic dyn yp # ?segments @ ?eh PT_GNU_EH_FRAME PF_R # ?after
        @ [(segment PT_GNU_STACK flags 0 0 0 0)\<lparr>p_align := 0x10\<rparr>]" using phs by simp
  qed (simp add: segment_def)
qed

section \<open>The reader's two passes over the program headers\<close>

definition with_phdrs :: "Elf_Phdr list \<Rightarrow> ELFBinary \<Rightarrow> ELFBinary" where
  "with_phdrs ps bn = bn\<lparr>bn_phdrs := bn_phdrs bn @ ps, bn_loads := bn_loads bn @ filter (\<lambda>p. p_type p = PT_LOAD) ps,
     bn_tls := (if last_of_type PT_TLS ps = None then bn_tls bn else last_of_type PT_TLS ps)\<rparr>"

lemma last_of_type_Cons:
  "last_of_type t (p # ps) = (if last_of_type t ps = None \<and> p_type p = t then Some p else last_of_type t ps)"
  by (simp add: last_of_type_def Let_def)

lemma collect_phdrs:
  assumes "\<And>i. i < length ps \<Longrightarrow>
      read_struct dec_Elf_Phdr 56 (bn_head bn) (e_phoff (bn_ehdr bn) + of_nat (unat (e_phentsize (bn_ehdr bn)) * i)) = Inr (ps ! i)"
  shows "rfold ParsePhdrs_collect [0..<length ps] bn = Inr (with_phdrs ps bn)"
proof -
  let ?add = "\<lambda>p b. let b = b\<lparr>bn_phdrs := bn_phdrs b @ [p]\<rparr>
      in Inr (if p_type p = PT_LOAD then b\<lparr>bn_loads := bn_loads b @ [p]\<rparr>
              else if p_type p = PT_TLS then b\<lparr>bn_tls := Some p\<rparr> else b) :: ELFBinary res"
  have "ParsePhdrs_collect = (\<lambda>i b. rbind (read_phdr b i) (\<lambda>p. ?add p b))"
    by (intro ext) (simp add: ParsePhdrs_collect_def)
  moreover have "rfold (\<lambda>i b. rbind (read_phdr b i) (\<lambda>p. ?add p b)) [0..<length ps] bn = rfold ?add ps bn"
  proof (rule rfold_reads [where P = "\<lambda>b. bn_head b = bn_head bn \<and> bn_ehdr b = bn_ehdr bn"])
    show "read_phdr b i = Inr (ps ! i)" if "i < length ps" "bn_head b = bn_head bn \<and> bn_ehdr b = bn_ehdr bn" for i b
      using assms [OF that(1)] that(2) by (simp add: read_phdr_def)
  qed (auto simp: Let_def)
  moreover have "rfold ?add ps b = Inr (with_phdrs ps b)" for b
  proof (induction ps arbitrary: b)
    case Nil
    then show ?case by (simp add: with_phdrs_def last_of_type_def)
  next
    case (Cons p ps)
    obtain c where c: "?add p b = Inr c" by (simp add: Let_def)
    then have "with_phdrs ps c = with_phdrs (p # ps) b"
      by (auto simp: Let_def with_phdrs_def last_of_type_Cons)
    then show ?case using Cons.IH [of c] c by simp
  qed
  ultimately show ?thesis by simp
qed

definition ignored :: "Elf_Phdr \<Rightarrow> bool" where
  "ignored p \<longleftrightarrow> p_type p \<notin> {PT_DYNAMIC, PT_GNU_EH_FRAME, PT_GNU_STACK, PT_GNU_RELRO}"

lemma dispatch_ignored: "list_all ignored ps \<Longrightarrow> rfold (ParsePhdrs_dispatch hd_addr) ps bn = Inr bn"
  by (induction ps) (simp_all add: ignored_def ParsePhdrs_dispatch_def)

lemma dispatch_shape:
  assumes "phdrs_shape so before header dynamic segments eh after" and "p_type stack = PT_GNU_STACK"
    and "\<forall>l \<in> set (so_loads so). p_type (ld_emit l) = PT_LOAD"
  shows "rfold (ParsePhdrs_dispatch hd_addr) (before @ header # dynamic # segments @ eh # after @ [stack]) bn
    = rbind (ELFBinary_ParseDynamic (p_offset dynamic) (p_filesz dynamic) bn) (\<lambda>bn.
      rbind (ELFBinary_ParseEHFrameHeader hd_addr (p_offset eh) (p_filesz eh) bn) (\<lambda>bn.
      Inr (bn\<lparr>bn_gnu_stack := Some stack\<rparr>)))"
proof -
  let ?D = "ParsePhdrs_dispatch hd_addr"
  have ign: "list_all ignored before" "list_all ignored [header]" "list_all ignored segments" "list_all ignored after"
    and dy: "p_type dynamic = PT_DYNAMIC" "p_type eh = PT_GNU_EH_FRAME"
    using assms(1,3) by (auto simp: phdrs_shape_def ignored_def list_all_iff)
  have skip: "rfold ?D (ps @ qs) = rfold ?D qs" if "list_all ignored ps" for ps qs
    by (intro ext) (simp add: rfold_append dispatch_ignored [OF that])
  have "rfold ?D (after @ [stack]) = (\<lambda>bn. Inr (bn\<lparr>bn_gnu_stack := Some stack\<rparr>))"
    unfolding skip [OF ign(4)] using assms(2) by (intro ext) (simp add: ParsePhdrs_dispatch_def)
  moreover have "rfold ?D (header # qs) = rfold ?D qs" for qs using skip [OF ign(2), of qs] by simp
  ultimately show ?thesis
    unfolding skip [OF ign(1)] by (simp add: skip [OF ign(3)] ParsePhdrs_dispatch_def dy cong: rbind_cong)
qed

lemma ParseEHFrameHeader_only:
  "ELFBinary_ParseEHFrameHeader hd_addr off sz bn = Inr bn' \<Longrightarrow> \<exists>h. bn' = bn\<lparr>bn_eh_frame_header := h\<rparr>"
  unfolding ELFBinary_ParseEHFrameHeader_def Let_def by (simp only: rbind_Inr_iff sum.inject) blast

section \<open>The reader on an output\<close>

lemma dynamic_read_fields:
  "bn_init_array_offset (dynamic_read so bn) = Some (Sold_InitArrayOffset so)"
  "bn_fini_array_offset (dynamic_read so bn) = Some (Sold_FiniArrayOffset so)"
  "bn_loads (dynamic_read so bn) = bn_loads bn" "bn_phdrs (dynamic_read so bn) = bn_phdrs bn"
  "bn_tls (dynamic_read so bn) = bn_tls bn" "bn_ehdr (dynamic_read so bn) = bn_ehdr bn"
  "bn_head (dynamic_read so bn) = bn_head bn"
  by (simp_all add: dynamic_read_def layout_read_def addresses_read_def names_read_def Let_def)

lemma shape_loads:
  assumes "phdrs_shape so before header dynamic segments eh after"
  shows "\<exists>ls. filter (\<lambda>p. p_type p = PT_LOAD) (before @ header # rest) = header # ls"
proof -
  have "filter (\<lambda>p. p_type p = PT_LOAD) before = []" "p_type header = PT_LOAD"
    using assms by (auto simp: phdrs_shape_def list_all_iff filter_empty_conv)
  then show ?thesis by simp
qed

lemma head_mapped_loads:
  "head_mapped k bn \<Longrightarrow> bn_loads b = bn_loads bn \<Longrightarrow> head_mapped k b"
  by (simp add: head_mapped_def)

lemma ParsePhdrs_output:
  assumes out: "output_of so phs ns es front" and img: "prefix front (bn_head bn)" and ehdr: "bn_ehdr bn = so_ehdr so"
    and hdr: "e_phoff (so_ehdr so) = 64" "e_phentsize (so_ehdr so) = 56" "unat (e_phnum (so_ehdr so)) = length phs"
    and bn: "bn_loads bn = []" "bn_phdrs bn = []"
    and loads: "\<forall>l \<in> set (so_loads so). p_type (ld_emit l) = PT_LOAD"
    and nul: "\<forall>e \<in> set (string_entries so). no_nul (snd e)"
  shows "ELFBinary_ParsePhdrs hd_addr bn =
     rbind (ELFBinary_ParseEHFrameHeader hd_addr (so_ehframe_file_offset so) (EHFrameBuilder_Size (so_ehframe_builder so))
        (dynamic_read so (with_phdrs phs bn))) (\<lambda>b.
     Inr (b\<lparr>bn_gnu_stack := Some (last phs), bn_init_array_addr := Sold_InitArrayOffset so,
       bn_fini_array_addr := Sold_FiniArrayOffset so\<rparr>))"
proof -
  from out have phsq: "output_phdrs so = Inr phs" and len: "length front < 2 ^ 32"
    and tabls: "list_all (\<lambda>(off, bs). at_offset front off bs) (output_tables so phs)"
    unfolding output_of_def by blast+
  from tabls have "at_offset front (Inr 64) (concat (map enc_Elf_Phdr phs))" by (simp add: output_tables_def)
  then have "read_struct dec_Elf_Phdr 56 (bn_head bn) (64 + of_nat (56 * i)) = Inr (phs ! i)" if "i < length phs" for i
    using phdr.read_at_offset [of front 64 phs "bn_head bn" i] img len that by simp
  then have collect: "rfold ParsePhdrs_collect [0..<length phs] bn = Inr (with_phdrs phs bn)"
    by (intro collect_phdrs) (simp add: ehdr hdr)
  obtain before header dynamic segments eh after stack where
    split: "phs = before @ header # dynamic # segments @ eh # after @ [stack]" and stack: "p_type stack = PT_GNU_STACK"
    and shape: "phdrs_shape so before header dynamic segments eh after"
    by (rule output_phdrs_shape [OF phsq])
  then obtain dyn where dyn: "Sold_DynamicOffset so = Inr dyn" "p_offset dynamic = dyn"
    "p_filesz dynamic = 16 * of_nat (length (so_dynamic so))"
    "p_filesz header = AlignNext (dyn + 16 * of_nat (length (so_dynamic so)))" "p_memsz header = p_filesz header"
    "p_vaddr header = 0" "p_offset header = 0"
    and eh: "p_offset eh = so_ehframe_file_offset so" "p_filesz eh = EHFrameBuilder_Size (so_ehframe_builder so)"
    unfolding phdrs_shape_def by blast
  let ?k = "unat (p_filesz header)"
  obtain n f g sy v w r t d where num: "Sold_InitArrayOffset so = of_nat n" "Sold_FiniArrayOffset so = of_nat f"
    and d: "dyn = of_nat d" and order: "sorted [n, f, g, sy, v, w, r, t, d]"
    and bound: "d + 16 * length (so_dynamic so) < 2 ^ 31 + 8" and ne: "so_dynamic so \<noteq> []"
    by (rule output_numbers [OF out dyn(1)]) blast
  have "dyn + 16 * of_nat (length (so_dynamic so)) = of_nat (d + 16 * length (so_dynamic so))" by (simp add: d)
  moreover have "unat (of_nat (d + 16 * length (so_dynamic so)) :: u64) = d + 16 * length (so_dynamic so)"
    using bound by (simp add: unat_of_nat take_bit_nat_eq_self del: of_nat_add of_nat_mult)
  ultimately have k: "d + 16 * length (so_dynamic so) \<le> ?k"
    using bound page_up_ge [of "d + 16 * length (so_dynamic so)"] by (simp add: dyn(4) unat_AlignNext del: of_nat_add)
  have num': "unat (of_nat x :: u64) = x" if "x \<le> d" for x
    using that bound by (simp add: unat_of_nat take_bit_nat_eq_self)
  let ?bn = "with_phdrs phs bn"
  obtain ls where "filter (\<lambda>p. p_type p = PT_LOAD) phs = header # ls"
    using shape_loads [OF shape] unfolding split by blast
  then have mapped: "head_mapped ?k ?bn" using dyn(5-7) bn by (simp add: head_mapped_def with_phdrs_def)
  have parse: "ELFBinary_ParseDynamic dyn (16 * of_nat (length (so_dynamic so))) ?bn = Inr (dynamic_read so ?bn)"
    by (rule ParseDynamic_output [OF out _ dyn(1) mapped _ nul]) (use img k num' [of d] d in \<open>simp_all add: with_phdrs_def\<close>)
  have small: "unat (Sold_InitArrayOffset so) < ?k" "unat (Sold_FiniArrayOffset so) < ?k"
    using num num' [of n] num' [of f] order k ne by (cases "so_dynamic so"; simp)+
  have addr: "ELFBinary_AddrFromOffset (Sold_InitArrayOffset so) b = Inr (Sold_InitArrayOffset so)"
    "ELFBinary_AddrFromOffset (Sold_FiniArrayOffset so) b = Inr (Sold_FiniArrayOffset so)"
    if "bn_loads b = bn_loads ?bn" for b
    using head_mapped_address(2) [OF head_mapped_loads [OF mapped that]] small by simp_all
  have dispatch: "rfold (ParsePhdrs_dispatch hd_addr) phs ?bn
    = rbind (ELFBinary_ParseEHFrameHeader hd_addr (p_offset eh) (p_filesz eh) (dynamic_read so ?bn)) (\<lambda>b.
      Inr (b\<lparr>bn_gnu_stack := Some stack\<rparr>))"
    unfolding split dispatch_shape [OF shape stack loads] unfolding split [symmetric] by (simp add: dyn(2,3) parse)
  have ph: "bn_phdrs ?bn = phs" "phs \<noteq> []" "last phs = stack" using bn by (simp_all add: with_phdrs_def split)
  show ?thesis
  proof (cases "ELFBinary_ParseEHFrameHeader hd_addr (p_offset eh) (p_filesz eh) (dynamic_read so ?bn)")
    case (Inl e)
    then show ?thesis by (simp add: ELFBinary_ParsePhdrs_def ehdr hdr collect ph(1) dispatch eh)
  next
    case (Inr b)
    then obtain h where b: "b = (dynamic_read so ?bn)\<lparr>bn_eh_frame_header := h\<rparr>" using ParseEHFrameHeader_only by blast
    show ?thesis
      using Inr ph
      by (simp add: ELFBinary_ParsePhdrs_def ehdr hdr collect dispatch eh b dynamic_read_fields addr CHECK_def)
  qed
qed

section \<open>Objects the reader accepts\<close>

text \<open>The first six bytes of the file: the magic number, 64 bits, little endian.\<close>

definition elf_magic :: "Elf_Ehdr \<Rightarrow> bool" where
  "elf_magic h \<longleftrightarrow> take 6 (enc_Elf_Ehdr h) = [0x7f, 0x45, 0x4c, 0x46, 2, 1]"

definition linkable :: "Sold \<Rightarrow> bool" where
  "linkable so \<longleftrightarrow> so_loads so = [] \<and> so_bins so \<noteq> []
     \<and> list_all (\<lambda>bn. elf_wf bn \<and> elf_magic (bn_ehdr bn)) (so_bins so)
     \<and> list_all (\<lambda>b. b < length (so_bins so)) (so_link_binaries so)"

lemma elf_magic_ident: "e_ident h' = e_ident h \<Longrightarrow> elf_magic h' = elf_magic h"
  by (simp add: elf_magic_def enc_Elf_Ehdr_def)

lemma ReadELF_new:
  assumes "fs f = Some fp" and "64 \<le> length fp" and "length fp < 2 ^ 31" and "take 64 fp = enc_Elf_Ehdr h" and "elf_magic h"
    and "e_type h = ET_DYN"
  obtains head ms where "prefix fp head" "ReadELF hd_addr fs f = rbind (ELFBinary_ParsePhdrs hd_addr
      ((ELFBinary_init f head ms (of_nat (length fp)) h)\<lparr>bn_name := basename f\<rparr>)) (\<lambda>bn. Inr (Some bn))"
proof -
  define ms where "ms = ((of_nat (length fp) :: u64) + 0xfff) AND NOT 0xfff"
  define head where "head = fp @ replicate (unat ms - length fp) 0"
  have pre: "prefix fp head" by (simp add: head_def)
  have six: "take 6 head = [0x7f, 0x45, 0x4c, 0x46, 2, 1]"
  proof -
    have "take 6 head = take 6 (take 64 fp)" using assms(2) by (simp add: head_def)
    then show ?thesis using assms(4,5) by (simp add: elf_magic_def)
  qed
  have "take 4 head = take 4 (take 6 head)" "head ! 4 = take 6 head ! 4" "head ! 5 = take 6 head ! 5" by simp_all
  then have magic: "ELFBinary_IsELF head" "head ! 4 = 2" "head ! 5 = 1"
    unfolding ELFBinary_IsELF_def six by simp_all
  have "read_struct dec_Elf_Ehdr 64 (fp @ drop (length fp) head) 0 = Inr h"
    using ehdr.read_one [of 0 "[]" h "drop 64 fp @ drop (length fp) head"] assms(4)
    by (metis append_Nil append_assoc append_take_drop_id list.size(3) unat_0)
  then have hd: "read_struct dec_Elf_Ehdr 64 head 0 = Inr h" by (simp add: head_def)
  have size: "\<not> (of_nat (length fp) :: u64) < 8 + 16"
    using assms(2,3) by (simp add: word_less_nat_alt unat_of_nat take_bit_nat_eq_self)
  have "ReadELF hd_addr fs f = rbind (ELFBinary_new hd_addr f head ms (of_nat (length fp))) (\<lambda>bn. Inr (Some bn))"
    unfolding ReadELF_def assms(1) option.case Let_def ms_def [symmetric] head_def [symmetric]
    using size magic by simp
  also have "ELFBinary_new hd_addr f head ms (of_nat (length fp)) = ELFBinary_ParsePhdrs hd_addr
      ((ELFBinary_init f head ms (of_nat (length fp)) h)\<lparr>bn_name := basename f\<rparr>)"
    using hd magic assms(6) by (simp add: ELFBinary_new_def CHECK_def)
  finally show ?thesis using that pre by blast
qed

lemma linked_loads_type:
  assumes "linkable so" and "Sold_prepare so = Inr so'"
  shows "\<forall>l \<in> set (so_loads so'). p_type (ld_emit l) = PT_LOAD"
proof
  fix l assume "l \<in> set (so_loads so')"
  have lk: "so_loads so = []" "list_all (\<lambda>bn. elf_wf bn \<and> elf_magic (bn_ehdr bn)) (so_bins so)"
    "list_all (\<lambda>b. b < length (so_bins so)) (so_link_binaries so)"
    using assms(1) by (simp_all add: linkable_def)
  note p = prepare_headers [OF assms(2) lk(1)]
  from p(3) \<open>l \<in> set (so_loads so')\<close> obtain b where b: "b \<in> set (so_link_binaries so)" "ld_orig l \<in> set (bn_loads (so_bins so' ! b))"
    "p_type (ld_emit l) = p_type (ld_orig l)"
    using p(2) by (auto simp: list_all_iff load_copied_def binary_def)
  have len: "b < length (so_bins so)" using b(1) lk(3) by (simp add: list_all_iff)
  moreover have "length (so_bins so') = length (so_bins so)" using p(1) by (metis length_map)
  ultimately have "skeleton (so_bins so' ! b) = skeleton (so_bins so ! b)" using p(1) by (metis nth_map)
  then have "bn_loads (so_bins so' ! b) = bn_loads (so_bins so ! b)" by (rule skeleton_fields)
  moreover have "elf_wf (so_bins so ! b)" using lk(2) len by (simp add: list_all_length)
  then have "\<forall>p \<in> set (bn_loads (so_bins so ! b)). p_type p = PT_LOAD" by (simp add: elf_wf_def segments_wf_def)
  ultimately show "p_type (ld_emit l) = PT_LOAD" using b(2,3) by simp
qed

section \<open>The whole file\<close>

text \<open>What an object read from the output says of the output.\<close>

definition output_object :: "Sold \<Rightarrow> Elf_Phdr list \<Rightarrow> ELFBinary \<Rightarrow> bool" where
  "output_object so phs bn \<longleftrightarrow> bn_ehdr bn = so_ehdr so
     \<and> bn_phdrs bn = phs \<and> bn_loads bn = filter (\<lambda>p. p_type p = PT_LOAD) phs \<and> bn_tls bn = last_of_type PT_TLS phs
     \<and> bn_neededs bn = dynamic_neededs so \<and> bn_soname bn = bn_soname (main_binary so)
     \<and> bn_rpath bn = bn_rpath (main_binary so) \<and> bn_runpath bn = bn_runpath (main_binary so)
     \<and> (\<exists>off. Sold_StrtabOffset so = Inr off \<and> bn_strtab bn = Some off)
     \<and> (\<exists>off. Sold_SymtabOffset so = Inr off \<and> bn_symtab bn = Some off)
     \<and> (\<exists>off. Sold_RelOffset so = Inr off \<and> bn_rel bn = Some off) \<and> bn_num_rels bn = of_nat (length (so_rels so))
     \<and> bn_gnu_hash bn = Some (Sold_GnuHashOffset so)
     \<and> (0 < VersionBuilder_NumVerneed (so_version so) \<longrightarrow>
          (\<exists>off. Sold_VersymOffset so = Inr off \<and> bn_versym bn = Some off)
          \<and> (\<exists>off. Sold_VerneedOffset so = Inr off \<and> bn_verneed bn = Some off)
          \<and> bn_verneednum bn = of_nat (VersionBuilder_NumVerneed (so_version so)))
     \<and> (VersionBuilder_NumVerneed (so_version so) = 0 \<longrightarrow> bn_versym bn = None) \<and> bn_verdef bn = None
     \<and> bn_num_plt_rels bn = 0 \<and> no_symbols bn
     \<and> bn_init bn = (if bn_init (main_binary so) = 0 then 0 else bn_init (main_binary so) + load_offset so 0)
     \<and> bn_fini bn = (if bn_fini (main_binary so) = 0 then 0 else bn_fini (main_binary so) + load_offset so 0)
     \<and> bn_init_array bn = so_init_array so \<and> bn_fini_array bn = so_fini_array so"

lemma output_object_read:
  assumes out: "output_of so phs ns es front" and dyn: "Sold_DynamicOffset so = Inr dyn"
  shows "output_object so phs
     (dynamic_read so (with_phdrs phs ((ELFBinary_init f head ms sz (so_ehdr so))\<lparr>bn_name := name\<rparr>)))"
proof -
  obtain sy v w r t where offs: "Sold_SymtabOffset so = Inr sy" "Sold_VersymOffset so = Inr v" "Sold_VerneedOffset so = Inr w"
    "Sold_RelOffset so = Inr r" "Sold_StrtabOffset so = Inr t"
    by (rule output_numbers [OF out dyn])
  have "total_size (output_tables so phs) < 2 ^ 31" using out by (simp add: output_of_def)
  then have "24 * length (so_rels so) < 2 ^ 31"
    by (simp add: total_size_output_tables table_stages_def length_encodings del: length_concat)
  then have "(of_nat (length (so_rels so)) * 24 div 24 :: u64) = of_nat (length (so_rels so))"
    by (simp add: word_unat_eq_iff unat_div unat_word_ariths unat_of_nat take_bit_nat_eq_self)
  then show ?thesis
    by (simp add: output_object_def dynamic_read_def layout_read_def addresses_read_def names_read_def with_phdrs_def Let_def
        ELFBinary_init_def offs no_symbols_def)
qed

lemma Link_reread_object:
  assumes "fresh so" and "linkable so" and "Sold_Link malloc so = Inr (so', fp)" and "length fp < 2 ^ 31"
    and "e_phoff (bn_ehdr (main_binary so)) = 64" and "e_phentsize (bn_ehdr (main_binary so)) = 56"
    and "Sold_CountPhdrs so' < 2 ^ 16" and nul: "\<forall>e \<in> set (string_entries so'). no_nul (snd e)" and "fs f = Some fp"
  shows "\<exists>phs bn. output_phdrs so' = Inr phs \<and> prefix fp (bn_head bn) \<and> output_object so' phs bn
    \<and> ReadELF hd_addr fs f =
        rbind (ELFBinary_ParseEHFrameHeader hd_addr (so_ehframe_file_offset so') (EHFrameBuilder_Size (so_ehframe_builder so')) bn)
          (\<lambda>bn. Inr (Some (bn\<lparr>bn_gnu_stack := Some (last phs), bn_init_array_addr := Sold_InitArrayOffset so',
            bn_fini_array_addr := Sold_FiniArrayOffset so'\<rparr>)))"
proof -
  have prep: "Sold_prepare so = Inr so'" using assms(3) by (auto simp: Sold_Link_def)
  have lk: "so_loads so = []" "so_bins so \<noteq> []" "list_all (\<lambda>bn. elf_wf bn \<and> elf_magic (bn_ehdr bn)) (so_bins so)"
    using assms(2) by (simp_all add: linkable_def)
  note p = prepare_headers [OF prep lk(1)]
  obtain phs ns es front where out: "output_of so' phs ns es front" and front: "prefix front fp"
    by (rule Link_output_of [OF assms(1,3,4)])
  have main: "elf_wf (main_binary so)" "elf_magic (bn_ehdr (main_binary so))"
    using lk(2,3) by (simp_all add: binary_def list_all_length)
  have "skeleton (main_binary so') = skeleton (main_binary so)"
    using p(1) lk(2) unfolding binary_def by (metis length_greater_0_conv length_map nth_map)
  then have ehdr: "bn_ehdr (main_binary so') = bn_ehdr (main_binary so)" by (rule skeleton_fields)
  have cnt: "of_nat (length phs) = Sold_CountPhdrs so'" and phsq: "output_phdrs so' = Inr phs"
    and small: "total_size (output_tables so' phs) < 2 ^ 31"
    and tabls: "list_all (\<lambda>(off, bs). at_offset front off bs) (output_tables so' phs)"
    using out unfolding output_of_def by blast+
  have "length phs < 2 ^ 32" using small by (simp add: total_size_output_tables del: length_concat)
  then have len: "unat (Sold_CountPhdrs so') = length phs"
    unfolding cnt [symmetric] by (simp add: unat_of_nat take_bit_nat_eq_self)
  have "length phs < 2 ^ 16" using assms(7) len by (simp add: word_less_nat_alt)
  then have num: "unat (ucast (Sold_CountPhdrs so') :: u16) = length phs"
    by (simp add: unsigned_ucast_eq unsigned_take_bit_eq len take_bit_nat_eq_self)
  obtain shoff where eh: "so_ehdr so' = (bn_ehdr (main_binary so'))\<lparr>e_entry := e_entry (bn_ehdr (main_binary so')) + load_offset so' 0,
       e_shoff := shoff, e_shnum := ShdrBuilder_CountShdrs (so_shdr so'), e_shstrndx := ShdrBuilder_Shstrndx (so_shdr so'),
       e_phnum := ucast (Sold_CountPhdrs so')\<rparr>" using p(4) by blast
  then have hdr: "e_phoff (so_ehdr so') = 64" "e_phentsize (so_ehdr so') = 56" "unat (e_phnum (so_ehdr so')) = length phs"
    and ident: "elf_magic (so_ehdr so')" and type: "e_type (so_ehdr so') = ET_DYN"
    using assms(5,6) num main elf_magic_ident [of "so_ehdr so'" "bn_ehdr (main_binary so)"] by (simp_all add: ehdr elf_wf_def)
  have at0: "at_offset front (Inr 0) (enc_Elf_Ehdr (so_ehdr so'))" using tabls by (simp add: output_tables_def)
  then have "take 64 front = enc_Elf_Ehdr (so_ehdr so')" "64 \<le> length front"
    by (simp_all add: at_offset_def ehdr.enc_length)
  with front have first: "take 64 fp = enc_Elf_Ehdr (so_ehdr so')" "64 \<le> length fp" by (auto simp: prefix_def)
  obtain head ms where head: "prefix fp head" and read: "ReadELF hd_addr fs f = rbind (ELFBinary_ParsePhdrs hd_addr
      ((ELFBinary_init f head ms (of_nat (length fp)) (so_ehdr so'))\<lparr>bn_name := basename f\<rparr>)) (\<lambda>bn. Inr (Some bn))"
    by (rule ReadELF_new [where fs = fs and f = f, OF assms(9) first(2) assms(4) first(1) ident type])
  let ?bn = "(ELFBinary_init f head ms (of_nat (length fp)) (so_ehdr so'))\<lparr>bn_name := basename f\<rparr>"
  let ?obj = "dynamic_read so' (with_phdrs phs ?bn)"
  have "prefix front head" using front head by (rule prefix_order.trans)
  then have parse: "ELFBinary_ParsePhdrs hd_addr ?bn =
     rbind (ELFBinary_ParseEHFrameHeader hd_addr (so_ehframe_file_offset so') (EHFrameBuilder_Size (so_ehframe_builder so')) ?obj)
       (\<lambda>b. Inr (b\<lparr>bn_gnu_stack := Some (last phs), bn_init_array_addr := Sold_InitArrayOffset so',
       bn_fini_array_addr := Sold_FiniArrayOffset so'\<rparr>))"
    using linked_loads_type [OF assms(2) prep] nul hdr
    by (intro ParsePhdrs_output [OF out]) (simp_all add: ELFBinary_init_def)
  have "\<exists>dyn. Sold_DynamicOffset so' = Inr dyn"
    by (rule output_phdrs_shape [OF phsq]) (auto simp: phdrs_shape_def)
  then have "output_object so' phs ?obj" using output_object_read [OF out] by blast
  moreover have "prefix fp (bn_head ?obj)" using head by (simp add: dynamic_read_fields with_phdrs_def ELFBinary_init_def)
  ultimately show ?thesis using phsq unfolding read parse by (auto simp: rbind_assoc)
qed

section \<open>What the constructor leaves\<close>

lemma ParsePhdrs_ehdr:
  assumes "ELFBinary_ParsePhdrs hd_addr bn = Inr bn'" and "segments_wf bn"
  shows "bn_ehdr bn' = bn_ehdr bn"
proof -
  obtain bn1 bn2 bn3 where
    first: "rfold ParsePhdrs_collect [0..<unat (e_phnum (bn_ehdr bn))] bn = Inr bn1"
    and second: "rfold (ParsePhdrs_dispatch hd_addr) (bn_phdrs bn1) bn1 = Inr bn2"
    and init: "(case bn_init_array_offset bn2 of None \<Rightarrow> Inr bn2
      | Some off \<Rightarrow> rbind (ELFBinary_AddrFromOffset off bn2) (\<lambda>a. Inr (bn2\<lparr>bn_init_array_addr := a\<rparr>))) = Inr bn3"
    and fini: "(case bn_fini_array_offset bn3 of None \<Rightarrow> Inr bn3
      | Some off \<Rightarrow> rbind (ELFBinary_AddrFromOffset off bn3) (\<lambda>a. Inr (bn3\<lparr>bn_fini_array_addr := a\<rparr>))) = Inr bn'"
    using assms(1) unfolding ELFBinary_ParsePhdrs_def rbind_Inr_iff by auto
  have "bn_ehdr bn1 = bn_ehdr bn" using ParsePhdrs_collect_all [OF first assms(2)] by simp
  moreover have "passes bn1 bn2" by (rule passes_rfold [OF second]) (rule ParsePhdrs_dispatch_passes)
  ultimately show ?thesis
    using init fini by (auto simp: passes_def same_segments_def split: option.splits)
qed

lemma ReadELF_magic:
  assumes "ReadELF hd_addr fs f = Inr (Some bn)"
  shows "elf_magic (bn_ehdr bn)"
proof -
  obtain c where c: "fs f = Some c" using assms by (auto simp: ReadELF_def split: option.splits)
  define sz where "sz = (of_nat (length c) :: u64)"
  define ms where "ms = (sz + 0xfff) AND NOT 0xfff"
  define head where "head = c @ replicate (unat ms - length c) 0"
  have "ELFBinary_IsELF head" "head ! 4 = 2" and new: "ELFBinary_new hd_addr f head ms sz = Inr bn"
    using assms unfolding ReadELF_def c option.case Let_def sz_def [symmetric] ms_def [symmetric] head_def [symmetric]
    by (auto split: if_splits)
  then have magic: "take 4 head = [0x7f, 0x45, 0x4c, 0x46]" "head ! 4 = 2" by (simp_all add: ELFBinary_IsELF_def)
  obtain h where h: "read_struct dec_Elf_Ehdr 64 head 0 = Inr h" and five: "head ! 5 = 1"
    and parse: "ELFBinary_ParsePhdrs hd_addr ((ELFBinary_init f head ms sz h)\<lparr>bn_name := basename f\<rparr>) = Inr bn"
    using new by (auto simp: ELFBinary_new_def CHECK_def split: if_splits)
  have len: "64 \<le> length head" and dec: "h = dec_Elf_Ehdr (take 64 head)"
    using h by (auto simp: read_struct_def read_bytes_def split: if_splits)
  then have enc: "enc_Elf_Ehdr h = take 64 head" by (simp add: ehdr.enc_dec)
  have "bn_ehdr bn = h"
    using ParsePhdrs_ehdr [OF parse] by (simp add: ELFBinary_init_def segments_wf_def last_of_type_def)
  moreover have "take 6 head = take 4 head @ [head ! 4, head ! 5]"
    using len take_Suc_conv_app_nth [of 4 head] take_Suc_conv_app_nth [of 5 head] by simp
  ultimately show ?thesis using magic five enc by (simp add: elf_magic_def)
qed

lemma find_library_reads:
  "find_library w needed paths = Inr (Some l) \<Longrightarrow> \<exists>hd_addr f. ReadELF hd_addr (w_files w) f = Inr (Some l)"
  by (induction w needed paths rule: find_library.induct) (auto simp: Let_def split: if_splits)

lemma resolve_needed_bins:
  assumes "resolve_needed w paths needed st = Inr st'"
  shows "so_bins (snd (snd st')) = so_bins (snd (snd st))
    \<or> (\<exists>hd_addr f l. ReadELF hd_addr (w_files w) f = Inr (Some l) \<and> so_bins (snd (snd st')) = so_bins (snd (snd st)) @ [l])"
proof -
  obtain queue buf so where st: "st = (queue, buf, so)" by (cases st)
  show ?thesis
  proof (cases "map_of (so_libraries so) needed")
    case (Some i)
    with assms show ?thesis by (simp add: st resolve_needed_def)
  next
    case None
    with assms obtain l where l: "find_library w needed paths = Inr (Some l)" "bn_name l \<noteq> []" "bn_soname l \<noteq> []"
      unfolding st resolve_needed_def by (auto split: option.splits if_splits)
    then have "so_bins (snd (snd st')) = so_bins so @ [l]"
      using None assms by (auto simp: st resolve_needed_def Let_def)
    then show ?thesis using find_library_reads [OF l(1)] by (auto simp: st)
  qed
qed

lemma linked_indices:
  assumes "ResolveLibraryPaths fuel w so = Some (Inr so')" and "so_bins so = [main]" and "so_libraries so = []"
  shows "so_bins so' \<noteq> [] \<and> list_all (\<lambda>b. b < length (so_bins so')) (so_link_binaries so')"
proof -
  let ?st = "([0], [([], 0)], so)"
  from assms(1) obtain queue buf so1 where loop: "bfs_loop fuel w ?st = Some (Inr (queue, buf, so1))"
    and so': "so' = so1\<lparr>so_link_binaries := TopologicalSort (\<lambda>b. bn_neededs (so_bins so1 ! b)) buf\<rparr>"
    by (auto simp: ResolveLibraryPaths_def)
  have "search_inv {} ?st"
    using assms(2,3) by (auto simp: search_inv_def libraries_ok_def linked_libraries_def)
  then have "search_inv {} (queue, buf, so1)" using bfs_loop_inv [OF loop] by blast
  then have ok: "libraries_ok so1" and buf: "set buf = insert ([], 0) (linked_libraries so1)" by (simp_all add: search_inv_def)
  have ne: "so_bins so1 \<noteq> []" using ok by (simp add: libraries_ok_def)
  have "i < length (so_bins so1)" if "(n, i) \<in> set buf" for n i
    using that ok ne unfolding buf linked_libraries_def libraries_ok_def by blast
  moreover have "mset (so_link_binaries so') = mset (map snd buf)" by (simp add: so' TopologicalSort_mset)
  then have "set (so_link_binaries so') = snd ` set buf" by (metis set_map set_mset_mset)
  moreover have "so_bins so' = so_bins so1" by (simp add: so')
  ultimately show ?thesis using ne by (auto simp: list_all_iff)
qed

lemma Sold_new_linkable:
  assumes "Sold_new fuel w sc input exclude_sos exclude_finis paths with_shdr = Some (Inr so)"
  shows "linkable so"
proof -
  let ?good = "\<lambda>bn. elf_wf bn \<and> elf_magic (bn_ehdr bn)"
  obtain bn s2 s3 where main: "ReadELF (w_mmap w input) (w_files w) input = Inr (Some bn)"
    and s2: "so_bins s2 = [bn]" "so_libraries s2 = []"
    and s3: "ResolveLibraryPaths fuel w s2 = Some (Inr s3)"
    and so: "so = s3\<lparr>so_version := VersionBuilder_SetSonameToFilename (so_soname_to_filename s3) (so_version s3)\<rparr>"
    by (rule Sold_new_search [OF assms])
  obtain queue buf s where loop: "bfs_loop fuel w ([0], [([], 0)], s2) = Some (Inr (queue, buf, s))"
    and bins: "so_bins s3 = so_bins s"
    using s3 by (auto simp: ResolveLibraryPaths_def)
  have "list_all ?good (so_bins (snd (snd (queue, buf, s))))"
  proof (rule bfs_loop_keeps [OF loop])
    show "list_all ?good (so_bins (snd (snd ([0 :: nat], [([] :: string, 0 :: nat)], s2))))"
      using ReadELF_elf_wf [OF main] ReadELF_magic [OF main] by (simp add: s2)
    show "list_all ?good (so_bins (snd (snd t)))"
      if "resolve_needed w ps n r = Inr t" "list_all ?good (so_bins (snd (snd r)))" for ps n r t
      using resolve_needed_bins [OF that(1)] that(2) ReadELF_elf_wf ReadELF_magic by force
  qed
  then have "list_all ?good (so_bins so)" by (simp add: so bins)
  moreover have "so_bins so \<noteq> [] \<and> list_all (\<lambda>b. b < length (so_bins so)) (so_link_binaries so)"
    using linked_indices [OF s3 s2] by (simp add: so)
  ultimately show ?thesis using Sold_new_fresh(2) [OF assms] by (simp add: linkable_def)
qed

text \<open>
  C3: From the state the constructor leaves (lemmas \<open>Sold_new_fresh\<close> and \<open>Sold_new_linkable\<close>), a file that \<^verbatim>\<open>Link\<close>
  writes is an object again: \<^verbatim>\<open>ReadELF\<close> accepts it as soon as it accepts its exception frame header, and the object it
  makes has the linker's program headers and loaded segments, needs the libraries left out, has the names of the main
  object, finds each table where the layout put it with as many relocations and versions as were written, and has the
  linker's initialisers and finalisers. The main object's program headers must stand behind its ELF header, because the
  linker copies their offset, and their number must fit the sixteen bits of \<^verbatim>\<open>e_phnum\<close>.
\<close>
theorem Link_reread:
  assumes "fresh so" and "linkable so" and "Sold_Link malloc so = Inr (so', fp)" and "length fp < 2 ^ 31"
    and "e_phoff (bn_ehdr (main_binary so)) = 64" and "e_phentsize (bn_ehdr (main_binary so)) = 56"
    and "Sold_CountPhdrs so' < 2 ^ 16" and "\<forall>e \<in> set (string_entries so'). no_nul (snd e)" and "fs f = Some fp"
  shows "\<exists>phs bn. output_phdrs so' = Inr phs \<and> prefix fp (bn_head bn) \<and> output_object so' phs bn
    \<and> ReadELF hd_addr fs f =
        rbind (ELFBinary_ParseEHFrameHeader hd_addr (so_ehframe_file_offset so') (EHFrameBuilder_Size (so_ehframe_builder so')) bn)
          (\<lambda>bn. Inr (Some (bn\<lparr>bn_gnu_stack := Some (last phs), bn_init_array_addr := Sold_InitArrayOffset so',
            bn_fini_array_addr := Sold_FiniArrayOffset so'\<rparr>)))"
  by (rule Link_reread_object [where fs = fs and f = f, OF assms])

section \<open>A file read again\<close>

lemma ParseEHFrameHeader_tiny:
  assumes "prefix (a @ tiny_eh) (bn_head bn)" and "length a = 8192"
  shows "\<exists>h. ELFBinary_ParseEHFrameHeader hd_addr 8192 12 bn = Inr (bn\<lparr>bn_eh_frame_header := h\<rparr>)"
proof -
  obtain z where z: "bn_head bn = a @ tiny_eh @ z" using assms(1) by (auto simp: prefix_def)
  have size: "length tiny_eh = 12" by (simp add: tiny_eh_def)
  have byte: "byte_at (bn_head bn) (8192 + i) = Inr (tiny_eh ! i)" if "i < 12" for i
    using that assms(2) by (simp add: z nth_append size)
  have word: "word_at 4 (bn_head bn) (8192 + i) = Inr (le_word (take 4 (drop i tiny_eh)) :: u32)" if "i \<le> 8" for i
    using that assms(2) by (simp add: word_at_def z size)
  have bytes: "byte_at (bn_head bn) 8192 = Inr 1" "byte_at (bn_head bn) (8192 + 1) = Inr 0x1b"
    "byte_at (bn_head bn) (8192 + 2) = Inr 3" "byte_at (bn_head bn) (8192 + 3) = Inr 0x3b"
    using byte [of 0] byte [of 1] byte [of 2] byte [of 3] unfolding tiny_eh_def by simp_all
  obtain ptr :: u32 where ptr: "word_at 4 (bn_head bn) (8192 + 4) = Inr ptr" using word [of 4] by simp
  have "(le_word (take 4 (drop 8 tiny_eh)) :: u32) = 0" by code_simp
  then have count: "word_at 4 (bn_head bn) (8192 + 8) = Inr (0 :: u32)" using word [of 8] by simp
  have base: "unat (8192 :: u64) = 8192" by simp
  have checks: "CHECK ((1 :: u8) = 1) = Inr ()" "CHECK ((0x1b :: u8) = DW_EH_PE_sdata4 OR DW_EH_PE_pcrel) = Inr ()"
    "CHECK ((3 :: u8) = DW_EH_PE_udata4) = Inr ()" "CHECK ((0x3b :: u8) = DW_EH_PE_sdata4 OR DW_EH_PE_datarel) = Inr ()"
    "CHECK (12 + ucast (0 :: u32) * (4 * 2) \<le> (12 :: u64)) = Inr ()" by (simp_all add: CHECK_def)
  show ?thesis
    unfolding ELFBinary_ParseEHFrameHeader_def Let_def base bytes ptr count rbind.simps checks
    by (simp only: unat_0 upt.simps rfold.simps rbind.simps) blast
qed

lemma tiny_linkable: "tiny_input = Inr so \<Longrightarrow> linkable so \<and> e_phoff (bn_ehdr (main_binary so)) = 64
    \<and> e_phentsize (bn_ehdr (main_binary so)) = 56"
proof -
  assume so: "tiny_input = Inr so"
  have "case tiny_input of Inl e \<Rightarrow> False | Inr so \<Rightarrow> linkable so \<and> e_phoff (bn_ehdr (main_binary so)) = 64
    \<and> e_phentsize (bn_ehdr (main_binary so)) = 56" by code_simp
  then show ?thesis by (simp add: so)
qed

theorem Link_reread_witness:
  "\<exists>so so' fp bn. tiny_input = Inr so \<and> Sold_Link (\<lambda>n. replicate n 0) so = Inr (so', fp)
    \<and> ReadELF 0 [''out.so'' \<mapsto> fp] ''out.so'' = Inr (Some bn) \<and> bn_neededs bn = [''libb.so'']
    \<and> bn_soname bn = ''liba.so'' \<and> bn_init_array bn = so_init_array so'"
proof -
  obtain so so' where so: "tiny_input = Inr so" "fresh so" "Sold_prepare so = Inr so'" "tiny_tables so'" "tiny_layout so'"
    using tiny_prepared by blast
  note t = so(4) [unfolded tiny_tables_def] and l = so(5) [unfolded tiny_layout_def]
  have ok: "tables_ok so'" using prepare_tables [OF so(3) fresh_tables [OF so(2)]] by blast
  obtain fp a where fp: "Sold_Emit (\<lambda>n. replicate n 0) so' = Inr fp" "length fp < 2 ^ 31" and a: "length a = 8192" "prefix (a @ tiny_eh) fp"
    using tiny_front [OF ok so(4,5)] by blast
  then have link: "Sold_Link (\<lambda>n. replicate n 0) so = Inr (so', fp)" by (simp add: Sold_Link_def so(3))
  have cnt: "Sold_CountPhdrs so' < 2 ^ 16"
  proof -
    have "Sold_CountPhdrs so' = of_nat (length (projr (output_phdrs so')))" "length (projr (output_phdrs so')) < 100"
      using t by simp_all
    then show ?thesis by (simp add: word_less_nat_alt unat_of_nat take_bit_nat_eq_self)
  qed
  have entries: "string_entries so' = [(DT_NEEDED, ''libb.so''), (DT_SONAME, ''liba.so'')]" using t by simp
  have "no_nul ''libb.so''" "no_nul ''liba.so''" by code_simp+
  then have nul: "\<forall>e \<in> set (string_entries so'). no_nul (snd e)" by (simp add: entries)
  obtain phs bn where bn: "prefix fp (bn_head bn)" "output_object so' phs bn"
    and read: "ReadELF 0 [''out.so'' \<mapsto> fp] ''out.so'' =
        rbind (ELFBinary_ParseEHFrameHeader 0 (so_ehframe_file_offset so') (EHFrameBuilder_Size (so_ehframe_builder so')) bn)
          (\<lambda>bn. Inr (Some (bn\<lparr>bn_gnu_stack := Some (last phs), bn_init_array_addr := Sold_InitArrayOffset so',
            bn_fini_array_addr := Sold_FiniArrayOffset so'\<rparr>)))"
    using Link_reread [OF so(2) _ link fp(2) _ _ cnt nul, of "[''out.so'' \<mapsto> fp]" "''out.so''" 0] tiny_linkable [OF so(1)]
    by auto
  have size: "so_ehframe_file_offset so' = 8192" "EHFrameBuilder_Size (so_ehframe_builder so') = 12"
    using l by (simp_all add: EHFrameBuilder_Size_def EHFrameBuilder_new_def)
  obtain h where "ELFBinary_ParseEHFrameHeader 0 8192 12 bn = Inr (bn\<lparr>bn_eh_frame_header := h\<rparr>)"
    using ParseEHFrameHeader_tiny [OF prefix_order.trans [OF a(2) bn(1)] a(1)] by blast
  moreover have "dynamic_neededs so' = [''libb.so'']" "bn_soname (main_binary so') = ''liba.so''"
    using entries by (auto simp: string_entries_def split: if_splits)
  ultimately show ?thesis using so(1) link bn(2) by (auto simp: read size output_object_def)
qed

end
